(* ===== verification/Art_Prelude.thy ===== *)
theory Art_Prelude
  imports Main "HOL-Library.Word" "HOL-Library.Monad_Syntax"
begin

text \<open>
  Shared vocabulary of the development: the machine integers of the C++ sources as words, bytes
  read through a cursor, bytes stored into a buffer, the intrinsics of
  \<^verbatim>\<open>src/libartbase/base/bit_utils.h\<close> that several components call, and the bit-level
  lemmas that carry the component proofs.
\<close>

unbundle bit_operations_syntax

type_synonym u8 = "8 word"
type_synonym u16 = "16 word"
type_synonym u32 = "32 word"
type_synonym u64 = "64 word"

named_theorems art_bits
named_theorems art_defs

section \<open>Cursors and buffers\<close>

text \<open>
  A read pointer is the list of the bytes from the pointer to the end of its object. Reading at the
  end of the object is undefined behaviour in C++ and is \<^term>\<open>None\<close> here. A write pointer is a
  buffer and an offset; a store outside the buffer is \<^term>\<open>None\<close>.
\<close>

definition rd :: "'a list \<Rightarrow> ('a \<times> 'a list) option" where
  "rd ptr = (case ptr of [] \<Rightarrow> None | b # bs \<Rightarrow> Some (b, bs))"

definition wr :: "'a list \<Rightarrow> nat \<Rightarrow> 'a \<Rightarrow> 'a list option" where
  "wr mem i b = (if i < length mem then Some (mem[i := b]) else None)"

lemma rd_simps [simp]: "rd [] = None" "rd (b # bs) = Some (b, bs)"
  by (simp_all add: rd_def)

lemma rd_SomeD: "rd ptr = Some (b, ptr') \<Longrightarrow> ptr = b # ptr'"
  by (auto simp: rd_def split: list.splits)

section \<open>Bit-level facts\<close>

lemma and_7f_take_bit: "(x :: 'a :: len word) AND 0x7F = take_bit 7 x"
  by (simp add: take_bit_eq_mask mask_eq_exp_minus_1)

lemma and_3f_take_bit: "(x :: 'a :: len word) AND 0x3F = take_bit 6 x"
  by (simp add: take_bit_eq_mask mask_eq_exp_minus_1)

lemma and_ffff_take_bit: "(x :: 'a :: len word) AND 0xFFFF = take_bit 16 x"
  by (simp add: take_bit_eq_mask mask_eq_exp_minus_1)

lemma and_ff_take_bit: "(x :: 'a :: len word) AND 0xFF = take_bit 8 x"
  by (simp add: take_bit_eq_mask mask_eq_exp_minus_1)

lemma and_f_take_bit: "(x :: 'a :: len word) AND 0xF = take_bit 4 x"
  by (simp add: take_bit_eq_mask mask_eq_exp_minus_1)

lemmas mask_take_bit = and_7f_take_bit and_3f_take_bit and_ffff_take_bit and_ff_take_bit
  and_f_take_bit

lemma unat_drop_bit_div: "unat (drop_bit n (v :: 'a :: len word)) = unat v div 2 ^ n"
  by (simp only: unat_drop_bit_eq drop_bit_nat_def)

lemma drop_bit_less_self:
  fixes v :: "'a :: len word"
  assumes "v \<noteq> 0" and "0 < n"
  shows "unat (drop_bit n v) < unat v"
proof -
  have "0 < unat v" using assms(1) by (simp add: unat_gt_0)
  moreover have "(1 :: nat) < 2 ^ n" using assms(2) by (intro one_less_power) simp_all
  ultimately have "unat v div 2 ^ n < unat v" by simp 
  then show ?thesis by (simp only: unat_drop_bit_div)
qed

lemma drop_bit_eq_0_iff_less:
  "drop_bit n (v :: 'a :: len word) = 0 \<longleftrightarrow> unat v < 2 ^ n"
proof -
  have "drop_bit n v = 0 \<longleftrightarrow> unat (drop_bit n v) = 0" by (rule unat_eq_zero [symmetric])
  also have "\<dots> \<longleftrightarrow> unat v div 2 ^ n = 0" by (simp only: unat_drop_bit_div)
  finally show ?thesis by (simp add: div_eq_0_iff)
qed

lemma le_7f_iff: "(b :: u8) \<le> 0x7F \<longleftrightarrow> \<not> bit b 7"
proof -
  have "b \<le> 0x7F \<longleftrightarrow> drop_bit 7 b = 0"
    by (simp add: word_le_nat_alt drop_bit_eq_0_iff_less less_Suc_eq_le [symmetric])
  also have "\<dots> \<longleftrightarrow> \<not> bit b 7"
  proof
    assume "drop_bit 7 b = 0"
    then have "\<not> bit (drop_bit 7 b) 0" by simp
    then show "\<not> bit b 7" by (simp only: bit_drop_bit_eq comp_def) simp
  next
    assume *: "\<not> bit b 7"
    show "drop_bit 7 b = 0"
    proof (rule bit_word_eqI)
      fix n
      have "\<not> bit b (7 + n)" using * bit_imp_le_length [of b "7 + n"] by (cases n) auto
      then show "bit (drop_bit 7 b) n = bit 0 n" by (simp add: bit_simps)
    qed
  qed
  finally show ?thesis .
qed

lemma unat_ucast_up: "LENGTH('a) \<le> LENGTH('b) \<Longrightarrow> unat (ucast (x :: 'a :: len word) :: 'b :: len word) = unat x"
  by (simp add: unsigned_ucast_eq take_bit_nat_eq_self_iff) (meson less_le_trans one_le_numeral power_increasing unsigned_less)

lemma unat_u32: "unat (v :: u32) < 2 ^ 32"
  using unsigned_less [of v, where 'a = nat] by simp

lemma bit_80: "bit (0x80 :: u8) n \<longleftrightarrow> n = 7"
proof -
  have "(0x80 :: u8) = 2 ^ 7" by simp
  then show ?thesis by (simp only: bit_exp_iff) auto
qed

lemma takeWhile_length_ge:
  "j \<le> length xs \<Longrightarrow> j \<le> length (takeWhile P xs) \<longleftrightarrow> (\<forall>i<j. P (xs ! i))"
proof (induction xs arbitrary: j)
  case (Cons x xs)
  then show ?case by (cases j) (auto simp: All_less_Suc2)
qed simp

lemma unat_less_bits: "unat (x :: 'a :: len word) < 2 ^ m \<longleftrightarrow> (\<forall>i. m \<le> i \<longrightarrow> \<not> bit x i)"
proof -
  have "drop_bit m x = 0 \<longleftrightarrow> (\<forall>i. \<not> bit x (m + i))"
  proof
    assume d: "drop_bit m x = 0"
    have "\<And>i. \<not> bit (drop_bit m x) i" by (simp only: d) simp
    then show "\<forall>i. \<not> bit x (m + i)" by (simp add: bit_simps)
  next
    assume "\<forall>i. \<not> bit x (m + i)"
    then show "drop_bit m x = 0" by (intro bit_word_eqI) (simp add: bit_simps)
  qed
  also have "\<dots> \<longleftrightarrow> (\<forall>i. m \<le> i \<longrightarrow> \<not> bit x i)"
    by (simp add: le_iff_add) blast
  finally show ?thesis by (simp only: drop_bit_eq_0_iff_less)
qed

lemma unat_of_nat_u32: "m < 2 ^ 32 \<Longrightarrow> unat (of_nat m :: u32) = m"
  by (simp add: unsigned_of_nat take_bit_nat_eq_self)

lemma bit_sdb: "bit (signed_drop_bit k (v :: u32)) n \<longleftrightarrow> n < 32 \<and> bit v (if 31 \<le> n + k then 31 else n + k)"
proof (cases "n < 32 \<and> 31 \<le> n + k")
  case True
  then have "k + n = 31 \<or> 32 - k \<le> n" by arith
  with True show ?thesis by (auto simp: bit_signed_drop_bit_iff)
next
  case False
  then have "n < 32 \<Longrightarrow> \<not> 32 - k \<le> n" by arith
  moreover have "\<not> n < 32 \<Longrightarrow> \<not> bit v (k + n)" using bit_imp_le_length [of v "k + n"] by auto
  ultimately show ?thesis using False by (auto simp: bit_signed_drop_bit_iff add.commute)
qed

lemma list5_cases:
  obtains (0) "xs = []" | (1) a where "xs = [a]" | (2) a b where "xs = [a, b]"
  | (3) a b c where "xs = [a, b, c]" | (4) a b c d where "xs = [a, b, c, d]"
  | (5) a b c d e zs where "xs = a # b # c # d # e # zs"
  by (metis list.exhaust)

section \<open>Codecs\<close>

text \<open>
  An encoder of a value and the decoder that reads it back from the front of a byte stream. The
  sequence lemmas are proved once for every such pair.
\<close>

fun decode_many :: "('b list \<Rightarrow> ('v \<times> 'b list) option) \<Rightarrow> nat \<Rightarrow> 'b list \<Rightarrow> ('v list \<times> 'b list) option"
where
  "decode_many dec 0 bs = Some ([], bs)"
| "decode_many dec (Suc n) bs = do {
     (v, bs) \<leftarrow> dec bs;
     (vs, bs) \<leftarrow> decode_many dec n bs;
     Some (v # vs, bs)
   }"

locale codec =
  fixes enc :: "'v \<Rightarrow> 'b list"
    and dec :: "'b list \<Rightarrow> ('v \<times> 'b list) option"
  assumes dec_enc: "dec (enc v @ rest) = Some (v, rest)"
begin

lemma decode_many_concat: "decode_many dec (length vs) (concat (map enc vs) @ rest) = Some (vs, rest)"
  by (induction vs) (simp_all add: dec_enc)

lemma enc_prefix_free:
  assumes "enc v @ r = enc w @ s"
  shows "v = w \<and> r = s"
proof -
  have "Some (v, r) = Some (w, s)" unfolding dec_enc [symmetric] assms ..
  then show ?thesis by simp
qed

end

end
