(* ===== verification/Bit_Utils.thy ===== *)
theory Bit_Utils
  imports Art_Prelude
begin

text \<open>
  The templates of \<^verbatim>\<open>libartbase/base/bit_utils.h\<close>, for unsigned and signed operands of any width:
  counting bits, powers of two, rounding and alignment, ranges of narrow integers, bit reversal and
  rotation, and bit fields.  A signed operand is the word that holds its two's-complement value.
  The compiler intrinsics are modelled by what they count.
\<close>

unbundle bit_operations_syntax

subsection \<open>Counting bits\<close>

definition CLZ :: "'a :: len word \<Rightarrow> nat" where
  "CLZ x = length (takeWhile (\<lambda>i. \<not> bit x i) (rev [0..<LENGTH('a)]))"

definition JAVASTYLE_CLZ :: "'a :: len word \<Rightarrow> nat" where
  "JAVASTYLE_CLZ x = (if x = 0 then LENGTH('a) else CLZ x)"

definition CTZ :: "'a :: len word \<Rightarrow> nat" where
  "CTZ x = length (takeWhile (\<lambda>i. \<not> bit x i) [0..<LENGTH('a)])"

definition JAVASTYLE_CTZ :: "'a :: len word \<Rightarrow> nat" where
  "JAVASTYLE_CTZ x = (if x = 0 then LENGTH('a) else CTZ x)"

definition POPCOUNT :: "'a :: len word \<Rightarrow> nat" where
  "POPCOUNT x = length (filter (bit x) [0..<LENGTH('a)])"

definition MostSignificantBit :: "'a :: len word \<Rightarrow> int" where
  "MostSignificantBit v = (if v = 0 then - 1 else int LENGTH('a) - 1 - int (CLZ v))"

definition LeastSignificantBit :: "'a :: len word \<Rightarrow> int" where
  "LeastSignificantBit v = (if v = 0 then - 1 else int (CTZ v))"

definition MinimumBitsToStore :: "'a :: len word \<Rightarrow> nat" where
  "MinimumBitsToStore v = nat (MostSignificantBit v + 1)"

subsection \<open>Powers of two, rounding, alignment\<close>

text \<open>
  In \<^verbatim>\<open>CLZ(x - 1u)\<close> an operand narrower than \<^verbatim>\<open>unsigned int\<close> is promoted, so the zeros are counted in 32
  bits.  A shift by a negative distance or by the width of the shifted, promoted operand is undefined,
  the value \<^verbatim>\<open>None\<close>.
\<close>

definition RoundUpToPowerOfTwo :: "'a :: len word \<Rightarrow> 'a word option" where
  "RoundUpToPowerOfTwo x =
     (if x < 2 then Some x
      else
        let zeros = (if LENGTH('a) < 32 then CLZ (ucast x - 1 :: u32) else CLZ (x - 1));
            distance = int LENGTH('a) - int zeros
        in if 0 \<le> distance \<and> distance < max 32 (int LENGTH('a)) then Some (push_bit (nat distance) 1) else None)"

definition TruncToPowerOfTwo :: "'a :: len word \<Rightarrow> 'a word" where
  "TruncToPowerOfTwo v = (if v \<noteq> 0 then push_bit (LENGTH('a) - CLZ v - 1) 1 else 0)"

definition IsPowerOfTwo :: "'a :: len word \<Rightarrow> bool" where
  "IsPowerOfTwo x \<longleftrightarrow> x AND (x - 1) = 0"

definition WhichPowerOf2 :: "'a :: len word \<Rightarrow> nat" where
  "WhichPowerOf2 x = CTZ x"

definition RoundDown :: "'a :: len word \<Rightarrow> 'a word \<Rightarrow> 'a word" where
  "RoundDown x n = x AND (- n)"

definition RoundUp :: "'a :: len word \<Rightarrow> 'a word \<Rightarrow> 'a word" where
  "RoundUp x n = RoundDown (x + n - 1) n"

definition CondRoundUp :: "bool \<Rightarrow> 'a :: len word \<Rightarrow> 'a word \<Rightarrow> 'a word" where
  "CondRoundUp kRoundUp x n = (if kRoundUp then RoundUp x n else x)"

definition AlignDown :: "u64 \<Rightarrow> u64 \<Rightarrow> u64" where
  "AlignDown x n = RoundDown x n"

definition AlignUp :: "u64 \<Rightarrow> u64 \<Rightarrow> u64" where
  "AlignUp x n = RoundUp x n"

text \<open>The alignment is a template argument of type \<^verbatim>\<open>int\<close>; here it has the type of the operand.\<close>

definition IsAligned :: "'a :: len word \<Rightarrow> 'a word \<Rightarrow> bool" where
  "IsAligned n x \<longleftrightarrow> x AND (n - 1) = 0"

definition BitsToBytesRoundUp :: "u64 \<Rightarrow> u64" where
  "BitsToBytesRoundUp num_bits = RoundUp num_bits 8 div 8"

subsection \<open>Halves and ranges\<close>

definition Low16Bits :: "u32 \<Rightarrow> u16" where "Low16Bits v = ucast v"

definition High16Bits :: "u32 \<Rightarrow> u16" where "High16Bits v = ucast (drop_bit 16 v)"

definition Low32Bits :: "u64 \<Rightarrow> u32" where "Low32Bits v = ucast v"

definition High32Bits :: "u64 \<Rightarrow> u32" where "High32Bits v = ucast (drop_bit 32 v)"

definition GetIntLimit :: "nat \<Rightarrow> 'a :: len word" where
  "GetIntLimit bits = push_bit (bits - 1) 1"

definition IsInt :: "nat \<Rightarrow> 'a :: len word \<Rightarrow> bool" where
  "IsInt kBits v \<longleftrightarrow> (if kBits = LENGTH('a) then True
     else - GetIntLimit kBits \<le>s v \<and> v <s GetIntLimit kBits)"

text \<open>For an unsigned operand the test \<^verbatim>\<open>0 <= value\<close> is always true; for a signed one it is not.\<close>

definition IsUint_unsigned :: "nat \<Rightarrow> 'a :: len word \<Rightarrow> bool" where
  "IsUint_unsigned kBits v \<longleftrightarrow> kBits = LENGTH('a) \<or> v \<le> GetIntLimit kBits * 2 - 1"

definition IsUint_signed :: "nat \<Rightarrow> 'a :: len word \<Rightarrow> bool" where
  "IsUint_signed kBits v \<longleftrightarrow> 0 \<le>s v \<and> (kBits = LENGTH('a) \<or> v \<le> GetIntLimit kBits * 2 - 1)"

definition IsAbsoluteUint :: "nat \<Rightarrow> 'a :: len word \<Rightarrow> bool" where
  "IsAbsoluteUint kBits v \<longleftrightarrow> (if kBits = LENGTH('a) then True
     else IsUint_unsigned kBits (if v <s 0 then (- 1 - v) + 1 else v))"

definition MaxInt_unsigned :: "nat \<Rightarrow> 'a :: len word" where
  "MaxInt_unsigned bits = (if bits = LENGTH('a) then - 1 else push_bit bits 1 - 1)"

definition MaxInt_signed :: "nat \<Rightarrow> 'a :: len word" where
  "MaxInt_signed bits = (if bits = LENGTH('a) then push_bit (LENGTH('a) - 1) 1 - 1
     else if bits = 1 then 0 else MaxInt_unsigned (bits - 1))"

definition MinInt_signed :: "nat \<Rightarrow> 'a :: len word" where
  "MinInt_signed bits = (if bits = LENGTH('a) then push_bit (LENGTH('a) - 1) 1
     else if bits = 1 then - 1 else - 1 - MaxInt_signed bits)"

subsection \<open>Single bits, rotation, reversal\<close>

definition LowestOneBitValue :: "'a :: len word \<Rightarrow> 'a word" where
  "LowestOneBitValue opnd = opnd AND (- opnd)"

definition HighestOneBitValue :: "'a :: len word \<Rightarrow> 'a word" where
  "HighestOneBitValue opnd =
     (if opnd = 0 then 0 else let bit_position = LENGTH('a) - (CLZ opnd + 1) in push_bit bit_position 1)"

text \<open>
  The shift distances are the low bits of \<^verbatim>\<open>distance\<close> and of its negation, for widths that are powers of
  two.  For a negative operand the left shift is the one of its unsigned representation.
\<close>

definition Rot :: "bool \<Rightarrow> 'a :: len word \<Rightarrow> int \<Rightarrow> 'a word" where
  "Rot left opnd distance =
     (let mask = int LENGTH('a) - 1;
          unsigned_right_shift = (if left then - distance AND mask else distance AND mask);
          signed_left_shift = (if left then distance AND mask else - distance AND mask)
      in drop_bit (nat unsigned_right_shift) opnd OR push_bit (nat signed_left_shift) opnd)"

definition ReverseBits32 :: "u32 \<Rightarrow> u32" where
  "ReverseBits32 opnd =
     (let opnd = (drop_bit 1 opnd AND 0x55555555) OR push_bit 1 (opnd AND 0x55555555);
          opnd = (drop_bit 2 opnd AND 0x33333333) OR push_bit 2 (opnd AND 0x33333333);
          opnd = (drop_bit 4 opnd AND 0x0F0F0F0F) OR push_bit 4 (opnd AND 0x0F0F0F0F);
          opnd = (drop_bit 8 opnd AND 0x00FF00FF) OR push_bit 8 (opnd AND 0x00FF00FF)
      in drop_bit 16 opnd OR push_bit 16 opnd)"

definition ReverseBits64 :: "u64 \<Rightarrow> u64" where
  "ReverseBits64 opnd =
     (let opnd = push_bit 1 (opnd AND 0x5555555555555555) OR (drop_bit 1 opnd AND 0x5555555555555555);
          opnd = push_bit 2 (opnd AND 0x3333333333333333) OR (drop_bit 2 opnd AND 0x3333333333333333);
          opnd = push_bit 4 (opnd AND 0x0f0f0f0f0f0f0f0f) OR (drop_bit 4 opnd AND 0x0f0f0f0f0f0f0f0f);
          opnd = push_bit 8 (opnd AND 0x00ff00ff00ff00ff) OR (drop_bit 8 opnd AND 0x00ff00ff00ff00ff)
      in push_bit 48 opnd OR push_bit 16 (opnd AND 0xffff0000) OR (drop_bit 16 opnd AND 0xffff0000) OR
         drop_bit 48 opnd)"

subsection \<open>Bit fields\<close>

definition MaskLeastSignificant :: "nat \<Rightarrow> 'a :: len word" where
  "MaskLeastSignificant bits = (if bits \<ge> LENGTH('a) then - 1 else push_bit bits 1 - 1)"

definition BitFieldClear :: "'a :: len word \<Rightarrow> nat \<Rightarrow> nat \<Rightarrow> 'a word" where
  "BitFieldClear v lsb width = v AND NOT (push_bit lsb (MaskLeastSignificant width))"

text \<open>
  The field value has the type of the word it is inserted into.  The assertions on the range of the
  field value are not part of the model: the bits above the field are masked off as in the code.
\<close>

definition BitFieldInsert :: "'a :: len word \<Rightarrow> 'a word \<Rightarrow> nat \<Rightarrow> nat \<Rightarrow> 'a word" where
  "BitFieldInsert v field lsb width =
     BitFieldClear v lsb width OR push_bit lsb (field AND MaskLeastSignificant width)"

definition BitFieldExtract :: "'a :: len word \<Rightarrow> nat \<Rightarrow> nat \<Rightarrow> 'a word" where
  "BitFieldExtract v lsb width = drop_bit lsb v AND MaskLeastSignificant width"

text \<open>
  The instance for a signed type of at most 32 bits; \<^verbatim>\<open>1 << (width - 1)\<close> is a shift of an \<^verbatim>\<open>int\<close>.
\<close>

definition BitFieldExtract_signed :: "u32 \<Rightarrow> nat \<Rightarrow> nat \<Rightarrow> u32" where
  "BitFieldExtract_signed v lsb width =
     (let bitfield_unsigned = drop_bit lsb v AND MaskLeastSignificant width in
      if width = 0 then 0
      else if bitfield_unsigned AND push_bit (width - 1) 1 \<noteq> 0
      then bitfield_unsigned OR NOT (MaskLeastSignificant width)
      else bitfield_unsigned)"

subsection \<open>Counting bits\<close>

lemma word_nonzero_bit: "(x :: 'a :: len word) \<noteq> 0 \<Longrightarrow> \<exists>j. bit x j"
  using bit_word_eqI [of x 0] by auto

lemma length_takeWhile_short: "\<exists>x \<in> set xs. \<not> P x \<Longrightarrow> length (takeWhile P xs) < length xs"
  by (induction xs) auto

lemma CLZ_spec:
  assumes "(x :: 'a :: len word) \<noteq> 0"
  shows "CLZ x < LENGTH('a)" "bit x (LENGTH('a) - 1 - CLZ x)" "\<And>i. LENGTH('a) - 1 - CLZ x < i \<Longrightarrow> \<not> bit x i"
proof -
  let ?n = "LENGTH('a)" and ?P = "\<lambda>i. \<not> bit x i"
  let ?t = "takeWhile ?P (rev [0..<?n])"
  have nth: "rev [0..<?n] ! k = ?n - 1 - k" if "k < ?n" for k using that by (simp add: rev_nth)
  from word_nonzero_bit [OF assms] obtain j where "bit x j" ..
  then have j: "j < ?n" "bit x j" using bit_imp_le_length by blast+
  have "\<exists>i \<in> set (rev [0..<?n]). \<not> ?P i" using j by auto
  from length_takeWhile_short [OF this] have l: "length ?t < ?n" by simp
  then show 1: "CLZ x < ?n" by (simp add: CLZ_def)
  show "bit x (?n - 1 - CLZ x)"
    using nth_length_takeWhile [of ?P "rev [0..<?n]"] l nth [OF l] by (simp add: CLZ_def)
  show "\<not> bit x i" if i: "?n - 1 - CLZ x < i" for i
  proof (cases "i < ?n")
    case True
    then have "?n - 1 - i < length ?t" using i l by (simp add: CLZ_def)
    then have "?P (rev [0..<?n] ! (?n - 1 - i))" by (metis nth_mem set_takeWhileD takeWhile_nth)
    with True show ?thesis using nth [of "?n - 1 - i"] by simp
  qed (auto dest: bit_imp_le_length)
qed

lemma CTZ_spec:
  assumes "(x :: 'a :: len word) \<noteq> 0"
  shows "CTZ x < LENGTH('a)" "bit x (CTZ x)" "\<And>i. i < CTZ x \<Longrightarrow> \<not> bit x i"
proof -
  let ?n = "LENGTH('a)" and ?P = "\<lambda>i. \<not> bit x i"
  let ?t = "takeWhile ?P [0..<?n]"
  from word_nonzero_bit [OF assms] obtain j where "bit x j" ..
  then have j: "j < ?n" "bit x j" using bit_imp_le_length by blast+
  have "\<exists>i \<in> set [0..<?n]. \<not> ?P i" using j by auto
  from length_takeWhile_short [OF this] have l: "length ?t < ?n" by simp
  then show "CTZ x < ?n" by (simp add: CTZ_def)
  show "bit x (CTZ x)"
    using nth_length_takeWhile [of ?P "[0..<?n]"] l by (simp add: CTZ_def)
  show "\<not> bit x i" if i: "i < CTZ x" for i
  proof -
    have "i < length ?t" using i by (simp add: CTZ_def)
    then have "?P ([0..<?n] ! i)" by (metis nth_mem set_takeWhileD takeWhile_nth)
    then show ?thesis using i l by (simp add: CTZ_def)
  qed
qed

lemma POPCOUNT_card: "POPCOUNT x = card {i. bit x i}"
proof -
  have "{i. bit x i} = set (filter (bit x) [0..<LENGTH('a)])" for x :: "'a word"
    by (auto dest: bit_imp_le_length)
  then show ?thesis by (simp add: POPCOUNT_def distinct_card flip: set_filter)
qed

text \<open>The position of the most significant bit brackets the value between powers of two.\<close>

lemma less_exp_iff_bits: "unat (x :: 'a :: len word) < 2 ^ m \<longleftrightarrow> (\<forall>i \<ge> m. \<not> bit x i)"
proof -
  have "unat x < 2 ^ m \<longleftrightarrow> take_bit m x = x"
    by (simp add: take_bit_eq_self_iff_drop_bit_eq_0 drop_bit_eq_0_iff_less)
  also have "\<dots> \<longleftrightarrow> (\<forall>i \<ge> m. \<not> bit x i)"
  proof
    assume "take_bit m x = x"
    then show "\<forall>i \<ge> m. \<not> bit x i" by (metis bit_take_bit_iff not_le)
  next
    assume "\<forall>i \<ge> m. \<not> bit x i"
    then show "take_bit m x = x" by (intro bit_word_eqI) (auto simp: bit_take_bit_iff not_le [symmetric])
  qed
  finally show ?thesis .
qed

lemma CLZ_bounds:
  assumes "(x :: 'a :: len word) \<noteq> 0"
  shows "2 ^ (LENGTH('a) - 1 - CLZ x) \<le> unat x" "unat x < 2 ^ (LENGTH('a) - CLZ x)"
proof -
  note c = CLZ_spec [OF assms]
  show "unat x < 2 ^ (LENGTH('a) - CLZ x)"
    unfolding less_exp_iff_bits using c by (metis Suc_le_eq Suc_diff_Suc diff_Suc_eq_diff_pred)
  have "\<not> unat x < 2 ^ (LENGTH('a) - 1 - CLZ x)" unfolding less_exp_iff_bits using c(2) by blast
  then show "2 ^ (LENGTH('a) - 1 - CLZ x) \<le> unat x" by simp
qed

lemma unat_push_bit_1: "k < LENGTH('a) \<Longrightarrow> unat (push_bit k (1 :: 'a :: len word)) = 2 ^ k"
  by (simp only: unsigned_push_bit_eq) (simp add: push_bit_eq_mult take_bit_nat_eq_self)

lemma unat_exp: "k < LENGTH('a) \<Longrightarrow> unat ((2 :: 'a :: len word) ^ k) = 2 ^ k"
  using unat_push_bit_1 [of k, where 'a = 'a] by (simp add: push_bit_eq_mult)

subsection \<open>Powers of two and rounding\<close>

lemma MinimumBitsToStore_spec:
  "unat (x :: 'a :: len word) < 2 ^ m \<longleftrightarrow> MinimumBitsToStore x \<le> m"
proof (cases "x = 0")
  case False
  note c = CLZ_spec [OF False] and b = CLZ_bounds [OF False]
  have e: "MinimumBitsToStore x = LENGTH('a) - CLZ x"
    using c(1) False by (simp add: MinimumBitsToStore_def MostSignificantBit_def)
  show ?thesis
  proof
    assume "unat x < 2 ^ m"
    then have "(2 :: nat) ^ (LENGTH('a) - 1 - CLZ x) < 2 ^ m" using b(1) by linarith
    then have "LENGTH('a) - 1 - CLZ x < m" by simp
    then show "MinimumBitsToStore x \<le> m" using e c(1) by linarith
  next
    assume "MinimumBitsToStore x \<le> m"
    then have "(2 :: nat) ^ (LENGTH('a) - CLZ x) \<le> 2 ^ m" by (simp add: e)
    with b(2) show "unat x < 2 ^ m" by linarith
  qed
qed (simp add: MinimumBitsToStore_def MostSignificantBit_def)

lemma TruncToPowerOfTwo_spec:
  assumes "(x :: 'a :: len word) \<noteq> 0"
  shows "\<exists>k. unat (TruncToPowerOfTwo x) = 2 ^ k \<and> 2 ^ k \<le> unat x \<and> unat x < 2 ^ Suc k"
proof -
  note c = CLZ_spec [OF assms] and b = CLZ_bounds [OF assms]
  have "LENGTH('a) - CLZ x = Suc (LENGTH('a) - 1 - CLZ x)" using c(1) by linarith
  then show ?thesis using b assms c(1)
    by (intro exI [of _ "LENGTH('a) - 1 - CLZ x"]) (simp add: TruncToPowerOfTwo_def unat_exp)
qed

lemma unat_minus_1:
  assumes "2 \<le> unat (x :: 'a :: len word)"
  shows "unat (x - 1) = unat x - 1" "x - 1 \<noteq> 0"
proof -
  show u: "unat (x - 1) = unat x - 1" using unat_sub [of 1 x] assms by (simp add: word_le_nat_alt)
  show "x - 1 \<noteq> 0" using u assms by (metis One_nat_def Suc_1 diff_is_0_eq not_less_eq_eq unsigned_0)
qed

lemma RoundUpToPowerOfTwo_wide:
  assumes "2 \<le> unat (x :: 'a :: len word)" "32 \<le> LENGTH('a)"
  shows "RoundUpToPowerOfTwo x = (let k = LENGTH('a) - CLZ (x - 1) in if k < LENGTH('a) then Some (push_bit k 1) else None)"
proof -
  have "\<not> x < 2" using assms by (simp add: word_less_nat_alt)
  moreover have "CLZ (x - 1) < LENGTH('a)" using CLZ_spec(1) [OF unat_minus_1(2) [OF assms(1)]] .
  ultimately show ?thesis using assms(2) by (auto simp: RoundUpToPowerOfTwo_def Let_def nat_diff_distrib)
qed

lemma RoundUpToPowerOfTwo_spec:
  assumes "(x :: 'a :: len word) \<noteq> 0" "32 \<le> LENGTH('a)"
  shows "if unat x \<le> 2 ^ (LENGTH('a) - 1)
    then \<exists>r k. RoundUpToPowerOfTwo x = Some r \<and> unat r = 2 ^ k \<and> unat x \<le> 2 ^ k \<and> 2 ^ k < 2 * unat x
    else RoundUpToPowerOfTwo x = None"
proof (cases "x = 1")
  case True
  have "(1 :: 'a word) < 2" using assms(2) unat_exp [of 1, where 'a = 'a] by (simp add: word_less_nat_alt)
  then show ?thesis using True by (auto simp: RoundUpToPowerOfTwo_def intro!: exI [of _ 0])
next
  case False
  then have x: "2 \<le> unat x" using assms(1) by (metis One_nat_def Suc_1 Suc_leI le_neq_implies_less less_one linorder_not_le unsigned_1 unsigned_0 word_unat_eq_iff)
  note u = unat_minus_1 [OF x]
  note c = CLZ_spec [OF u(2)] and b = CLZ_bounds [OF u(2)]
  let ?k = "LENGTH('a) - CLZ (x - 1)"
  have e: "?k - 1 = LENGTH('a) - 1 - CLZ (x - 1)" by simp
  have r: "RoundUpToPowerOfTwo x = (if ?k < LENGTH('a) then Some (push_bit ?k 1) else None)"
    using RoundUpToPowerOfTwo_wide [OF x assms(2)] by (simp add: Let_def)
  have d: "2 ^ ?k = 2 * (2 :: nat) ^ (?k - 1)" using c(1) by (simp flip: power_Suc)
  show ?thesis
  proof (cases "unat x \<le> 2 ^ (LENGTH('a) - 1)")
    case True
    have "(2 :: nat) ^ (?k - 1) < 2 ^ (LENGTH('a) - 1)" unfolding e using b(1) u(1) True x by linarith
    then have "?k - 1 < LENGTH('a) - 1" by simp
    then have k: "?k < LENGTH('a)" by linarith
    have "2 ^ ?k < 2 * unat x" "unat x \<le> 2 ^ ?k" using b u(1) x d by simp_all
    then show ?thesis using True k r unat_push_bit_1 [OF k]
      by (simp only: if_True) (intro exI [of _ "push_bit ?k 1"] exI [of _ ?k], simp)
  next
    case False
    have "\<not> ?k < LENGTH('a)"
    proof
      assume "?k < LENGTH('a)"
      then have "(2 :: nat) ^ ?k \<le> 2 ^ (LENGTH('a) - 1)" by (intro power_increasing) auto
      then show False using b(2) u(1) False x by linarith
    qed
    then show ?thesis using False r by (simp only: if_False)
  qed
qed

lemma RoundUpToPowerOfTwo_narrow:
  assumes "2 \<le> unat (x :: 'a :: len word)" "unat x \<le> 2 ^ (LENGTH('a) - 1)" "LENGTH('a) \<le> 16"
  shows "RoundUpToPowerOfTwo x = None"
proof -
  let ?y = "ucast x :: u32"
  have "unat x < 2 ^ LENGTH('a)" by (rule unsigned_less)
  also have "\<dots> \<le> (2 :: nat) ^ 32" using assms(3) by (intro power_increasing) auto
  finally have "unat ?y = unat x" by (simp add: unsigned_ucast_eq take_bit_nat_eq_self)
  then have y: "2 \<le> unat ?y" using assms(1) by simp
  note u = unat_minus_1 [OF y]
  have "(2 :: nat) ^ (31 - CLZ (?y - 1)) < 2 ^ (LENGTH('a) - 1)"
  proof -
    have "2 ^ (31 - CLZ (?y - 1)) \<le> unat x - 1"
      using CLZ_bounds(1) [OF u(2)] unfolding u(1) \<open>unat ?y = unat x\<close> by simp
    then show ?thesis using assms(1,2) by linarith
  qed
  then have "31 - CLZ (?y - 1) < LENGTH('a) - 1" by simp
  then have "LENGTH('a) < CLZ (?y - 1)" using assms(3) by linarith
  moreover have "\<not> x < 2" using assms(1,2) by (simp add: word_less_nat_alt)
  ultimately show ?thesis using assms(3) by (simp add: RoundUpToPowerOfTwo_def Let_def)
qed

lemma HighestOneBitValue_Trunc: "HighestOneBitValue x = TruncToPowerOfTwo x"
  by (simp add: HighestOneBitValue_def TruncToPowerOfTwo_def Let_def)

lemma LowestOneBitValue_CTZ:
  assumes "(x :: 'a :: len word) \<noteq> 0"
  shows "LowestOneBitValue x = push_bit (CTZ x) 1"
proof -
  note c = CTZ_spec [OF assms]
  define y where "y = drop_bit (CTZ x) x"
  have x: "x = push_bit (CTZ x) y"
  proof (rule bit_word_eqI)
    fix n assume "n < LENGTH('a)"
    then show "bit x n = bit (push_bit (CTZ x) y) n"
      unfolding y_def using c(3) [of n] by (cases "n < CTZ x") (auto simp: bit_simps)
  qed
  have "odd y" using c(2) by (simp add: y_def bit_simps flip: bit_0)
  then have "y - 1 = 1 XOR y" using one_xor_eq [of y] by simp
  then have "- y = NOT (1 XOR y)" by (simp add: minus_eq_not_minus_1)
  then have "y AND - y = y AND 1" by (simp add: bit_eq_iff bit_simps) blast
  then have y: "y AND - y = 1" using \<open>odd y\<close> by (simp add: and_one_eq odd_iff_mod_2_eq_one)
  have "- x = push_bit (CTZ x) (- y)" by (subst x) (simp add: push_bit_eq_mult)
  then have "x AND - x = push_bit (CTZ x) (y AND - y)" by (subst (1) x) simp
  then show ?thesis by (simp add: LowestOneBitValue_def y)
qed

lemma WhichPowerOf2_exp:
  assumes "k < LENGTH('a)"
  shows "WhichPowerOf2 (2 ^ k :: 'a :: len word) = k"
proof -
  have "(2 ^ k :: 'a word) \<noteq> 0" using unat_exp [OF assms] by (metis power_not_zero unsigned_0 zero_neq_numeral)
  from CTZ_spec(2) [OF this] show ?thesis by (simp add: WhichPowerOf2_def bit_exp_iff)
qed

lemma IsPowerOfTwo_iff: "IsPowerOfTwo (x :: 'a :: len word) \<longleftrightarrow> x = 0 \<or> (\<exists>k < LENGTH('a). unat x = 2 ^ k)"
proof (cases "x = 0")
  case False
  note c = CLZ_spec [OF False] and b = CLZ_bounds [OF False]
  let ?k = "LENGTH('a) - 1 - CLZ x"
  have Suc: "LENGTH('a) - CLZ x = Suc ?k" using c(1) by linarith
  have "1 \<le> unat x" using False by (simp add: Suc_leI unat_gt_0)
  then have u: "unat (x - 1) = unat x - 1" using unat_sub [of 1 x] by (simp add: word_le_nat_alt)
  show ?thesis
  proof (cases "unat x = 2 ^ ?k")
    case True
    define k where "k = ?k"
    with True c(1) have "x = 2 ^ k" by (simp add: word_unat_eq_iff unat_exp)
    then have "\<And>i. bit x i \<Longrightarrow> i = k" by (simp add: bit_exp_iff)
    then have "\<And>i. bit x i \<Longrightarrow> i = ?k" unfolding k_def .
    moreover have "unat (x - 1) < 2 ^ ?k" using u True by simp
    then have "\<forall>i \<ge> ?k. \<not> bit (x - 1) i" by (simp only: less_exp_iff_bits)
    ultimately have "x AND (x - 1) = 0"
      by (intro bit_word_eqI) (auto simp: bit_and_iff)
    with True c(1) show ?thesis by (auto simp: IsPowerOfTwo_def intro!: exI [of _ ?k])
  next
    case False
    then have "2 ^ ?k \<le> unat (x - 1)" "unat (x - 1) < 2 ^ Suc ?k" using b u Suc by simp_all
    then have "\<not> (\<forall>i \<ge> ?k. \<not> bit (x - 1) i)" "\<forall>i \<ge> Suc ?k. \<not> bit (x - 1) i"
      by (simp_all only: less_exp_iff_bits [symmetric] not_less)
    then have "bit (x - 1) ?k" by (metis Suc_leI le_neq_implies_less)
    with c(2) have "bit (x AND (x - 1)) ?k" by (simp add: bit_and_iff)
    then have "\<not> IsPowerOfTwo x" by (auto simp: IsPowerOfTwo_def)
    moreover have "unat x \<noteq> 2 ^ j" for j
    proof
      assume j: "unat x = 2 ^ j"
      have "(2 :: nat) ^ ?k \<le> 2 ^ j" using b(1) j by simp
      then have "?k \<le> j" by simp
      moreover have "(2 :: nat) ^ j < 2 ^ Suc ?k" using b(2) j Suc by simp
      then have "j < Suc ?k" by (rule power_less_imp_less_exp [rotated]) simp
      ultimately have "j = ?k" by simp
      with j False show False by simp
    qed
    ultimately show ?thesis using \<open>x \<noteq> 0\<close> by simp
  qed
qed (simp add: IsPowerOfTwo_def)

lemma RoundDown_exp: "RoundDown (x :: 'a :: len word) (2 ^ k) = push_bit k (drop_bit k x)"
  by (auto simp: RoundDown_def minus_exp_eq_not_mask bit_eq_iff bit_simps)

lemma unat_RoundDown: "unat (RoundDown (x :: 'a :: len word) (2 ^ k)) = unat x div 2 ^ k * 2 ^ k"
proof -
  have "unat x div 2 ^ k * 2 ^ k < 2 ^ LENGTH('a)"
    using unsigned_less [of x, where 'a = nat] by (meson div_times_less_eq_dividend le_less_trans)
  then show ?thesis
    by (simp only: RoundDown_exp unsigned_push_bit_eq unat_drop_bit_div)
       (simp add: push_bit_eq_mult take_bit_nat_eq_self)
qed

lemma unat_RoundUp:
  assumes "unat (x :: 'a :: len word) + (2 ^ k - 1) < 2 ^ LENGTH('a)" "k < LENGTH('a)"
  shows "unat (RoundUp x (2 ^ k)) = (unat x + (2 ^ k - 1)) div 2 ^ k * 2 ^ k"
proof -
  have "unat ((2 :: 'a word) ^ k) = 2 ^ k" using unat_push_bit_1 [OF assms(2)] by (simp add: push_bit_eq_mult)
  then have "unat ((2 :: 'a word) ^ k - 1) = 2 ^ k - 1"
    using unat_sub [of 1 "2 ^ k :: 'a word"] by (simp add: word_le_nat_alt)
  then have "unat (x + (2 ^ k - 1)) = unat x + (2 ^ k - 1)" using assms(1) by (simp add: unat_word_ariths)
  then show ?thesis unfolding RoundUp_def unat_RoundDown by (simp add: algebra_simps)
qed

subsection \<open>Bit fields, rotation and reversal\<close>

lemma MaskLeastSignificant_mask: "MaskLeastSignificant w = (mask w :: 'a :: len word)"
proof (cases "w \<ge> LENGTH('a)")
  case True
  then have "(mask w :: 'a word) = - 1" by (intro bit_word_eqI) (auto simp: bit_simps)
  with True show ?thesis by (simp add: MaskLeastSignificant_def)
qed (simp add: MaskLeastSignificant_def mask_eq_exp_minus_1)

lemma bit_BitFieldClear: "bit (BitFieldClear (v :: 'a :: len word) lsb w) n \<longleftrightarrow> bit v n \<and> \<not> (lsb \<le> n \<and> n < lsb + w)"
  by (auto simp: BitFieldClear_def MaskLeastSignificant_mask bit_simps dest: bit_imp_le_length)

lemma bit_BitFieldInsert:
  "n < LENGTH('a) \<Longrightarrow> bit (BitFieldInsert (v :: 'a :: len word) d lsb w) n \<longleftrightarrow>
    (if lsb \<le> n \<and> n < lsb + w then bit d (n - lsb) else bit v n)"
  by (auto simp: BitFieldInsert_def bit_or_iff bit_BitFieldClear MaskLeastSignificant_mask bit_simps)

lemma bit_BitFieldExtract: "bit (BitFieldExtract (v :: 'a :: len word) lsb w) n \<longleftrightarrow> n < w \<and> bit v (lsb + n)"
  by (auto simp: BitFieldExtract_def MaskLeastSignificant_mask bit_simps dest: bit_imp_le_length)

lemma bit_BitFieldExtract_signed:
  assumes "0 < w" "w \<le> 32" "n < 32"
  shows "bit (BitFieldExtract_signed v lsb w) n \<longleftrightarrow> bit v (lsb + min n (w - 1))"
proof -
  have s: "drop_bit lsb v AND MaskLeastSignificant w AND push_bit (w - 1) 1 \<noteq> (0 :: u32) \<longleftrightarrow> bit v (lsb + (w - 1))"
  proof -
    have "drop_bit lsb v AND MaskLeastSignificant w AND push_bit (w - 1) 1 = (if bit v (lsb + (w - 1)) then push_bit (w - 1) 1 else 0)"
      using assms by (intro bit_word_eqI) (auto simp: MaskLeastSignificant_mask bit_simps)
    moreover have "push_bit (w - 1) (1 :: u32) \<noteq> 0" using assms unat_exp [of "w - 1", where 'a = 32] by auto
    ultimately show ?thesis by simp
  qed
  show ?thesis using assms s
    by (auto simp: BitFieldExtract_signed_def Let_def MaskLeastSignificant_mask bit_simps and.assoc min_def)
qed

lemma mod_window:
  fixes n k w :: int
  assumes "0 \<le> n" "n < w" "0 \<le> k" "k < w"
  shows "(n - k) mod w = (if k \<le> n then n - k else n - k + w)"
proof (cases "k \<le> n")
  case True with assms show ?thesis by (simp add: mod_pos_pos_trivial)
next
  case False
  have "(n - k) mod w = (n - k + w) mod w" by simp
  also have "\<dots> = n - k + w" using False assms by (intro mod_pos_pos_trivial) auto
  finally show ?thesis using False by simp
qed

lemma and_width_mask: "n = 2 ^ m \<Longrightarrow> d AND (int n - 1) = d mod int n"
  by (simp add: take_bit_eq_mod flip: mask_eq_exp_minus_1 take_bit_eq_mask)

lemma bit_Rot:
  assumes "n < LENGTH('a)" "LENGTH('a) = 2 ^ m"
  shows "bit (Rot True (x :: 'a :: len word) d) n \<longleftrightarrow> bit x (nat ((int n - d) mod int LENGTH('a)))"
proof -
  let ?w = "int LENGTH('a)"
  define k where "k = nat (d mod ?w)"
  have k: "int k = d mod ?w" "k < LENGTH('a)" by (simp_all add: k_def nat_less_iff)
  have "(- d) mod ?w = (0 - int k) mod ?w" unfolding k(1) by (simp add: mod_minus_eq)
  also have "\<dots> = (if k = 0 then 0 else ?w - int k)" using mod_window [of 0 ?w "int k"] k(2) by auto
  finally have k': "nat ((- d) mod ?w) = (if k = 0 then 0 else LENGTH('a) - k)" by auto
  have "(int n - d) mod ?w = (int n - int k) mod ?w" unfolding k(1) by (simp add: mod_diff_right_eq)
  also have "\<dots> = (if k \<le> n then int n - int k else int n - int k + ?w)"
    using mod_window [of "int n" ?w "int k"] k(2) assms(1) by simp
  finally have e: "nat ((int n - d) mod ?w) = (if k \<le> n then n - k else n + LENGTH('a) - k)"
    using k(2) by auto
  have "Rot True x d = drop_bit (nat ((- d) mod ?w)) x OR push_bit (nat (d mod ?w)) x"
    unfolding Rot_def Let_def and_width_mask [OF assms(2)] by simp
  then have "bit (Rot True x d) n \<longleftrightarrow> bit x (n + (if k = 0 then 0 else LENGTH('a) - k)) \<or> k \<le> n \<and> bit x (n - k)"
    using assms(1) k' by (auto simp: bit_simps k_def [symmetric] add.commute)
  also have "\<dots> \<longleftrightarrow> bit x (if k \<le> n then n - k else n + LENGTH('a) - k)"
    using k(2) by (auto dest: bit_imp_le_length)
  finally show ?thesis by (simp only: e)
qed

lemma Rot_False: "Rot False x d = Rot True x (- d)"
  by (simp add: Rot_def)

lemma bit_Rot_False:
  assumes "n < LENGTH('a)" "LENGTH('a) = 2 ^ m"
  shows "bit (Rot False (x :: 'a :: len word) d) n \<longleftrightarrow> bit x (nat ((int n + d) mod int LENGTH('a)))"
  using bit_Rot [OF assms, of x "- d"] by (simp add: Rot_False)

lemma Rot_Rot:
  assumes "LENGTH('a) = 2 ^ m"
  shows "Rot True (Rot True (x :: 'a :: len word) d) e = Rot True x (d + e)"
proof (rule bit_word_eqI)
  fix n assume n: "n < LENGTH('a)"
  let ?w = "int LENGTH('a)" and ?j = "nat ((int n - e) mod int LENGTH('a))"
  have j: "?j < LENGTH('a)" "int ?j = (int n - e) mod ?w" by (simp_all add: nat_less_iff)
  have "(int ?j - d) mod ?w = (int n - (d + e)) mod ?w" unfolding j(2) mod_diff_left_eq by (simp add: algebra_simps)
  then show "bit (Rot True (Rot True x d) e) n = bit (Rot True x (d + e)) n"
    using bit_Rot [OF n assms] bit_Rot [OF j(1) assms] by simp
qed

lemma Rot_0: "Rot True (x :: 'a :: len word) 0 = x"
  by (simp add: Rot_def)

lemma Rot_undo:
  assumes "LENGTH('a) = 2 ^ m"
  shows "Rot (\<not> left) (Rot left (x :: 'a :: len word) d) d = x"
  by (cases left) (simp_all add: Rot_False Rot_Rot [OF assms] Rot_0)

definition swap_pos :: "nat \<Rightarrow> nat \<Rightarrow> nat" where
  "swap_pos k n = (if even (n div k) then n + k else n - k)"

lemma bit_swap_step:
  fixes x m :: "'a :: len word"
  assumes "0 < k" "n < LENGTH('a)" "swap_pos k n < LENGTH('a)" "\<And>i. i < LENGTH('a) \<Longrightarrow> bit m i \<longleftrightarrow> even (i div k)"
  shows "bit (drop_bit k x AND m OR push_bit k (x AND m)) n = bit x (swap_pos k n)"
    "bit (push_bit k (x AND m) OR drop_bit k x AND m) n = bit x (swap_pos k n)"
proof -
  have "k \<le> n \<Longrightarrow> even ((n - k) div k) \<longleftrightarrow> odd (n div k)"
    using assms(1) by (metis Suc_1 le_div_geq even_Suc not_less zero_less_iff_neq_zero div_less odd_one div_add_self2 le_add_diff_inverse2)
  moreover have "odd (n div k) \<Longrightarrow> k \<le> n" by (metis div_less even_zero not_less)
  ultimately show "bit (drop_bit k x AND m OR push_bit k (x AND m)) n = bit x (swap_pos k n)"
    "bit (push_bit k (x AND m) OR drop_bit k x AND m) n = bit x (swap_pos k n)"
    using assms by (auto simp: bit_simps swap_pos_def add.commute)
qed

lemma masks_u32:
  "i < 32 \<Longrightarrow> bit (0x55555555 :: u32) i \<longleftrightarrow> even (i div 1)" "i < 32 \<Longrightarrow> bit (0x33333333 :: u32) i \<longleftrightarrow> even (i div 2)"
  "i < 32 \<Longrightarrow> bit (0x0F0F0F0F :: u32) i \<longleftrightarrow> even (i div 4)" "i < 32 \<Longrightarrow> bit (0x00FF00FF :: u32) i \<longleftrightarrow> even (i div 8)"
proof -
  have "list_all (\<lambda>i. (bit (0x55555555 :: u32) i = even (i div 1)) \<and> (bit (0x33333333 :: u32) i = even (i div 2)) \<and>
     (bit (0x0F0F0F0F :: u32) i = even (i div 4)) \<and> (bit (0x00FF00FF :: u32) i = even (i div 8))) [0..<32]" by code_simp
  then show "i < 32 \<Longrightarrow> bit (0x55555555 :: u32) i \<longleftrightarrow> even (i div 1)" "i < 32 \<Longrightarrow> bit (0x33333333 :: u32) i \<longleftrightarrow> even (i div 2)"
    "i < 32 \<Longrightarrow> bit (0x0F0F0F0F :: u32) i \<longleftrightarrow> even (i div 4)" "i < 32 \<Longrightarrow> bit (0x00FF00FF :: u32) i \<longleftrightarrow> even (i div 8)"
    by (simp_all only: list_all_iff set_upt atLeastLessThan_iff) auto
qed

lemma masks_u64:
  "i < 64 \<Longrightarrow> bit (0x5555555555555555 :: u64) i \<longleftrightarrow> even (i div 1)" "i < 64 \<Longrightarrow> bit (0x3333333333333333 :: u64) i \<longleftrightarrow> even (i div 2)"
  "i < 64 \<Longrightarrow> bit (0x0F0F0F0F0F0F0F0F :: u64) i \<longleftrightarrow> even (i div 4)" "i < 64 \<Longrightarrow> bit (0x00FF00FF00FF00FF :: u64) i \<longleftrightarrow> even (i div 8)"
  "i < 64 \<Longrightarrow> bit (0xFFFF0000 :: u64) i \<longleftrightarrow> 16 \<le> i \<and> i < 32"
proof -
  have "list_all (\<lambda>i. (bit (0x5555555555555555 :: u64) i = even (i div 1)) \<and> (bit (0x3333333333333333 :: u64) i = even (i div 2)) \<and>
     (bit (0x0F0F0F0F0F0F0F0F :: u64) i = even (i div 4)) \<and> (bit (0x00FF00FF00FF00FF :: u64) i = even (i div 8)) \<and>
     (bit (0xFFFF0000 :: u64) i = (16 \<le> i \<and> i < 32))) [0..<64]" by code_simp
  then show "i < 64 \<Longrightarrow> bit (0x5555555555555555 :: u64) i \<longleftrightarrow> even (i div 1)" "i < 64 \<Longrightarrow> bit (0x3333333333333333 :: u64) i \<longleftrightarrow> even (i div 2)"
    "i < 64 \<Longrightarrow> bit (0x0F0F0F0F0F0F0F0F :: u64) i \<longleftrightarrow> even (i div 4)" "i < 64 \<Longrightarrow> bit (0x00FF00FF00FF00FF :: u64) i \<longleftrightarrow> even (i div 8)"
    "i < 64 \<Longrightarrow> bit (0xFFFF0000 :: u64) i \<longleftrightarrow> 16 \<le> i \<and> i < 32"
    by (simp_all only: list_all_iff set_upt atLeastLessThan_iff) auto
qed

lemma ReverseBits32_positions:
  "n < 32 \<Longrightarrow> swap_pos 1 n < 32 \<and> swap_pos 2 n < 32 \<and> swap_pos 4 n < 32 \<and> swap_pos 8 n < 32 \<and> swap_pos 16 n < 32 \<and>
    swap_pos 1 (swap_pos 2 (swap_pos 4 (swap_pos 8 (swap_pos 16 n)))) = 31 - n"
proof -
  have "list_all (\<lambda>n. swap_pos 1 n < 32 \<and> swap_pos 2 n < 32 \<and> swap_pos 4 n < 32 \<and> swap_pos 8 n < 32 \<and> swap_pos 16 n < 32 \<and>
    swap_pos 1 (swap_pos 2 (swap_pos 4 (swap_pos 8 (swap_pos 16 n)))) = 31 - n) [0..<32]" by code_simp
  then show "n < 32 \<Longrightarrow> ?thesis" by (simp only: list_all_iff set_upt atLeastLessThan_iff) auto
qed

lemma bit_ReverseBits32:
  assumes "n < 32"
  shows "bit (ReverseBits32 x) n \<longleftrightarrow> bit x (31 - n)"
proof -
  define a where "a = (drop_bit 1 x AND 0x55555555) OR push_bit 1 (x AND 0x55555555)"
  define b where "b = (drop_bit 2 a AND 0x33333333) OR push_bit 2 (a AND 0x33333333)"
  define c where "c = (drop_bit 4 b AND 0x0F0F0F0F) OR push_bit 4 (b AND 0x0F0F0F0F)"
  define d where "d = (drop_bit 8 c AND 0x00FF00FF) OR push_bit 8 (c AND 0x00FF00FF)"
  note p = ReverseBits32_positions
  have a: "bit a i = bit x (swap_pos 1 i)" if "i < 32" for i
    unfolding a_def by (rule bit_swap_step) (use that p [of i] masks_u32(1) in auto)
  have b: "bit b i = bit a (swap_pos 2 i)" if "i < 32" for i
    unfolding b_def by (rule bit_swap_step) (use that p [of i] masks_u32(2) in auto)
  have c: "bit c i = bit b (swap_pos 4 i)" if "i < 32" for i
    unfolding c_def by (rule bit_swap_step) (use that p [of i] masks_u32(3) in auto)
  have d: "bit d i = bit c (swap_pos 8 i)" if "i < 32" for i
    unfolding d_def by (rule bit_swap_step) (use that p [of i] masks_u32(4) in auto)
  have "ReverseBits32 x = drop_bit 16 d OR push_bit 16 d"
    by (simp add: ReverseBits32_def Let_def a_def b_def c_def d_def)
  also have "bit \<dots> n = bit d (swap_pos 16 n)"
  proof (cases "n < 16")
    case True then show ?thesis by (simp add: bit_simps swap_pos_def add.commute)
  next
    case False
    then have "n div 16 = 1" using assms by (intro div_nat_eqI) auto
    then show ?thesis using False assms by (auto simp: bit_simps swap_pos_def dest: bit_imp_le_length)
  qed
  finally show ?thesis using a b c d p assms by simp
qed

definition swap_quarters :: "nat \<Rightarrow> nat" where
  "swap_quarters n = (if n \<ge> 48 then n - 48 else if n \<ge> 32 then n - 16 else if n \<ge> 16 then n + 16 else n + 48)"

lemma ReverseBits64_positions:
  "n < 64 \<Longrightarrow> swap_pos 1 n < 64 \<and> swap_pos 2 n < 64 \<and> swap_pos 4 n < 64 \<and> swap_pos 8 n < 64 \<and> swap_quarters n < 64 \<and>
    swap_pos 1 (swap_pos 2 (swap_pos 4 (swap_pos 8 (swap_quarters n)))) = 63 - n"
proof -
  have "list_all (\<lambda>n. swap_pos 1 n < 64 \<and> swap_pos 2 n < 64 \<and> swap_pos 4 n < 64 \<and> swap_pos 8 n < 64 \<and> swap_quarters n < 64 \<and>
    swap_pos 1 (swap_pos 2 (swap_pos 4 (swap_pos 8 (swap_quarters n)))) = 63 - n) [0..<64]" by code_simp
  then show "n < 64 \<Longrightarrow> ?thesis" by (simp only: list_all_iff set_upt atLeastLessThan_iff) auto
qed

lemma bit_ReverseBits64:
  assumes "n < 64"
  shows "bit (ReverseBits64 x) n \<longleftrightarrow> bit x (63 - n)"
proof -
  define a where "a = push_bit 1 (x AND 0x5555555555555555) OR (drop_bit 1 x AND 0x5555555555555555)"
  define b where "b = push_bit 2 (a AND 0x3333333333333333) OR (drop_bit 2 a AND 0x3333333333333333)"
  define c where "c = push_bit 4 (b AND 0x0f0f0f0f0f0f0f0f) OR (drop_bit 4 b AND 0x0f0f0f0f0f0f0f0f)"
  define d where "d = push_bit 8 (c AND 0x00ff00ff00ff00ff) OR (drop_bit 8 c AND 0x00ff00ff00ff00ff)"
  note p = ReverseBits64_positions
  have a: "bit a i = bit x (swap_pos 1 i)" if "i < 64" for i
    unfolding a_def by (rule bit_swap_step) (use that p [of i] masks_u64(1) in auto)
  have b: "bit b i = bit a (swap_pos 2 i)" if "i < 64" for i
    unfolding b_def by (rule bit_swap_step) (use that p [of i] masks_u64(2) in auto)
  have c: "bit c i = bit b (swap_pos 4 i)" if "i < 64" for i
    unfolding c_def by (rule bit_swap_step) (use that p [of i] masks_u64(3) in auto)
  have d: "bit d i = bit c (swap_pos 8 i)" if "i < 64" for i
    unfolding d_def by (rule bit_swap_step) (use that p [of i] masks_u64(4) in auto)
  have "ReverseBits64 x = push_bit 48 d OR push_bit 16 (d AND 0xffff0000) OR (drop_bit 16 d AND 0xffff0000) OR drop_bit 48 d"
    by (simp add: ReverseBits64_def Let_def a_def b_def c_def d_def)
  also have "bit \<dots> n = bit d (swap_quarters n)"
    using assms masks_u64(5) [of n] masks_u64(5) [of "n - 16"]
    by (auto simp: bit_or_iff bit_and_iff bit_push_bit_iff bit_drop_bit_eq swap_quarters_def add.commute
        simp del: bit_numeral_word_iff push_bit_and dest: bit_imp_le_length)
  finally show ?thesis using a b c d p assms by simp
qed

subsection \<open>Properties\<close>

text \<open>
  C24: for a power of two \<open>n\<close>, \<^verbatim>\<open>RoundDown\<close> yields the greatest multiple of \<open>n\<close> that is not above the
  argument and \<^verbatim>\<open>RoundUp\<close>, unless the sum overflows, the least one that is not below it;
  \<^verbatim>\<open>IsAligned\<close> recognises the multiples.
\<close>

theorem Rounding_correct:
  fixes x :: "'a :: len word"
  assumes "k < LENGTH('a)" "unat x + (2 ^ k - 1) < 2 ^ LENGTH('a)"
  shows "2 ^ k dvd unat (RoundDown x (2 ^ k)) \<and> unat (RoundDown x (2 ^ k)) \<le> unat x \<and>
      unat x < unat (RoundDown x (2 ^ k)) + 2 ^ k \<and>
    2 ^ k dvd unat (RoundUp x (2 ^ k)) \<and> unat x \<le> unat (RoundUp x (2 ^ k)) \<and>
      unat (RoundUp x (2 ^ k)) < unat x + 2 ^ k \<and>
    (IsAligned (2 ^ k) x \<longleftrightarrow> 2 ^ k dvd unat x)"
proof -
  define n :: nat where "n = 2 ^ k"
  have n: "0 < n" by (simp add: n_def)
  have d: "unat (RoundDown x (2 ^ k)) = unat x div n * n" by (simp add: unat_RoundDown n_def)
  have u: "unat (RoundUp x (2 ^ k)) = (unat x + (n - 1)) div n * n"
    unfolding n_def by (rule unat_RoundUp [OF assms(2,1)])
  note m = div_mult_mod_eq [of "unat x" n] mod_less_divisor [OF n, of "unat x"]
  note m' = div_mult_mod_eq [of "unat x + (n - 1)" n] mod_less_divisor [OF n, of "unat x + (n - 1)"]
  have "x AND (2 ^ k - 1) = take_bit k x" by (simp add: take_bit_eq_mask mask_eq_exp_minus_1)
  then have "IsAligned (2 ^ k) x \<longleftrightarrow> take_bit k (unat x) = 0"
    by (metis IsAligned_def unsigned_take_bit_eq unat_eq_zero)
  then have a: "IsAligned (2 ^ k) x \<longleftrightarrow> n dvd unat x" by (simp add: take_bit_eq_mod dvd_eq_mod_eq_0 n_def)
  show ?thesis unfolding d u a n_def [symmetric]
    using m m' n by (intro conjI refl dvd_triv_right) linarith+
qed

theorem Rounding_correct_witness:
  "3 < LENGTH(64) \<and> unat (13 :: u64) + (2 ^ 3 - 1) < 2 ^ LENGTH(64) \<and>
   2 ^ 3 dvd unat (RoundUp (13 :: u64) (2 ^ 3)) \<and> unat (13 :: u64) \<le> unat (RoundUp (13 :: u64) (2 ^ 3)) \<and>
   unat (RoundUp (13 :: u64) (2 ^ 3)) < unat (13 :: u64) + 2 ^ 3"
  using Rounding_correct [of 3 "13 :: u64"] by simp

text \<open>
  C25: \<^verbatim>\<open>IsPowerOfTwo\<close> recognises zero and the powers of two and \<^verbatim>\<open>WhichPowerOf2\<close> names the exponent;
  \<^verbatim>\<open>TruncToPowerOfTwo\<close> and \<^verbatim>\<open>HighestOneBitValue\<close> are the greatest power of two that is not above a non-zero
  argument, \<^verbatim>\<open>LowestOneBitValue\<close> is its lowest bit, and \<^verbatim>\<open>MinimumBitsToStore\<close> the least width that holds it.
  On types of at least 32 bits \<^verbatim>\<open>RoundUpToPowerOfTwo\<close> is the least power of two not below the argument when
  one is representable and undefined otherwise; on 8 and 16 bits it is undefined for every argument
  from 2 up to the largest power of two.
\<close>

theorem Powers_of_two_correct:
  fixes x :: "'a :: len word"
  assumes "x \<noteq> 0"
  shows "(IsPowerOfTwo x \<longleftrightarrow> (\<exists>k < LENGTH('a). unat x = 2 ^ k)) \<and>
    (k < LENGTH('a) \<longrightarrow> WhichPowerOf2 (2 ^ k :: 'a word) = k) \<and>
    (\<exists>k. unat (TruncToPowerOfTwo x) = 2 ^ k \<and> 2 ^ k \<le> unat x \<and> unat x < 2 ^ Suc k) \<and>
    (\<exists>k. unat (HighestOneBitValue x) = 2 ^ k \<and> 2 ^ k \<le> unat x \<and> unat x < 2 ^ Suc k) \<and>
    (\<exists>k. unat (LowestOneBitValue x) = 2 ^ k \<and> bit x k \<and> (\<forall>i < k. \<not> bit x i)) \<and>
    (HighestOneBitValue (0 :: 'a word) = 0 \<and> LowestOneBitValue (0 :: 'a word) = 0) \<and>
    (32 \<le> LENGTH('a) \<longrightarrow> (if unat x \<le> 2 ^ (LENGTH('a) - 1)
      then \<exists>r k. RoundUpToPowerOfTwo x = Some r \<and> unat r = 2 ^ k \<and> unat x \<le> 2 ^ k \<and> 2 ^ k < 2 * unat x
      else RoundUpToPowerOfTwo x = None)) \<and>
    (LENGTH('a) \<le> 16 \<longrightarrow> 2 \<le> unat x \<longrightarrow> unat x \<le> 2 ^ (LENGTH('a) - 1) \<longrightarrow> RoundUpToPowerOfTwo x = None) \<and>
    (unat x < 2 ^ m \<longleftrightarrow> MinimumBitsToStore x \<le> m)"
proof -
  note c = CTZ_spec [OF assms] and t = TruncToPowerOfTwo_spec [OF assms]
  have "\<exists>k. unat (LowestOneBitValue x) = 2 ^ k \<and> bit x k \<and> (\<forall>i < k. \<not> bit x i)"
    unfolding LowestOneBitValue_CTZ [OF assms] unat_push_bit_1 [OF c(1)] using c(2,3) by blast
  moreover have "IsPowerOfTwo x \<longleftrightarrow> (\<exists>k < LENGTH('a). unat x = 2 ^ k)" using IsPowerOfTwo_iff [of x] assms by simp
  moreover have "HighestOneBitValue (0 :: 'a word) = 0" "LowestOneBitValue (0 :: 'a word) = 0"
    by (simp_all add: HighestOneBitValue_def LowestOneBitValue_def)
  ultimately show ?thesis
    unfolding HighestOneBitValue_Trunc
    using t WhichPowerOf2_exp RoundUpToPowerOfTwo_spec [OF assms] RoundUpToPowerOfTwo_narrow [of x] MinimumBitsToStore_spec [of x m]
    by (intro conjI impI) assumption+
qed

theorem Powers_of_two_correct_witness:
  "(\<exists>r k. RoundUpToPowerOfTwo (6 :: u32) = Some r \<and> unat r = 2 ^ k \<and> 6 \<le> (2 :: nat) ^ k \<and> 2 ^ k < (12 :: nat)) \<and>
    RoundUpToPowerOfTwo (6 :: u8) = None"
  using Powers_of_two_correct [of "6 :: u32" 0 0] Powers_of_two_correct [of "6 :: u8" 0 0] by simp

text \<open>
  C26: inserting a bit field changes exactly the bits of the field, extracting it yields the inserted
  value, zero-extended or, for signed values, sign-extended, and clearing it zeroes exactly the field.
\<close>

theorem BitField_correct:
  fixes v d :: u32
  assumes "lsb + width \<le> 32"
  shows "BitFieldExtract (BitFieldInsert v d lsb width) lsb width = take_bit width d \<and>
    (width \<noteq> 0 \<longrightarrow> BitFieldExtract_signed (BitFieldInsert v d lsb width) lsb width = signed_take_bit (width - 1) d) \<and>
    (\<forall>n < 32. \<not> (lsb \<le> n \<and> n < lsb + width) \<longrightarrow> bit (BitFieldInsert v d lsb width) n = bit v n) \<and>
    BitFieldClear v lsb width = BitFieldInsert v 0 lsb width"
proof (intro conjI impI allI)
  show "BitFieldExtract (BitFieldInsert v d lsb width) lsb width = take_bit width d"
    using assms by (intro bit_word_eqI) (auto simp: bit_BitFieldExtract bit_BitFieldInsert bit_take_bit_iff)
  show "BitFieldExtract_signed (BitFieldInsert v d lsb width) lsb width = signed_take_bit (width - 1) d"
    if "width \<noteq> 0"
    using assms that
    by (intro bit_word_eqI) (auto simp: bit_BitFieldExtract_signed bit_BitFieldInsert bit_signed_take_bit_iff min_def)
  show "BitFieldClear v lsb width = BitFieldInsert v 0 lsb width"
    by (intro bit_word_eqI) (auto simp: bit_BitFieldClear bit_BitFieldInsert)
qed (auto simp: bit_BitFieldInsert)

theorem BitField_correct_witness:
  "4 + 3 \<le> (32 :: nat) \<and> BitFieldExtract (BitFieldInsert 0xFFFFFFFF (5 :: u32) 4 3) 4 3 = take_bit 3 5 \<and>
   BitFieldExtract_signed (BitFieldInsert 0xFFFFFFFF (5 :: u32) 4 3) 4 3 = signed_take_bit 2 5"
  using BitField_correct [of 4 3 "0xFFFFFFFF" 5] by simp

text \<open>
  C27: the shift-and-mask bit reversals reverse the bits and undo themselves.  For every distance,
  rotating left moves bit \<open>n - d\<close> to bit \<open>n\<close> and rotating right moves bit \<open>n + d\<close> there, indices taken
  modulo the width; rotations add up, and rotating back in the other direction restores the operand.
\<close>

theorem Reversal_and_rotation_correct:
  fixes x :: u32 and y :: u64
  assumes "n < 32" "k < 64"
  shows "(bit (ReverseBits32 x) n \<longleftrightarrow> bit x (31 - n)) \<and> ReverseBits32 (ReverseBits32 x) = x \<and>
    (bit (ReverseBits64 y) k \<longleftrightarrow> bit y (63 - k)) \<and> ReverseBits64 (ReverseBits64 y) = y \<and>
    (bit (Rot True x d) n \<longleftrightarrow> bit x (nat ((int n - d) mod 32))) \<and>
    (bit (Rot False x d) n \<longleftrightarrow> bit x (nat ((int n + d) mod 32))) \<and>
    (bit (Rot True y d) k \<longleftrightarrow> bit y (nat ((int k - d) mod 64))) \<and>
    (bit (Rot False y d) k \<longleftrightarrow> bit y (nat ((int k + d) mod 64))) \<and>
    Rot True (Rot True x d) e = Rot True x (d + e) \<and> Rot True (Rot True y d) e = Rot True y (d + e) \<and>
    Rot (\<not> left) (Rot left x d) d = x \<and> Rot (\<not> left) (Rot left y d) d = y"
proof -
  have w: "LENGTH(32) = 2 ^ 5" "LENGTH(64) = 2 ^ 6" by simp_all
  have "ReverseBits32 (ReverseBits32 x) = x" by (rule bit_word_eqI) (simp add: bit_ReverseBits32)
  moreover have "ReverseBits64 (ReverseBits64 y) = y" by (rule bit_word_eqI) (simp add: bit_ReverseBits64)
  ultimately show ?thesis
    using bit_ReverseBits32 [OF assms(1)] bit_ReverseBits64 [OF assms(2)] assms
      bit_Rot [OF _ w(1), of n x d] bit_Rot_False [OF _ w(1), of n x d] bit_Rot [OF _ w(2), of k y d] bit_Rot_False [OF _ w(2), of k y d]
      Rot_Rot [OF w(1)] Rot_Rot [OF w(2)] Rot_undo [OF w(1)] Rot_undo [OF w(2)] by simp
qed

theorem Reversal_and_rotation_correct_witness:
  "3 < (32 :: nat) \<and> (bit (ReverseBits32 6) 30 \<longleftrightarrow> bit (6 :: u32) 1) \<and> Rot False (Rot True (6 :: u32) (- 70)) (- 70) = 6"
  using Reversal_and_rotation_correct [of 30 0 6 0 "- 70" 0 True] by simp

end
