(* ===== verification/Leb128.thy ===== *)
theory Leb128
  imports Bit_Utils
begin

text \<open>
  The LEB128 codec of \<^verbatim>\<open>src/libartbase/base/leb128.h\<close>: the unsigned and signed decoders,
  unchecked and checked against an end pointer, the encoders into a vector and into a buffer, the
  size functions, the in-place update and the backward search. A signed 32-bit value is kept as its
  two's complement word; a shift to the right of such a value is \<^term>\<open>signed_drop_bit\<close>.
\<close>

section \<open>Decoders\<close>

definition DecodeUnsignedLeb128 :: "u8 list \<Rightarrow> (u32 \<times> u8 list) option" where
  "DecodeUnsignedLeb128 data = do {
     (b, ptr) \<leftarrow> rd data;
     let result = (ucast b :: u32);
     if result > 0x7F then do {
       (b, ptr) \<leftarrow> rd ptr;
       let cur = (ucast b :: u32);
       let result = (result AND 0x7F) OR push_bit 7 (cur AND 0x7F);
       if cur > 0x7F then do {
         (b, ptr) \<leftarrow> rd ptr;
         let cur = (ucast b :: u32);
         let result = result OR push_bit 14 (cur AND 0x7F);
         if cur > 0x7F then do {
           (b, ptr) \<leftarrow> rd ptr;
           let cur = (ucast b :: u32);
           let result = result OR push_bit 21 (cur AND 0x7F);
           if cur > 0x7F then do {
             (b, ptr) \<leftarrow> rd ptr;
             let cur = (ucast b :: u32);
             let result = result OR push_bit 28 cur;
             Some (result, ptr)
           } else Some (result, ptr)
         } else Some (result, ptr)
       } else Some (result, ptr)
     } else Some (result, ptr)
   }"

definition DecodeUnsignedLeb128WithoutMovingCursor :: "u8 list \<Rightarrow> u32 option" where
  "DecodeUnsignedLeb128WithoutMovingCursor data =
     do { (result, ptr) \<leftarrow> DecodeUnsignedLeb128 data; Some result }"

text \<open>
  The checked decoders take the number \<open>n\<close> of bytes between \<^verbatim>\<open>*data\<close> and \<^verbatim>\<open>end\<close>; after
  \<open>k\<close> bytes, \<^verbatim>\<open>ptr >= end\<close> is \<open>n \<le> k\<close>. They return the boolean and the values of
  \<^verbatim>\<open>*data\<close> and \<^verbatim>\<open>*out\<close> after the call.
\<close>

definition DecodeUnsignedLeb128Checked ::
  "u8 list \<Rightarrow> nat \<Rightarrow> u32 \<Rightarrow> (bool \<times> u8 list \<times> u32) option" where
  "DecodeUnsignedLeb128Checked data n out =
     (if n \<le> 0 then Some (False, data, out) else do {
     (b, ptr) \<leftarrow> rd data;
     let result = (ucast b :: u32);
     if result > 0x7F then (if n \<le> 1 then Some (False, data, out) else do {
       (b, ptr) \<leftarrow> rd ptr;
       let cur = (ucast b :: u32);
       let result = (result AND 0x7F) OR push_bit 7 (cur AND 0x7F);
       if cur > 0x7F then (if n \<le> 2 then Some (False, data, out) else do {
         (b, ptr) \<leftarrow> rd ptr;
         let cur = (ucast b :: u32);
         let result = result OR push_bit 14 (cur AND 0x7F);
         if cur > 0x7F then (if n \<le> 3 then Some (False, data, out) else do {
           (b, ptr) \<leftarrow> rd ptr;
           let cur = (ucast b :: u32);
           let result = result OR push_bit 21 (cur AND 0x7F);
           if cur > 0x7F then (if n \<le> 4 then Some (False, data, out) else do {
             (b, ptr) \<leftarrow> rd ptr;
             let cur = (ucast b :: u32);
             let result = result OR push_bit 28 cur;
             Some (True, ptr, result)
           }) else Some (True, ptr, result)
         }) else Some (True, ptr, result)
       }) else Some (True, ptr, result)
     }) else Some (True, ptr, result)
   })"

definition DecodeUnsignedLeb128P1 :: "u8 list \<Rightarrow> (u32 \<times> u8 list) option" where
  "DecodeUnsignedLeb128P1 data =
     do { (result, ptr) \<leftarrow> DecodeUnsignedLeb128 data; Some (result - 1, ptr) }"

definition DecodeSignedLeb128 :: "u8 list \<Rightarrow> (u32 \<times> u8 list) option" where
  "DecodeSignedLeb128 data = do {
     (b, ptr) \<leftarrow> rd data;
     let result = (ucast b :: u32);
     if result \<le> 0x7F then Some (signed_drop_bit 25 (push_bit 25 result), ptr)
     else do {
       (b, ptr) \<leftarrow> rd ptr;
       let cur = (ucast b :: u32);
       let result = (result AND 0x7F) OR push_bit 7 (cur AND 0x7F);
       if cur \<le> 0x7F then Some (signed_drop_bit 18 (push_bit 18 result), ptr)
       else do {
         (b, ptr) \<leftarrow> rd ptr;
         let cur = (ucast b :: u32);
         let result = result OR push_bit 14 (cur AND 0x7F);
         if cur \<le> 0x7F then Some (signed_drop_bit 11 (push_bit 11 result), ptr)
         else do {
           (b, ptr) \<leftarrow> rd ptr;
           let cur = (ucast b :: u32);
           let result = result OR push_bit 21 (cur AND 0x7F);
           if cur \<le> 0x7F then Some (signed_drop_bit 4 (push_bit 4 result), ptr)
           else do {
             (b, ptr) \<leftarrow> rd ptr;
             let cur = (ucast b :: u32);
             let result = result OR push_bit 28 cur;
             Some (result, ptr)
           }
         }
       }
     }
   }"

definition DecodeSignedLeb128Checked ::
  "u8 list \<Rightarrow> nat \<Rightarrow> u32 \<Rightarrow> (bool \<times> u8 list \<times> u32) option" where
  "DecodeSignedLeb128Checked data n out =
     (if n \<le> 0 then Some (False, data, out) else do {
     (b, ptr) \<leftarrow> rd data;
     let result = (ucast b :: u32);
     if result \<le> 0x7F then Some (True, ptr, signed_drop_bit 25 (push_bit 25 result))
     else (if n \<le> 1 then Some (False, data, out) else do {
       (b, ptr) \<leftarrow> rd ptr;
       let cur = (ucast b :: u32);
       let result = (result AND 0x7F) OR push_bit 7 (cur AND 0x7F);
       if cur \<le> 0x7F then Some (True, ptr, signed_drop_bit 18 (push_bit 18 result))
       else (if n \<le> 2 then Some (False, data, out) else do {
         (b, ptr) \<leftarrow> rd ptr;
         let cur = (ucast b :: u32);
         let result = result OR push_bit 14 (cur AND 0x7F);
         if cur \<le> 0x7F then Some (True, ptr, signed_drop_bit 11 (push_bit 11 result))
         else (if n \<le> 3 then Some (False, data, out) else do {
           (b, ptr) \<leftarrow> rd ptr;
           let cur = (ucast b :: u32);
           let result = result OR push_bit 21 (cur AND 0x7F);
           if cur \<le> 0x7F then Some (True, ptr, signed_drop_bit 4 (push_bit 4 result))
           else (if n \<le> 4 then Some (False, data, out) else do {
             (b, ptr) \<leftarrow> rd ptr;
             let cur = (ucast b :: u32);
             let result = result OR push_bit 28 cur;
             Some (True, ptr, result)
           })
         })
       })
     })
   })"

section \<open>Sizes\<close>

definition UnsignedLeb128Size :: "u32 \<Rightarrow> u32" where
  "UnsignedLeb128Size data = (let x = 6 + 32 - of_nat (CLZ (data OR 1)) in drop_bit 8 (x * 37))"

definition SignedLeb128Size :: "u32 \<Rightarrow> u32" where
  "SignedLeb128Size data =
     (let data = data XOR signed_drop_bit 31 data;
          x = 1 + 6 + 32 - of_nat (CLZ (data OR 1))
      in drop_bit 8 (x * 37))"

definition IsLeb128Terminator :: "u8 \<Rightarrow> bool" where
  "IsLeb128Terminator b \<longleftrightarrow> b \<le> 0x7F"

section \<open>Encoders\<close>

text \<open>The bytes that the loop of \<^verbatim>\<open>EncodeUnsignedLeb128\<close> emits from a pending \<open>out\<close>.\<close>

function EncodeUnsigned_loop :: "u8 \<Rightarrow> u32 \<Rightarrow> u8 list" where
  "EncodeUnsigned_loop out value =
     (if value \<noteq> 0
      then (out OR 0x80) # EncodeUnsigned_loop (ucast (value AND 0x7F)) (drop_bit 7 value)
      else [out])"
  by pat_completeness auto
termination
  by (relation "measure (\<lambda>(out, value). unat value)") (simp_all add: drop_bit_less_self)

declare EncodeUnsigned_loop.simps [simp del]

definition EncodeUnsignedLeb128_bytes :: "u32 \<Rightarrow> u8 list" where
  "EncodeUnsignedLeb128_bytes value = EncodeUnsigned_loop (ucast (value AND 0x7F)) (drop_bit 7 value)"

text \<open>The overload that pushes to a vector.\<close>

definition EncodeUnsignedLeb128_vec :: "u8 list \<Rightarrow> u32 \<Rightarrow> u8 list" where
  "EncodeUnsignedLeb128_vec dest value = dest @ EncodeUnsignedLeb128_bytes value"

text \<open>The overload that writes through a pointer: each \<^verbatim>\<open>*dest++ = b\<close> is one store.\<close>

fun wr_all :: "'a list \<Rightarrow> nat \<Rightarrow> 'a list \<Rightarrow> ('a list \<times> nat) option" where
  "wr_all mem dest [] = Some (mem, dest)"
| "wr_all mem dest (b # bs) = do { mem \<leftarrow> wr mem dest b; wr_all mem (dest + 1) bs }"

definition EncodeUnsignedLeb128 :: "u8 list \<Rightarrow> nat \<Rightarrow> u32 \<Rightarrow> (u8 list \<times> nat) option" where
  "EncodeUnsignedLeb128 mem dest value = wr_all mem dest (EncodeUnsignedLeb128_bytes value)"

function EncodeSigned_loop :: "u8 \<Rightarrow> u32 \<Rightarrow> u32 \<Rightarrow> u8 list" where
  "EncodeSigned_loop out value extra_bits =
     (if extra_bits \<noteq> 0
      then (let value' = signed_drop_bit 7 value
            in (out OR 0x80) # EncodeSigned_loop (ucast (value' AND 0x7F)) value' (drop_bit 7 extra_bits))
      else [out])"
  by pat_completeness auto
termination
  by (relation "measure (\<lambda>(out, value, extra_bits). unat extra_bits)")
     (simp_all add: drop_bit_less_self)

declare EncodeSigned_loop.simps [simp del]

definition EncodeSignedLeb128_bytes :: "u32 \<Rightarrow> u8 list" where
  "EncodeSignedLeb128_bytes value =
     EncodeSigned_loop (ucast (value AND 0x7F)) value (drop_bit 6 (value XOR signed_drop_bit 31 value))"

definition EncodeSignedLeb128_vec :: "u8 list \<Rightarrow> u32 \<Rightarrow> u8 list" where
  "EncodeSignedLeb128_vec dest value = dest @ EncodeSignedLeb128_bytes value"

definition EncodeSignedLeb128 :: "u8 list \<Rightarrow> nat \<Rightarrow> u32 \<Rightarrow> (u8 list \<times> nat) option" where
  "EncodeSignedLeb128 mem dest value = wr_all mem dest (EncodeSignedLeb128_bytes value)"

text \<open>
  \<^verbatim>\<open>UpdateUnsignedLeb128\<close>: the loop sets the continuation bit of the byte before \<open>end\<close> and
  stores a zero at \<open>end\<close> until the old encoding is filled.
\<close>

function Update_loop :: "u8 list \<Rightarrow> nat \<Rightarrow> nat \<Rightarrow> u8 list option" where
  "Update_loop mem endp old_end =
     (if endp < old_end then do {
        (b, _) \<leftarrow> rd (drop (endp - 1) mem);
        mem \<leftarrow> wr mem (endp - 1) (b OR 0x80);
        mem \<leftarrow> wr mem endp 0;
        Update_loop mem (endp + 1) old_end
      } else Some mem)"
  by pat_completeness auto
termination
  by (relation "measure (\<lambda>(mem, endp, old_end). old_end - endp)") auto

declare Update_loop.simps [simp del]

definition UpdateUnsignedLeb128 :: "u8 list \<Rightarrow> nat \<Rightarrow> u32 \<Rightarrow> u8 list option" where
  "UpdateUnsignedLeb128 mem dest value = do {
     (old_value, old_rest) \<leftarrow> DecodeUnsignedLeb128 (drop dest mem);
     let old_end = length mem - length old_rest;
     (mem, endp) \<leftarrow> EncodeUnsignedLeb128 mem dest value;
     Update_loop mem endp old_end
   }"

text \<open>
  \<^verbatim>\<open>ReverseSearchUnsignedLeb128\<close> on a buffer; the loop reads the byte before \<open>ptr\<close>, and reading
  before the start of the buffer is \<^term>\<open>None\<close>.
\<close>

fun ReverseSearch_loop :: "u8 list \<Rightarrow> nat \<Rightarrow> nat option" where
  "ReverseSearch_loop mem 0 = None"
| "ReverseSearch_loop mem (Suc p) =
     (if \<not> p < length mem then None
      else if \<not> IsLeb128Terminator (mem ! p) then ReverseSearch_loop mem p
      else Some (Suc p))"

definition ReverseSearchUnsignedLeb128 :: "u8 list \<Rightarrow> nat \<Rightarrow> nat option" where
  "ReverseSearchUnsignedLeb128 mem end_ptr =
     (case end_ptr of 0 \<Rightarrow> None | Suc ptr \<Rightarrow> ReverseSearch_loop mem ptr)"

section \<open>The encoder object\<close>

text \<open>\<^verbatim>\<open>Leb128Encoder\<close> owns a pointer to the vector it appends to.\<close>

record Leb128Encoder =
  enc_data :: "u8 list"

definition PushBackUnsigned :: "Leb128Encoder \<Rightarrow> u32 \<Rightarrow> Leb128Encoder" where
  "PushBackUnsigned e value = e\<lparr>enc_data := EncodeUnsignedLeb128_vec (enc_data e) value\<rparr>"

definition PushBackSigned :: "Leb128Encoder \<Rightarrow> u32 \<Rightarrow> Leb128Encoder" where
  "PushBackSigned e value = e\<lparr>enc_data := EncodeSignedLeb128_vec (enc_data e) value\<rparr>"

fun InsertBackUnsigned :: "Leb128Encoder \<Rightarrow> u32 list \<Rightarrow> Leb128Encoder" where
  "InsertBackUnsigned e [] = e"
| "InsertBackUnsigned e (cur # rest) = InsertBackUnsigned (PushBackUnsigned e cur) rest"

fun InsertBackSigned :: "Leb128Encoder \<Rightarrow> u32 list \<Rightarrow> Leb128Encoder" where
  "InsertBackSigned e [] = e"
| "InsertBackSigned e (cur # rest) = InsertBackSigned (PushBackSigned e cur) rest"

section \<open>Encoded values\<close>

text \<open>
  A well-formed encoding has the continuation bit in every byte but the last; its value is the
  disjunction of the seven-bit groups, and for the signed codec the sign extension of it.
\<close>

fun leb_wf :: "u8 list \<Rightarrow> bool" where
  "leb_wf [] = False"
| "leb_wf [b] = (\<not> bit b 7)"
| "leb_wf (b # bs) = (bit b 7 \<and> leb_wf bs)"

fun leb_or :: "u8 list \<Rightarrow> u32" where
  "leb_or [] = 0"
| "leb_or (b # bs) = take_bit 7 (ucast b) OR push_bit 7 (leb_or bs)"

lemma ucast_le_7f: "((ucast (b :: u8) :: u32) \<le> 0x7F) \<longleftrightarrow> \<not> bit b 7"
  by (simp add: word_le_nat_alt unat_ucast_up flip: le_7f_iff)

lemma ucast_gt_7f: "(0x7F < (ucast (b :: u8) :: u32)) \<longleftrightarrow> bit b 7"
  using ucast_le_7f [of b] by (simp add: not_less [symmetric])

lemma take_bit_ucast_low: "\<not> bit b 7 \<Longrightarrow> take_bit 7 (ucast (b :: u8) :: u32) = ucast b"
proof (rule bit_word_eqI)
  fix n assume *: "\<not> bit b 7"
  have "bit b n \<Longrightarrow> n < 7" using * bit_imp_le_length [of b n] by (cases "n = 7") auto
  then show "bit (take_bit 7 (ucast b :: u32)) n = bit (ucast b :: u32) n" by (auto simp: bit_simps)
qed

lemma push_28_low: "push_bit 28 (take_bit 7 (ucast (b :: u8)) :: u32) = push_bit 28 (ucast b)"
  by (rule bit_word_eqI) (auto simp: bit_simps)

lemma Decode_leb:
  assumes "leb_wf bs" and "length bs \<le> 5"
  shows "DecodeUnsignedLeb128 (bs @ rest) = Some (leb_or bs, rest)"
  using assms
  by (cases bs rule: list5_cases)
     (simp_all add: DecodeUnsignedLeb128_def ucast_gt_7f mask_take_bit take_bit_ucast_low push_bit_or
        push_28_low or.assoc)

lemma leb_wf_Cons: "bs \<noteq> [] \<Longrightarrow> leb_wf (b # bs) \<longleftrightarrow> bit b 7 \<and> leb_wf bs"
  by (cases bs) auto

lemma loop_nonempty [simp]: "EncodeUnsigned_loop out v \<noteq> []"
  by (subst EncodeUnsigned_loop.simps) simp

lemma loop_wf: "\<not> bit out 7 \<Longrightarrow> leb_wf (EncodeUnsigned_loop out v)"
proof (induction out v rule: EncodeUnsigned_loop.induct)
  case (1 out v)
  have "\<not> bit (ucast (v AND 0x7F) :: u8) 7" by (simp add: mask_take_bit bit_simps)
  moreover have "bit (out OR 0x80) 7" by (simp add: bit_simps)
  ultimately show ?case using 1
    by (subst EncodeUnsigned_loop.simps) (auto simp: leb_wf_Cons)
qed

lemma split7: "take_bit 7 (ucast (ucast (v AND 0x7F) :: u8)) OR push_bit 7 (drop_bit 7 v) = (v :: u32)"
proof (rule bit_word_eqI)
  fix n
  show "bit (take_bit 7 (ucast (ucast (v AND 0x7F) :: u8)) OR push_bit 7 (drop_bit 7 v)) n = bit v n"
    by (cases "7 \<le> n") (auto simp: mask_take_bit bit_simps dest: bit_imp_le_length)
qed

lemma loop_or: "leb_or (EncodeUnsigned_loop out v) = take_bit 7 (ucast out) OR push_bit 7 v"
proof (induction out v rule: EncodeUnsigned_loop.induct)
  case (1 out v)
  have a: "take_bit 7 (ucast (out OR 0x80) :: u32) = take_bit 7 (ucast out)"
    by (rule bit_word_eqI) (auto simp: bit_simps bit_80 simp del: bit_numeral_word_iff)
  have b: "take_bit 7 (ucast (ucast (v AND 0x7F) :: u8)) OR push_bit 7 (drop_bit 7 v) = v"
    by (rule split7)
  show ?case using 1 by (subst EncodeUnsigned_loop.simps) (auto simp: a b)
qed

lemma loop_length: "length (EncodeUnsigned_loop out v) \<le> Suc k \<longleftrightarrow> unat v < 2 ^ (7 * k)"
proof (induction out v arbitrary: k rule: EncodeUnsigned_loop.induct)
  case (1 out v)
  show ?case
  proof (cases "v = 0")
    case True then show ?thesis by (subst EncodeUnsigned_loop.simps) simp
  next
    case False
    then have v: "0 < unat v" by (simp add: unat_gt_0)
    show ?thesis
    proof (cases k)
      case 0 with False v loop_nonempty show ?thesis
        by (subst EncodeUnsigned_loop.simps) simp
    next
      case (Suc j)
      have "length (EncodeUnsigned_loop out v) \<le> Suc k \<longleftrightarrow> unat (drop_bit 7 v) < 2 ^ (7 * j)"
        using False Suc by (subst EncodeUnsigned_loop.simps) (simp add: "1.IH")
      also have "\<dots> \<longleftrightarrow> unat v < 2 ^ (7 * k)"
        by (simp only: unat_drop_bit_div less_mult_imp_div_less Suc) (simp add: div_less_iff_less_mult power_add mult.commute)
      finally show ?thesis .
    qed
  qed
qed

lemma bytes_wf: "leb_wf (EncodeUnsignedLeb128_bytes v)"
  unfolding EncodeUnsignedLeb128_bytes_def by (rule loop_wf) (simp add: mask_take_bit bit_simps)

lemma bytes_or: "leb_or (EncodeUnsignedLeb128_bytes v) = v"
  unfolding EncodeUnsignedLeb128_bytes_def loop_or by (rule split7)

lemma bytes_length: "length (EncodeUnsignedLeb128_bytes v) \<le> k \<longleftrightarrow> 0 < k \<and> unat v < 2 ^ (7 * k)"
proof (cases k)
  case 0
  have "EncodeUnsignedLeb128_bytes v \<noteq> []" using bytes_wf [of v] by auto
  with 0 show ?thesis by simp
next
  case (Suc j)
  then show ?thesis unfolding EncodeUnsignedLeb128_bytes_def
    by (simp only: loop_length unat_drop_bit_div) (simp add: div_less_iff_less_mult power_add mult.commute)
qed

lemma bytes_length_5: "length (EncodeUnsignedLeb128_bytes v) \<le> 5"
  unfolding bytes_length using unat_u32 [of v] by simp

lemma Decode_EncodeUnsigned: "DecodeUnsignedLeb128 (EncodeUnsignedLeb128_bytes v @ rest) = Some (v, rest)"
  using Decode_leb [OF bytes_wf bytes_length_5] by (simp add: bytes_or)

lemma CLZ_bound:
  assumes "m \<le> 32"
  shows "unat (x :: u32) < 2 ^ m \<longleftrightarrow> 32 - m \<le> CLZ x"
proof -
  let ?c = "length (takeWhile (\<lambda>i. \<not> bit x i) (rev [0..<32]))"
  have "CLZ x = ?c" by (simp add: CLZ_def)
  moreover have "32 - m \<le> ?c \<longleftrightarrow> (\<forall>i<32 - m. \<not> bit x (31 - i))"
    by (subst takeWhile_length_ge) (auto simp: rev_nth)
  moreover have "\<dots> \<longleftrightarrow> (\<forall>i. m \<le> i \<longrightarrow> \<not> bit x i)"
  proof safe
    fix i assume *: "\<forall>i<32 - m. \<not> bit x (31 - i)" "m \<le> i" "bit x i"
    then have "i < 32" using bit_imp_le_length by force
    then have "31 - i < 32 - m" "31 - (31 - i) = i" using *(2) by auto
    with * show False by metis
  next
    fix i assume "\<forall>i\<ge>m. \<not> bit x i" "i < 32 - m" "bit x (31 - i)"
    moreover from this assms have "m \<le> 31 - i" by arith
    ultimately show False by blast
  qed
  ultimately show ?thesis by (simp add: unat_less_bits)
qed

lemma div7_nat: 
  assumes "n \<le> 40" shows "(n * 37) div 256 = n div (7 :: nat)"
proof (rule div_nat_eqI)
  define q r where "q = n div 7" "r = n mod 7"
  have n: "n = 7 * q + r" "r < 7" by (simp_all add: q_r_def)
  then have "q \<le> 5" using assms by arith
  with n show "256 * (n div 7) \<le> n * 37" "n * 37 < 256 * Suc (n div 7)" by (simp_all flip: q_r_def(1))
qed

lemma div7_shift:
  assumes "n \<le> 40"
  shows "drop_bit 8 (of_nat n * 37 :: u32) = of_nat (n div 7)"
proof -
  have "unat (drop_bit 8 (of_nat (n * 37) :: u32)) = (n * 37) div 256"
    using assms by (simp only: unat_drop_bit_div) (simp add: unat_of_nat_u32 del: of_nat_mult)
  also have "\<dots> = unat (of_nat (n div 7) :: u32)"
    using assms by (simp add: div7_nat unat_of_nat_u32)
  finally show ?thesis by (simp add: word_unat_eq_iff)
qed

lemma unat_or_1_less: "0 < m \<Longrightarrow> unat (v OR 1 :: u32) < 2 ^ m \<longleftrightarrow> unat v < 2 ^ m"
  unfolding unat_less_bits by (auto simp: bit_simps bit_1_iff)

definition bitlen32 :: "u32 \<Rightarrow> nat" where "bitlen32 v = 32 - CLZ (v OR 1)"

lemma CLZ_le: "CLZ (x :: u32) \<le> 32" and CLZ_or_1: "CLZ (v OR 1 :: u32) \<le> 31"
proof -
  show "CLZ x \<le> 32" for x :: u32
  proof -
    have "length (takeWhile (\<lambda>i. \<not> bit x i) (rev [0..<32])) \<le> 32"
      using length_takeWhile_le [of _ "rev [0..<32]"] by (metis diff_zero length_rev length_upt)
    then show ?thesis by (simp add: CLZ_def)
  qed
  have "bit (v OR 1) 0" by (simp add: bit_simps)
  then have "\<not> unat (v OR 1) < 2 ^ 0" by (simp only: unat_less_bits) blast
  then show "CLZ (v OR 1) \<le> 31" using CLZ_bound [of 0 "v OR 1"] by simp
qed

lemma bitlen32: "1 \<le> bitlen32 v" "bitlen32 v \<le> 32"
  "0 < m \<Longrightarrow> m \<le> 32 \<Longrightarrow> unat v < 2 ^ m \<longleftrightarrow> bitlen32 v \<le> m"
  using CLZ_or_1 [of v] unat_or_1_less [of m v] CLZ_bound [of m "v OR 1"]
  by (auto simp: bitlen32_def)

lemma CLZ_word: "of_nat k + 32 - of_nat (CLZ (v OR 1)) = (of_nat (k + bitlen32 v) :: u32)"
proof -
  have "of_nat (bitlen32 v) + of_nat (CLZ (v OR 1)) = (of_nat (bitlen32 v + CLZ (v OR 1)) :: u32)" by simp
  also have "\<dots> = 32" using CLZ_le [of "v OR 1"] by (simp add: bitlen32_def)
  finally show ?thesis by (simp add: algebra_simps)
qed

lemma Size_nat: "UnsignedLeb128Size v = of_nat ((6 + bitlen32 v) div 7)"
proof -
  have "6 + 32 - of_nat (CLZ (v OR 1)) = (of_nat (6 + bitlen32 v) :: u32)"
    using CLZ_word [of 6 v] by (simp only: of_nat_numeral)
  then show ?thesis using bitlen32(2) [of v] div7_shift [of "6 + bitlen32 v"]
    by (simp only: UnsignedLeb128Size_def Let_def)
qed

lemma bytes_length_bitlen: "length (EncodeUnsignedLeb128_bytes v) = (6 + bitlen32 v) div 7"
proof -
  have "length (EncodeUnsignedLeb128_bytes v) \<le> k \<longleftrightarrow> (6 + bitlen32 v) div 7 \<le> k" for k
  proof -
    have "0 < k \<and> unat v < 2 ^ (7 * k) \<longleftrightarrow> (6 + bitlen32 v) div 7 \<le> k"
    proof (cases "7 * k \<le> 32")
      case True
      then show ?thesis using bitlen32(3) [of "7 * k" v] bitlen32(1) [of v] by (cases k) auto
    next
      case False
      then have "unat v < 2 ^ (7 * k)"
        by (intro order.strict_trans2 [OF unat_u32] power_increasing) auto
      then show ?thesis using False bitlen32(2) [of v] by auto
    qed
    then show ?thesis by (simp only: bytes_length)
  qed
  then show ?thesis by (meson order.antisym order.refl)
qed

lemma unat_UnsignedLeb128Size: "unat (UnsignedLeb128Size v) = length (EncodeUnsignedLeb128_bytes v)"
proof -
  have "(6 + bitlen32 v) div 7 < 2 ^ 32" using bitlen32(2) [of v] by simp
  then show ?thesis unfolding Size_nat bytes_length_bitlen
    by (simp add: unsigned_of_nat take_bit_nat_eq_self)
qed

definition sext :: "nat \<Rightarrow> u32 \<Rightarrow> u32" where
  "sext k v = signed_drop_bit (32 - k) (push_bit (32 - k) v)"

lemma bit_sext:
  assumes "0 < k" "k \<le> 32" "n < 32"
  shows "bit (sext k v) n = bit v (if k - 1 \<le> n then k - 1 else n)"
proof -
  define w where "w = 32 - k"
  have w: "w + k = 32" using assms by (simp add: w_def)
  have "bit (sext k v) n = bit (push_bit w v) (if 31 \<le> n + w then 31 else n + w)"
    using assms by (simp add: sext_def bit_sdb flip: w_def)
  also have "\<dots> = bit v (if 31 \<le> n + w then 31 - w else n)"
    using w assms by (cases "31 \<le> n + w") (simp_all add: bit_push_bit_iff)
  also have "(if 31 \<le> n + w then 31 - w else n) = (if k - 1 \<le> n then k - 1 else n)"
    using w assms by auto
  finally show ?thesis .
qed

definition sleb_or :: "u8 list \<Rightarrow> u32" where
  "sleb_or bs = (if length bs < 5 then sext (7 * length bs) (leb_or bs) else leb_or bs)"

lemma DecodeSigned_leb:
  assumes "leb_wf bs" and "length bs \<le> 5"
  shows "DecodeSignedLeb128 (bs @ rest) = Some (sleb_or bs, rest)"
  using assms
  by (cases bs rule: list5_cases)
     (simp_all add: sleb_or_def DecodeSignedLeb128_def ucast_le_7f mask_take_bit take_bit_ucast_low
        push_bit_or push_28_low or.assoc sext_def)

lemma sloop_nonempty [simp]: "EncodeSigned_loop out v e \<noteq> []"
  by (subst EncodeSigned_loop.simps) (simp add: Let_def)

lemma sloop_wf: "\<not> bit out 7 \<Longrightarrow> leb_wf (EncodeSigned_loop out v e)"
proof (induction out v e rule: EncodeSigned_loop.induct)
  case (1 out v e)
  have "\<not> bit (ucast (signed_drop_bit 7 v AND 0x7F) :: u8) 7" by (simp add: mask_take_bit bit_simps)
  moreover have "bit (out OR 0x80) 7" by (simp add: bit_simps)
  ultimately show ?case using 1
    by (subst EncodeSigned_loop.simps) (auto simp: Let_def leb_wf_Cons)
qed

lemma sloop_length: "length (EncodeSigned_loop out v e) \<le> Suc k \<longleftrightarrow> unat e < 2 ^ (7 * k)"
proof (induction out v e arbitrary: k rule: EncodeSigned_loop.induct)
  case (1 out v e)
  show ?case
  proof (cases "e = 0")
    case True then show ?thesis by (subst EncodeSigned_loop.simps) simp
  next
    case False
    then have v: "0 < unat e" by (simp add: unat_gt_0)
    show ?thesis
    proof (cases k)
      case 0 with False v sloop_nonempty show ?thesis
        by (subst EncodeSigned_loop.simps) (simp add: Let_def)
    next
      case (Suc j)
      have "length (EncodeSigned_loop out v e) \<le> Suc k \<longleftrightarrow> unat (drop_bit 7 e) < 2 ^ (7 * j)"
        using False Suc by (subst EncodeSigned_loop.simps) (simp add: "1.IH" Let_def)
      also have "\<dots> \<longleftrightarrow> unat e < 2 ^ (7 * k)"
        by (simp only: unat_drop_bit_div less_mult_imp_div_less Suc) (simp add: div_less_iff_less_mult power_add mult.commute)
      finally show ?thesis .
    qed
  qed
qed

lemma sloop_or:
  "n < 7 * length (EncodeSigned_loop (ucast (v AND 0x7F)) v e) \<Longrightarrow> n < 32 \<Longrightarrow>
   bit (leb_or (EncodeSigned_loop (ucast (v AND 0x7F)) v e)) n = 
   bit v n"
proof (induction "unat e" arbitrary: v e n rule: less_induct)
  case less
  show ?case
  proof (cases "e = 0")
    case True
    then have eq: "EncodeSigned_loop (ucast (v AND 0x7F)) v e = [ucast (v AND 0x7F)]"
      by (subst EncodeSigned_loop.simps) simp
    from less.prems show ?thesis unfolding eq by (simp add: mask_take_bit bit_simps)
  next
    case False
    let ?v = "signed_drop_bit 7 v"
    have eq: "EncodeSigned_loop (ucast (v AND 0x7F)) v e = (ucast (v AND 0x7F) OR 0x80) # EncodeSigned_loop (ucast (?v AND 0x7F)) ?v (drop_bit 7 e)"
      using False by (subst EncodeSigned_loop.simps) (simp add: Let_def)
    show ?thesis
    proof (cases "n < 7")
      case True
      then show ?thesis unfolding eq 
        by (simp add: bit_simps mask_take_bit bit_80 del: bit_numeral_word_iff)
    next
      case n: False
      have "bit (leb_or (EncodeSigned_loop (ucast (?v AND 0x7F)) ?v (drop_bit 7 e))) (n - 7) = bit ?v (n - 7)"
        using less.prems n False unfolding eq by (intro less.hyps drop_bit_less_self) auto
      moreover have "bit ?v (n - 7) = bit v n"
        using n less.prems by (cases "n = 31") (auto simp: bit_sdb)
      ultimately show ?thesis using n less.prems unfolding eq
        by (simp add: bit_or_iff bit_take_bit_iff bit_push_bit_iff)
    qed
  qed
qed

definition sign_extra :: "u32 \<Rightarrow> u32" where "sign_extra v = v XOR signed_drop_bit 31 v"

lemma sign_extra_less: "unat (sign_extra v) < 2 ^ k \<longleftrightarrow> (\<forall>n. k \<le> n \<and> n < 32 \<longrightarrow> bit v n = bit v 31)"
  unfolding unat_less_bits sign_extra_def
proof -
  have "bit (v XOR signed_drop_bit 31 v) n \<longleftrightarrow> n < 32 \<and> bit v n \<noteq> bit v 31" for n
    using bit_imp_le_length [of v n] by (auto simp: bit_xor_iff bit_sdb)
  then show "(\<forall>i\<ge>k. \<not> bit (v XOR signed_drop_bit 31 v) i) \<longleftrightarrow>
      (\<forall>n. k \<le> n \<and> n < 32 \<longrightarrow> bit v n = bit v 31)" by simp blast
qed

lemma sbytes_length: "length (EncodeSignedLeb128_bytes v) \<le> k \<longleftrightarrow> 0 < k \<and> unat (sign_extra v) < 2 ^ (7 * k - 1)"
proof (cases k)
  case 0 then show ?thesis by (simp add: EncodeSignedLeb128_bytes_def)
next
  case (Suc j)
  have "unat (sign_extra v) div 2 ^ 6 < 2 ^ (7 * j) \<longleftrightarrow> unat (sign_extra v) < 2 ^ (7 * j) * 2 ^ 6"
    by (simp add: div_less_iff_less_mult)
  also have "(2 :: nat) ^ (7 * j) * 2 ^ 6 = 2 ^ (7 * k - 1)" unfolding Suc by (simp add: power_add)
  finally show ?thesis unfolding EncodeSignedLeb128_bytes_def Suc
    by (simp only: sloop_length unat_drop_bit_div flip: sign_extra_def) simp
qed

lemma sbytes_wf: "leb_wf (EncodeSignedLeb128_bytes v)"
  unfolding EncodeSignedLeb128_bytes_def by (rule sloop_wf) (simp add: mask_take_bit bit_simps)

lemma sbytes_length_5: "length (EncodeSignedLeb128_bytes v) \<le> 5"
  unfolding sbytes_length using unat_u32 [of "sign_extra v"] by simp

lemma sbytes_or: "sleb_or (EncodeSignedLeb128_bytes v) = v"
proof (rule bit_word_eqI)
  fix n assume "n < LENGTH(32)"
  then have n: "n < 32" by simp
  let ?bs = "EncodeSignedLeb128_bytes v" let ?l = "length ?bs"
  have l: "0 < ?l" using sbytes_wf [of v] by (cases ?bs) auto
  have low: "m < 7 * ?l \<Longrightarrow> m < 32 \<Longrightarrow> bit (leb_or ?bs) m = bit v m" for m
    unfolding EncodeSignedLeb128_bytes_def by (rule sloop_or)
  have hi: "7 * ?l - 1 \<le> m \<Longrightarrow> m < 32 \<Longrightarrow> bit v m = bit v 31" for m
    using sbytes_length [of v ?l, unfolded sign_extra_less] by blast
  show "bit (sleb_or ?bs) n = bit v n"
  proof (cases "?l < 5")
    case True
    have "bit (sleb_or ?bs) n = bit (leb_or ?bs) (if 7 * ?l - 1 \<le> n then 7 * ?l - 1 else n)"
      using True l n unfolding sleb_or_def by (simp only: if_True) (intro bit_sext; simp)
    also have "\<dots> = bit v (if 7 * ?l - 1 \<le> n then 7 * ?l - 1 else n)"
      using True l n by (intro low) auto
    also have "\<dots> = bit v n"
      using True l n hi [of n] hi [of "7 * ?l - 1"] by (cases "7 * ?l - 1 \<le> n") auto
    finally show ?thesis .
  next
    case False
    with sbytes_length_5 [of v] have "?l = 5" by simp
    with low [of n] n show ?thesis by (simp add: sleb_or_def)
  qed
qed

lemma Decode_EncodeSigned: "DecodeSignedLeb128 (EncodeSignedLeb128_bytes v @ rest) = Some (v, rest)"
  using DecodeSigned_leb [OF sbytes_wf sbytes_length_5] by (simp only: sbytes_or)

lemma SSize_nat: "SignedLeb128Size v = of_nat ((7 + bitlen32 (sign_extra v)) div 7)"
proof -
  have "1 + 6 + 32 - of_nat (CLZ (sign_extra v OR 1)) = (of_nat (7 + bitlen32 (sign_extra v)) :: u32)"
    using CLZ_word [of 7 "sign_extra v"] by simp
  then show ?thesis using bitlen32(2) [of "sign_extra v"] div7_shift [of "7 + bitlen32 (sign_extra v)"]
    by (simp only: SignedLeb128Size_def Let_def sign_extra_def)
qed

lemma sbytes_length_bitlen: "length (EncodeSignedLeb128_bytes v) = (7 + bitlen32 (sign_extra v)) div 7"
proof -
  have "length (EncodeSignedLeb128_bytes v) \<le> k \<longleftrightarrow> (7 + bitlen32 (sign_extra v)) div 7 \<le> k" for k
  proof -
    have "0 < k \<and> unat (sign_extra v) < 2 ^ (7 * k - 1) \<longleftrightarrow> (7 + bitlen32 (sign_extra v)) div 7 \<le> k"
    proof (cases "7 * k - 1 \<le> 32")
      case True
      then show ?thesis using bitlen32(3) [of "7 * k - 1" "sign_extra v"] bitlen32(1) [of "sign_extra v"] by (cases k) auto
    next
      case False
      then have "unat (sign_extra v) < 2 ^ (7 * k - 1)"
        by (intro order.strict_trans2 [OF unat_u32] power_increasing) auto
      then show ?thesis using False bitlen32(2) [of "sign_extra v"] by auto
    qed
    then show ?thesis by (simp only: sbytes_length)
  qed
  then show ?thesis by (meson order.antisym order.refl)
qed

lemma wr_all_append:
  "length bs \<le> length suf \<Longrightarrow>
   wr_all (pre @ suf) (length pre) bs = Some (pre @ bs @ drop (length bs) suf, length pre + length bs)"
proof (induction bs arbitrary: pre suf)
  case (Cons b bs)
  then obtain c suf' where suf: "suf = c # suf'" by (cases suf) auto
  with Cons.prems Cons.IH [of suf' "pre @ [b]"] show ?case
    by (simp add: wr_def)
qed simp


lemma Checked_split:
  "DecodeUnsignedLeb128Checked (xs @ ys) (length xs) out =
   Some (case DecodeUnsignedLeb128 xs of None \<Rightarrow> (False, xs @ ys, out)
         | Some (v, rest) \<Rightarrow> (True, rest @ ys, v))"
  by (cases xs rule: list5_cases)
     (simp_all add: DecodeUnsignedLeb128Checked_def DecodeUnsignedLeb128_def Let_def)

lemma SChecked_split:
  "DecodeSignedLeb128Checked (xs @ ys) (length xs) out =
   Some (case DecodeSignedLeb128 xs of None \<Rightarrow> (False, xs @ ys, out)
         | Some (v, rest) \<Rightarrow> (True, rest @ ys, v))"
  by (cases xs rule: list5_cases)
     (simp_all add: DecodeSignedLeb128Checked_def DecodeSignedLeb128_def Let_def)

lemma Decode_SomeD:
  assumes "DecodeUnsignedLeb128 data = Some (v, rest)"
  obtains bs where "data = bs @ rest" "0 < length bs" "length bs \<le> 5" "v = leb_or bs"
  using assms
proof (cases data rule: list5_cases)
  case 0 with assms that show ?thesis by (simp add: DecodeUnsignedLeb128_def)
next
  case (1 a) with assms that [of "[a]"] show ?thesis
    by (auto simp: DecodeUnsignedLeb128_def ucast_gt_7f Let_def take_bit_ucast_low split: if_splits)
next
  case (2 a b) with assms that [of "[a]"] that [of "[a, b]"] show ?thesis
    by (auto simp: DecodeUnsignedLeb128_def ucast_gt_7f Let_def take_bit_ucast_low mask_take_bit
      push_bit_or or.assoc split: if_splits)
next
  case (3 a b c) with assms that [of "[a]"] that [of "[a, b]"] that [of "[a, b, c]"] show ?thesis
    by (auto simp: DecodeUnsignedLeb128_def ucast_gt_7f Let_def take_bit_ucast_low mask_take_bit
      push_bit_or or.assoc split: if_splits)
next
  case (4 a b c d)
  with assms that [of "[a]"] that [of "[a, b]"] that [of "[a, b, c]"] that [of "[a, b, c, d]"] show ?thesis
    by (auto simp: DecodeUnsignedLeb128_def ucast_gt_7f Let_def take_bit_ucast_low mask_take_bit
      push_bit_or or.assoc split: if_splits)
next
  case (5 a b c d e zs)
  with assms that [of "[a]"] that [of "[a, b]"] that [of "[a, b, c]"] that [of "[a, b, c, d]"]
    that [of "[a, b, c, d, e]"] show ?thesis
    by (auto simp: DecodeUnsignedLeb128_def ucast_gt_7f Let_def take_bit_ucast_low mask_take_bit
      push_bit_or or.assoc push_28_low split: if_splits)
qed

lemma leb_or_bits: "7 * length bs \<le> n \<Longrightarrow> \<not> bit (leb_or bs) n"
  by (induction bs arbitrary: n) (auto simp: bit_simps)

lemma bytes_length_decoded: "0 < length bs \<Longrightarrow> length (EncodeUnsignedLeb128_bytes (leb_or bs)) \<le> length bs"
  unfolding bytes_length unat_less_bits by (simp add: leb_or_bits)

lemma leb_wf_snoc: "leb_wf (bs @ [b]) \<longleftrightarrow> (\<forall>c\<in>set bs. bit c 7) \<and> \<not> bit b 7"
  by (induction bs) (auto simp: leb_wf_Cons)

lemma leb_or_append: "leb_or (xs @ ys) = leb_or xs OR push_bit (7 * length xs) (leb_or ys)"
  by (induction xs) (simp_all add: push_bit_or or.assoc add.commute)

lemma leb_extend:
  assumes "leb_wf (bs @ [b])"
  shows "leb_wf (bs @ [b OR 0x80, 0])" "leb_or (bs @ [b OR 0x80, 0]) = leb_or (bs @ [b])"
proof -
  have "leb_wf ((bs @ [b OR 0x80]) @ [0])"
    using assms unfolding leb_wf_snoc by (auto simp: bit_simps)
  then show "leb_wf (bs @ [b OR 0x80, 0])" by simp
  have "take_bit 7 (ucast (b OR 0x80) :: u32) = take_bit 7 (ucast b)"
    by (rule bit_word_eqI) (auto simp: bit_simps bit_80 simp del: bit_numeral_word_iff)
  then show "leb_or (bs @ [b OR 0x80, 0]) = leb_or (bs @ [b])"
    by (simp add: leb_or_append)
qed

lemma Update_loop_fill:
  assumes "leb_wf w" and "j \<le> length suf"
  shows "\<exists>w'. Update_loop (pre @ w @ suf) (length pre + length w) (length pre + length w + j) =
           Some (pre @ w' @ drop j suf) \<and> leb_wf w' \<and> leb_or w' = leb_or w \<and> length w' = length w + j"
  using assms
proof (induction j arbitrary: w suf)
  case 0
  then show ?case by (subst Update_loop.simps) auto
next
  case (Suc j)
  from Suc.prems(1) obtain bs b where w: "w = bs @ [b]" by (cases w rule: rev_cases) auto
  from Suc.prems(2) obtain c suf' where suf: "suf = c # suf'" by (cases suf) auto
  let ?w = "bs @ [b OR 0x80, 0]"
  note ext = leb_extend [OF Suc.prems(1) [unfolded w]]
  have "Update_loop (pre @ w @ suf) (length pre + length w) (length pre + length w + Suc j)
      = Update_loop (pre @ ?w @ suf') (length pre + length ?w) (length pre + length ?w + j)"
    by (subst Update_loop.simps) (simp add: w suf wr_def nth_append list_update_append)
  with Suc.IH [of ?w suf'] ext Suc.prems show ?case by (auto simp: w suf)
qed

lemma ReverseSearch_loop_steps:
  "\<forall>c\<in>set w. bit c 7 \<Longrightarrow> pre \<noteq> [] \<Longrightarrow> \<not> bit (last pre) 7 \<Longrightarrow>
   ReverseSearch_loop (pre @ w @ suf) (length pre + length w) = Some (length pre)"
proof (induction w arbitrary: suf rule: rev_induct)
  case Nil
  then obtain ps p where "pre = ps @ [p]" by (cases pre rule: rev_cases) auto
  with Nil show ?case by (simp add: IsLeb128Terminator_def le_7f_iff nth_append)
next
  case (snoc b w)
  then show ?case using snoc.IH [of "b # suf"] by (simp add: IsLeb128Terminator_def le_7f_iff nth_append)
qed

lemma ReverseSearch_leb:
  assumes "leb_wf w" "pre \<noteq> []" "IsLeb128Terminator (last pre)"
  shows "ReverseSearchUnsignedLeb128 (pre @ w @ suf) (length pre + length w) = Some (length pre)"
proof -
  from assms(1) obtain bs b where w: "w = bs @ [b]" by (cases w rule: rev_cases) auto
  show ?thesis using ReverseSearch_loop_steps [of bs pre "b # suf"] assms
    by (simp add: ReverseSearchUnsignedLeb128_def w leb_wf_snoc IsLeb128Terminator_def le_7f_iff)
qed

lemma bytes_snoc: "\<exists>bs b. EncodeUnsignedLeb128_bytes v = bs @ [b] \<and> IsLeb128Terminator b"
  using bytes_wf [of v]
  by (cases "EncodeUnsignedLeb128_bytes v" rule: rev_cases)
     (auto simp: leb_wf_snoc IsLeb128Terminator_def le_7f_iff)

section \<open>The two codecs\<close>

interpretation uleb: codec EncodeUnsignedLeb128_bytes DecodeUnsignedLeb128
  by unfold_locales (rule Decode_EncodeUnsigned)

interpretation sleb: codec EncodeSignedLeb128_bytes DecodeSignedLeb128
  by unfold_locales (rule Decode_EncodeSigned)

lemma InsertBackUnsigned_data:
  "enc_data (InsertBackUnsigned e vs) = enc_data e @ concat (map EncodeUnsignedLeb128_bytes vs)"
  by (induction vs arbitrary: e) (simp_all add: PushBackUnsigned_def EncodeUnsignedLeb128_vec_def)

lemma InsertBackSigned_data:
  "enc_data (InsertBackSigned e vs) = enc_data e @ concat (map EncodeSignedLeb128_bytes vs)"
  by (induction vs arbitrary: e) (simp_all add: PushBackSigned_def EncodeSignedLeb128_vec_def)

section \<open>Properties\<close>

text \<open>
  C7: every sequence of unsigned values appended by a \<^verbatim>\<open>Leb128Encoder\<close> is read back, value by
  value and in order, by \<^verbatim>\<open>DecodeUnsignedLeb128\<close>, and the decoder leaves the cursor exactly behind
  the last encoded byte, whatever follows.
\<close>

theorem InsertBackUnsigned_roundtrip:
  "decode_many DecodeUnsignedLeb128 (length vs)
     (drop (length (enc_data e)) (enc_data (InsertBackUnsigned e vs)) @ rest) = Some (vs, rest)"
  by (simp add: InsertBackUnsigned_data uleb.decode_many_concat)

text \<open>
  C9: the same for signed values: sign extension of the last seven-bit group undoes the truncation
  of the encoder for every 32-bit two's complement value.
\<close>

theorem InsertBackSigned_roundtrip:
  "decode_many DecodeSignedLeb128 (length vs)
     (drop (length (enc_data e)) (enc_data (InsertBackSigned e vs)) @ rest) = Some (vs, rest)"
  by (simp add: InsertBackSigned_data sleb.decode_many_concat)

text \<open>
  C10: the size functions, which divide by seven through a multiplication by 37 and a shift, return
  exactly the number of bytes the encoders write, and that is between one and five.
\<close>

theorem Leb128Size_exact:
  "unat (UnsignedLeb128Size v) = length (EncodeUnsignedLeb128_bytes v) \<and>
   unat (SignedLeb128Size v) = length (EncodeSignedLeb128_bytes v) \<and>
   unat (UnsignedLeb128Size v) \<in> {1..5} \<and> unat (SignedLeb128Size v) \<in> {1..5}"
proof -
  have "(7 + bitlen32 (sign_extra v)) div 7 < 2 ^ 32" using bitlen32(2) [of "sign_extra v"] by simp
  then have s: "unat (SignedLeb128Size v) = length (EncodeSignedLeb128_bytes v)"
    unfolding SSize_nat sbytes_length_bitlen by (rule unat_of_nat_u32)
  moreover have "0 < length (EncodeUnsignedLeb128_bytes v)" "0 < length (EncodeSignedLeb128_bytes v)"
    using bytes_wf [of v] sbytes_wf [of v] by auto
  ultimately show ?thesis
    using bytes_length_5 [of v] sbytes_length_5 [of v] by (simp add: unat_UnsignedLeb128Size Suc_le_eq)
qed

text \<open>
  C11: for an end pointer inside the object, the checked decoders never read at or past the end
  pointer: they succeed exactly when the plain decoder succeeds on the bytes before the end pointer,
  with the same value and cursor, and otherwise return false with cursor and output untouched.
\<close>

theorem DecodeLeb128Checked_agrees:
  assumes "n \<le> length data"
  shows "DecodeUnsignedLeb128Checked data n out =
      Some (case DecodeUnsignedLeb128 (take n data) of None \<Rightarrow> (False, data, out)
            | Some (v, rest) \<Rightarrow> (True, rest @ drop n data, v)) \<and>
    DecodeSignedLeb128Checked data n out =
      Some (case DecodeSignedLeb128 (take n data) of None \<Rightarrow> (False, data, out)
            | Some (v, rest) \<Rightarrow> (True, rest @ drop n data, v))"
  using Checked_split [of "take n data" "drop n data" out]
    SChecked_split [of "take n data" "drop n data" out] assms
  by (simp only: append_take_drop_id length_take min_absorb2)

theorem DecodeLeb128Checked_agrees_witness:
  "(1 :: nat) \<le> length [0x80, 0x01 :: u8] \<and>
   DecodeUnsignedLeb128Checked [0x80, 0x01] 1 7 = Some (False, [0x80, 0x01], 7) \<and>
   DecodeSignedLeb128Checked [0x80, 0x01] 1 7 = Some (False, [0x80, 0x01], 7)"
  using DecodeLeb128Checked_agrees [of 1 "[0x80, 0x01]" 7]
  by (simp add: DecodeUnsignedLeb128_def DecodeSignedLeb128_def Let_def)

text \<open>
  C12: overwriting an encoded value in place with a value whose size is not larger keeps the length
  of the buffer and every byte outside the old encoding, and the padded encoding decodes to the new
  value with the cursor where the old value ended.
\<close>

theorem UpdateUnsignedLeb128_in_place:
  assumes dec: "DecodeUnsignedLeb128 (drop dest mem) = Some (old_value, rest)"
    and dchk: "UnsignedLeb128Size v \<le> UnsignedLeb128Size old_value"
  shows "\<exists>mem'. UpdateUnsignedLeb128 mem dest v = Some mem' \<and> length mem' = length mem \<and>
    take dest mem' = take dest mem \<and> DecodeUnsignedLeb128 (drop dest mem') = Some (v, rest)"
proof -
  obtain bs where bs: "drop dest mem = bs @ rest" "0 < length bs" "length bs \<le> 5" "old_value = leb_or bs"
    using dec by (rule Decode_SomeD)
  have d: "dest < length mem" using bs(1,2) by (metis append_is_Nil_conv drop_eq_Nil2 leI length_greater_0_conv)
  define pre where "pre = take dest mem"
  have pre: "length pre = dest" using d by (simp add: pre_def)
  have mem: "mem = pre @ bs @ rest" using bs(1) by (metis append_take_drop_id pre_def)
  define w where "w = EncodeUnsignedLeb128_bytes v"
  have "length w \<le> length (EncodeUnsignedLeb128_bytes old_value)"
    using dchk unat_UnsignedLeb128Size [of v] unat_UnsignedLeb128Size [of old_value] by (simp add: word_le_nat_alt w_def)
  also have "\<dots> \<le> length bs" using bs by (simp add: bytes_length_decoded)
  finally have wl: "length w \<le> length bs" .
  define j where "j = length bs - length w"
  have enc: "EncodeUnsignedLeb128 mem dest v = Some (pre @ w @ drop (length w) (bs @ rest), length pre + length w)"
    using wr_all_append [of w "bs @ rest" pre] wl unfolding EncodeUnsignedLeb128_def w_def [symmetric] mem pre [symmetric]
    by simp
  obtain w' where w': "Update_loop (pre @ w @ drop (length w) (bs @ rest)) (length pre + length w) (length pre + length w + j) =
      Some (pre @ w' @ drop j (drop (length w) (bs @ rest)))" "leb_wf w'" "leb_or w' = v" "length w' = length bs"
    using Update_loop_fill [of w j "drop (length w) (bs @ rest)" pre] wl
    by (auto simp: w_def j_def bytes_wf bytes_or)
  have "UpdateUnsignedLeb128 mem dest v = Some (pre @ w' @ rest)"
  proof -
    have "length mem - length rest = length pre + length w + j" using wl by (simp add: mem j_def)
    moreover have "drop j (drop (length w) (bs @ rest)) = rest" using wl by (simp add: j_def)
    ultimately show ?thesis unfolding UpdateUnsignedLeb128_def dec using enc w'(1) by simp
  qed
  moreover have "DecodeUnsignedLeb128 (w' @ rest) = Some (v, rest)"
    using Decode_leb [OF w'(2)] w' bs(3) by simp
  ultimately show ?thesis using pre w'(4) by (auto simp: mem)
qed

theorem UpdateUnsignedLeb128_in_place_witness:
  "\<exists>mem'. UpdateUnsignedLeb128 [9, 0x80, 0x01, 9] 1 5 = Some mem' \<and> length mem' = 4 \<and>
     take 1 mem' = [9] \<and> DecodeUnsignedLeb128 (drop 1 mem') = Some (5, [9])"
proof -
  have "DecodeUnsignedLeb128 (drop 1 [9, 0x80, 0x01, 9]) = Some (128, [9])"
    by (simp add: DecodeUnsignedLeb128_def Let_def)
  moreover have "UnsignedLeb128Size 5 \<le> UnsignedLeb128Size 128"
    by (simp add: word_le_nat_alt unat_UnsignedLeb128Size EncodeUnsignedLeb128_bytes_def
        EncodeUnsigned_loop.simps)
  ultimately show ?thesis using UpdateUnsignedLeb128_in_place [of 1 "[9, 0x80, 0x01, 9]" 128 "[9]" 5]
    by (simp add: numeral_eq_Suc)
qed

text \<open>
  C13: searching backwards from the end of an encoded value finds its first byte, provided another
  encoded value precedes it.
\<close>

theorem ReverseSearchUnsignedLeb128_finds_start:
  assumes "us \<noteq> []"
  shows "ReverseSearchUnsignedLeb128
      (enc_data (InsertBackUnsigned \<lparr>enc_data = []\<rparr> (us @ [v])) @ suf)
      (length (enc_data (InsertBackUnsigned \<lparr>enc_data = []\<rparr> (us @ [v])))) =
    Some (length (enc_data (InsertBackUnsigned \<lparr>enc_data = []\<rparr> us)))"
proof -
  obtain ws w where us: "us = ws @ [w]" using assms by (cases us rule: rev_cases) auto
  let ?pre = "concat (map EncodeUnsignedLeb128_bytes us)"
  have "?pre \<noteq> []" "IsLeb128Terminator (last ?pre)" using bytes_snoc [of w] by (auto simp: us)
  then show ?thesis
    using ReverseSearch_leb [OF bytes_wf, of ?pre v suf] by (simp add: InsertBackUnsigned_data)
qed

theorem ReverseSearchUnsignedLeb128_finds_start_witness:
  "[1 :: u32] \<noteq> [] \<and>
   ReverseSearchUnsignedLeb128
     (enc_data (InsertBackUnsigned \<lparr>enc_data = []\<rparr> ([1] @ [300])) @ [7])
     (length (enc_data (InsertBackUnsigned \<lparr>enc_data = []\<rparr> ([1] @ [300])))) =
   Some (length (enc_data (InsertBackUnsigned \<lparr>enc_data = []\<rparr> [1])))"
  using ReverseSearchUnsignedLeb128_finds_start [of "[1]" 300 "[7]"] by simp

end
