(* ===== verification/Utf.thy ===== *)
theory Utf
  imports Art_Prelude
begin

text \<open>
  Modified UTF-8 and UTF-16: \<^verbatim>\<open>src/libdexfile/dex/utf.h\<close>, \<^verbatim>\<open>utf-inl.h\<close> and
  \<^verbatim>\<open>utf.cc\<close>. A \<^verbatim>\<open>const char*\<close> is the list of bytes from the pointer to the end of its
  object, so a terminated string is followed by a zero byte; a UTF-16 buffer with its count is the
  list of its code units. Output written through an advancing pointer or a functor is the list of
  values in the order of the stores.
\<close>

section \<open>Decoding one character\<close>

definition GetTrailingUtf16Char :: "u32 \<Rightarrow> u16" where
  "GetTrailingUtf16Char maybe_pair = ucast (drop_bit 16 maybe_pair)"

definition GetLeadingUtf16Char :: "u32 \<Rightarrow> u16" where
  "GetLeadingUtf16Char maybe_pair = ucast (maybe_pair AND 0xFFFF)"

definition GetUtf16FromUtf8 :: "u8 list \<Rightarrow> (u32 \<times> u8 list) option" where
  "GetUtf16FromUtf8 utf8_data_in = do {
     (one, p) \<leftarrow> rd utf8_data_in;
     let one = (ucast one :: u32);
     if one AND 0x80 = 0 then Some (one, p)
     else do {
       (two, p) \<leftarrow> rd p;
       let two = (ucast two :: u32);
       if one AND 0x20 = 0 then Some (push_bit 6 (one AND 0x1F) OR (two AND 0x3F), p)
       else do {
         (three, p) \<leftarrow> rd p;
         let three = (ucast three :: u32);
         if one AND 0x10 = 0
         then Some (push_bit 12 (one AND 0x0F) OR push_bit 6 (two AND 0x3F) OR (three AND 0x3F), p)
         else do {
           (four, p) \<leftarrow> rd p;
           let four = (ucast four :: u32);
           let code_point = push_bit 18 (one AND 0x0F) OR push_bit 12 (two AND 0x3F)
                 OR push_bit 6 (three AND 0x3F) OR (four AND 0x3F);
           let surrogate_pair = (drop_bit 10 code_point + 0xD7C0) AND 0xFFFF;
           let surrogate_pair = surrogate_pair OR push_bit 16 ((code_point AND 0x03FF) + 0xDC00);
           Some (surrogate_pair, p)
         }
       }
     }
   }"

text \<open>The code units that a converter stores for one decoded character.\<close>

definition pair_units :: "u32 \<Rightarrow> u16 list" where
  "pair_units ch =
     (let leading = GetLeadingUtf16Char ch; trailing = GetTrailingUtf16Char ch
      in if trailing \<noteq> 0 then [leading, trailing] else [leading])"

lemma GetUtf16FromUtf8_shorter:
  "GetUtf16FromUtf8 bs = Some (ch, rest) \<Longrightarrow> length rest < length bs"
  by (cases bs rule: list5_cases)
     (auto simp: GetUtf16FromUtf8_def Let_def split: if_splits)

section \<open>Counting and converting\<close>

function CountModifiedUtf8Chars_loop :: "u8 list \<Rightarrow> nat \<Rightarrow> nat \<Rightarrow> nat \<Rightarrow> nat option" where
  "CountModifiedUtf8Chars_loop utf8 p endp len =
     (if p < endp then
        (if p < length utf8 then
           (let ic = utf8 ! p; len = len + 1
            in if ic AND 0x80 = 0 then CountModifiedUtf8Chars_loop utf8 (p + 1) endp len
               else if ic AND 0x20 = 0 then CountModifiedUtf8Chars_loop utf8 (p + 2) endp len
               else if ic AND 0x10 = 0 then CountModifiedUtf8Chars_loop utf8 (p + 3) endp len
               else CountModifiedUtf8Chars_loop utf8 (p + 4) endp (len + 1))
         else None)
      else Some len)"
  by pat_completeness auto
termination
  by (relation "measure (\<lambda>(utf8, p, endp, len). endp - p)") auto

declare CountModifiedUtf8Chars_loop.simps [simp del]

definition CountModifiedUtf8Chars :: "u8 list \<Rightarrow> nat \<Rightarrow> nat option" where
  "CountModifiedUtf8Chars utf8 byte_count = CountModifiedUtf8Chars_loop utf8 0 byte_count 0"

text \<open>\<^verbatim>\<open>strlen\<close>: the offset of the first zero byte, if the object has one.\<close>

definition strlen :: "u8 list \<Rightarrow> nat option" where
  "strlen s = (if 0 \<in> set s then Some (length (takeWhile (\<lambda>b. b \<noteq> 0) s)) else None)"

definition CountModifiedUtf8Chars_cstr :: "u8 list \<Rightarrow> nat option" where
  "CountModifiedUtf8Chars_cstr utf8 = do { n \<leftarrow> strlen utf8; CountModifiedUtf8Chars utf8 n }"

text \<open>The overload for a terminated string.\<close>

function ConvertModifiedUtf8ToUtf16_cstr :: "u8 list \<Rightarrow> u16 list option" where
  "ConvertModifiedUtf8ToUtf16_cstr utf8_data_in =
     (case utf8_data_in of [] \<Rightarrow> None
      | b # _ \<Rightarrow>
        if b = 0 then Some []
        else (case GetUtf16FromUtf8 utf8_data_in of None \<Rightarrow> None
              | Some (ch, p) \<Rightarrow>
                  map_option (\<lambda>out. pair_units ch @ out) (ConvertModifiedUtf8ToUtf16_cstr p)))"
  by pat_completeness auto
termination
  by (relation "measure length") (auto dest: GetUtf16FromUtf8_shorter)

declare ConvertModifiedUtf8ToUtf16_cstr.simps [simp del]

text \<open>
  The overload with byte and character counts. \<open>n\<close> is the distance from the cursor to
  \<^verbatim>\<open>in_end\<close>; a multi-byte character may move the cursor past \<^verbatim>\<open>in_end\<close>, which ends the
  loop. On the fast path a \<^verbatim>\<open>char\<close> is converted as a signed value.
\<close>

function ConvertModifiedUtf8ToUtf16_loop :: "u8 list \<Rightarrow> nat \<Rightarrow> u16 list option" where
  "ConvertModifiedUtf8ToUtf16_loop p n =
     (if 0 < n
      then (case GetUtf16FromUtf8 p of None \<Rightarrow> None
            | Some (ch, q) \<Rightarrow>
                map_option (\<lambda>out. pair_units ch @ out)
                  (ConvertModifiedUtf8ToUtf16_loop q (n - (length p - length q))))
      else Some [])"
  by pat_completeness auto
termination
  by (relation "measure (\<lambda>(p, n). length p)") (auto dest: GetUtf16FromUtf8_shorter)

declare ConvertModifiedUtf8ToUtf16_loop.simps [simp del]

definition ConvertModifiedUtf8ToUtf16 :: "nat \<Rightarrow> u8 list \<Rightarrow> nat \<Rightarrow> u16 list option" where
  "ConvertModifiedUtf8ToUtf16 out_chars utf8_data_in in_bytes =
     (if out_chars = in_bytes
      then (if in_bytes \<le> length utf8_data_in
            then Some (map scast (take in_bytes utf8_data_in)) else None)
      else ConvertModifiedUtf8ToUtf16_loop utf8_data_in in_bytes)"

section \<open>Encoding\<close>

definition is_lead :: "u16 \<Rightarrow> bool" where "is_lead ch \<longleftrightarrow> ch AND 0xFC00 = 0xD800"
definition is_trail :: "u16 \<Rightarrow> bool" where "is_trail ch \<longleftrightarrow> ch AND 0xFC00 = 0xDC00"
definition is_surrogate :: "u16 \<Rightarrow> bool" where "is_surrogate ch \<longleftrightarrow> ch AND 0xF800 = 0xD800"
definition is_surrogate_lead :: "u16 \<Rightarrow> bool" where "is_surrogate_lead ch \<longleftrightarrow> ch AND 0x0400 = 0"

definition get_supplementary :: "u16 \<Rightarrow> u16 \<Rightarrow> u32" where
  "get_supplementary lead trail =
     (let offset = push_bit 10 0xD800 + 0xDC00 - 0x10000
      in push_bit 10 (ucast lead) + ucast trail - offset)"

definition has_trail :: "u16 list \<Rightarrow> bool" where
  "has_trail rest = (case rest of [] \<Rightarrow> False | t # _ \<Rightarrow> is_trail t)"

text \<open>
  The template \<^verbatim>\<open>ConvertUtf16ToUtf8\<close>; its three boolean arguments select the encoding. The
  functor receives a \<^verbatim>\<open>char\<close>, so every value is cut to eight bits.
\<close>

fun ConvertUtf16ToUtf8 :: "bool \<Rightarrow> bool \<Rightarrow> bool \<Rightarrow> u16 list \<Rightarrow> u8 list" where
  "ConvertUtf16ToUtf8 kUseShortZero kUse4ByteSequence kReplaceBadSurrogates [] = []"
| "ConvertUtf16ToUtf8 kUseShortZero kUse4ByteSequence kReplaceBadSurrogates (ch # rest) =
     (if ch < 0x80 \<and> (kUseShortZero \<or> ch \<noteq> 0)
      then ucast ch # ConvertUtf16ToUtf8 kUseShortZero kUse4ByteSequence kReplaceBadSurrogates rest
      else if ch < 0x800
      then ucast (drop_bit 6 ch OR 0xC0) # ucast ((ch AND 0x3F) OR 0x80)
           # ConvertUtf16ToUtf8 kUseShortZero kUse4ByteSequence kReplaceBadSurrogates rest
      else if (if kReplaceBadSurrogates then is_surrogate ch
               else kUse4ByteSequence \<and> is_lead ch \<and> has_trail rest)
      then (if kReplaceBadSurrogates \<and> (\<not> is_surrogate_lead ch \<or> \<not> has_trail rest)
            then 0x3F # ConvertUtf16ToUtf8 kUseShortZero kUse4ByteSequence kReplaceBadSurrogates rest
            else (case rest of [] \<Rightarrow> []
                  | trail # rest \<Rightarrow>
                    let code_point = get_supplementary ch trail
                    in ucast (drop_bit 18 code_point OR 0xF0)
                       # ucast ((drop_bit 12 code_point AND 0x3F) OR 0x80)
                       # ucast ((drop_bit 6 code_point AND 0x3F) OR 0x80)
                       # ucast ((code_point AND 0x3F) OR 0x80)
                       # ConvertUtf16ToUtf8 kUseShortZero kUse4ByteSequence kReplaceBadSurrogates rest))
      else ucast (drop_bit 12 ch OR 0xE0) # ucast ((drop_bit 6 ch AND 0x3F) OR 0x80)
           # ucast ((ch AND 0x3F) OR 0x80)
           # ConvertUtf16ToUtf8 kUseShortZero kUse4ByteSequence kReplaceBadSurrogates rest)"

text \<open>
  \<^verbatim>\<open>ConvertUtf16ToModifiedUtf8\<close>: the fast path casts each unit to \<^verbatim>\<open>char\<close>. The general
  path and \<^verbatim>\<open>CountModifiedUtf8BytesInUtf16\<close> use the JNI flavour of the template.
\<close>

definition ConvertUtf16ToModifiedUtf8 :: "nat \<Rightarrow> u16 list \<Rightarrow> u8 list" where
  "ConvertUtf16ToModifiedUtf8 byte_count utf16_in =
     (if byte_count = length utf16_in then map ucast utf16_in
      else ConvertUtf16ToUtf8 False True False utf16_in)"

definition CountModifiedUtf8BytesInUtf16 :: "u16 list \<Rightarrow> nat" where
  "CountModifiedUtf8BytesInUtf16 chars = length (ConvertUtf16ToUtf8 False True False chars)"

section \<open>Hashes\<close>

definition ComputeUtf16Hash :: "u16 list \<Rightarrow> u32" where
  "ComputeUtf16Hash chars = foldl (\<lambda>hash c. hash * 31 + ucast c) 0 chars"

text \<open>
  \<^verbatim>\<open>utf16_length\<close> is a 64-bit unsigned count; the second decrement wraps where the debug check
  of the source would fail.
\<close>

function ComputeUtf16HashFromModifiedUtf8_loop :: "u8 list \<Rightarrow> u64 \<Rightarrow> u32 \<Rightarrow> u32 option" where
  "ComputeUtf16HashFromModifiedUtf8_loop utf8 utf16_length hash =
     (if utf16_length \<noteq> 0
      then (case GetUtf16FromUtf8 utf8 of None \<Rightarrow> None
            | Some (pair, p) \<Rightarrow>
                let first = GetLeadingUtf16Char pair;
                    hash = hash * 31 + ucast first;
                    utf16_length = utf16_length - 1;
                    second = GetTrailingUtf16Char pair
                in if second \<noteq> 0
                   then ComputeUtf16HashFromModifiedUtf8_loop p (utf16_length - 1) (hash * 31 + ucast second)
                   else ComputeUtf16HashFromModifiedUtf8_loop p utf16_length hash)
      else Some hash)"
  by pat_completeness auto
termination
  by (relation "measure (\<lambda>(utf8, utf16_length, hash). length utf8)")
     (auto dest: GetUtf16FromUtf8_shorter)

declare ComputeUtf16HashFromModifiedUtf8_loop.simps [simp del]

definition ComputeUtf16HashFromModifiedUtf8 :: "u8 list \<Rightarrow> u64 \<Rightarrow> u32 option" where
  "ComputeUtf16HashFromModifiedUtf8 utf8 utf16_length =
     ComputeUtf16HashFromModifiedUtf8_loop utf8 utf16_length 0"

definition StartModifiedUtf8Hash :: u32 where
  "StartModifiedUtf8Hash = 0"

definition UpdateModifiedUtf8Hash :: "u32 \<Rightarrow> u8 \<Rightarrow> u32" where
  "UpdateModifiedUtf8Hash hash c = hash * 31 + ucast c"

definition UpdateModifiedUtf8Hash_view :: "u32 \<Rightarrow> u8 list \<Rightarrow> u32" where
  "UpdateModifiedUtf8Hash_view hash chars = foldl UpdateModifiedUtf8Hash hash chars"

fun ComputeModifiedUtf8Hash_loop :: "u8 list \<Rightarrow> u32 \<Rightarrow> u32 option" where
  "ComputeModifiedUtf8Hash_loop [] hash = None"
| "ComputeModifiedUtf8Hash_loop (c # chars) hash =
     (if c \<noteq> 0 then ComputeModifiedUtf8Hash_loop chars (UpdateModifiedUtf8Hash hash c) else Some hash)"

definition ComputeModifiedUtf8Hash :: "u8 list \<Rightarrow> u32 option" where
  "ComputeModifiedUtf8Hash chars = ComputeModifiedUtf8Hash_loop chars StartModifiedUtf8Hash"

definition ComputeModifiedUtf8Hash_view :: "u8 list \<Rightarrow> u32" where
  "ComputeModifiedUtf8Hash_view chars = UpdateModifiedUtf8Hash_view StartModifiedUtf8Hash chars"

section \<open>Comparison\<close>

function CompareModifiedUtf8ToUtf16AsCodePointValues :: "u8 list \<Rightarrow> u16 list \<Rightarrow> int option" where
  "CompareModifiedUtf8ToUtf16AsCodePointValues utf8 utf16 =
     (case utf8 of [] \<Rightarrow> None
      | b # _ \<Rightarrow>
        if b = 0 then Some (if utf16 = [] then 0 else - 1)
        else (case utf16 of [] \<Rightarrow> Some 1
          | rhs # utf16 \<Rightarrow>
            (case GetUtf16FromUtf8 utf8 of None \<Rightarrow> None
             | Some (pair, p) \<Rightarrow>
               let lhs = GetLeadingUtf16Char pair
               in if lhs \<noteq> rhs then Some (if lhs > rhs then 1 else - 1)
                  else let lhs2 = GetTrailingUtf16Char pair
                  in if lhs2 \<noteq> 0
                     then (case utf16 of [] \<Rightarrow> Some 1
                       | rhs2 # utf16 \<Rightarrow>
                         if lhs2 \<noteq> rhs2 then Some (if lhs2 > rhs2 then 1 else - 1)
                         else CompareModifiedUtf8ToUtf16AsCodePointValues p utf16)
                     else CompareModifiedUtf8ToUtf16AsCodePointValues p utf16)))"
  by pat_completeness auto
termination
  by (relation "measure (\<lambda>(utf8, utf16). length utf8)") (auto dest: GetUtf16FromUtf8_shorter)

declare CompareModifiedUtf8ToUtf16AsCodePointValues.simps [simp del]

text \<open>
  The differences are computed on promoted 32-bit integers, where two 16-bit operands cannot
  overflow; the result is their integer difference.
\<close>

function CompareModifiedUtf8ToModifiedUtf8AsUtf16CodePointValues :: "u8 list \<Rightarrow> u8 list \<Rightarrow> int option" where
  "CompareModifiedUtf8ToModifiedUtf8AsUtf16CodePointValues utf8_1 utf8_2 =
     (case (utf8_1, utf8_2) of
        (c1 # _, c2 # _) \<Rightarrow>
          if c1 = 0 then Some (if c2 = 0 then 0 else - 1)
          else if c2 = 0 then Some 1
          else (case (GetUtf16FromUtf8 utf8_1, GetUtf16FromUtf8 utf8_2) of
              (Some (c1, p1), Some (c2, p2)) \<Rightarrow>
                if c1 = c2 then CompareModifiedUtf8ToModifiedUtf8AsUtf16CodePointValues p1 p2
                else let leading_surrogate_diff =
                           uint (GetLeadingUtf16Char c1) - uint (GetLeadingUtf16Char c2)
                     in if leading_surrogate_diff \<noteq> 0 then Some leading_surrogate_diff
                        else Some (uint (GetTrailingUtf16Char c1) - uint (GetTrailingUtf16Char c2))
            | _ \<Rightarrow> None)
      | _ \<Rightarrow> None)"
  by pat_completeness auto
termination
  by (relation "measure (\<lambda>(utf8_1, utf8_2). length utf8_1)") (auto dest!: GetUtf16FromUtf8_shorter [OF sym])

declare CompareModifiedUtf8ToModifiedUtf8AsUtf16CodePointValues.simps [simp del]

section \<open>Printing\<close>

definition NeedsEscaping :: "u16 \<Rightarrow> bool" where
  "NeedsEscaping ch \<longleftrightarrow> ch < 0x20 \<or> ch > 0x7E"

text \<open>The conversion \<^verbatim>\<open>%04x\<close> of a 16-bit value, as ASCII bytes.\<close>

definition hex_digit :: "u16 \<Rightarrow> u8" where
  "hex_digit d = (if d < 10 then 0x30 + ucast d else 0x57 + ucast d)"

definition format_04x :: "u16 \<Rightarrow> u8 list" where
  "format_04x v =
     [hex_digit (drop_bit 12 v), hex_digit (drop_bit 8 v AND 0xF), hex_digit (drop_bit 4 v AND 0xF),
      hex_digit (v AND 0xF)]"

definition PrintableChar :: "u16 \<Rightarrow> u8 list" where
  "PrintableChar ch =
     [0x27] @ (if NeedsEscaping ch then [0x5C, 0x75] @ format_04x ch else [ucast ch]) @ [0x27]"

text \<open>The loop of \<^verbatim>\<open>PrintableString\<close>; \<open>n\<close> is the number of code units still to print.\<close>

function PrintableString_loop :: "u8 list \<Rightarrow> nat \<Rightarrow> u8 list option" where
  "PrintableString_loop p n =
     (if 0 < n
      then (case GetUtf16FromUtf8 p of None \<Rightarrow> None
        | Some (ch, q) \<Rightarrow>
          if ch = 0x5C then map_option (\<lambda>out. [0x5C, 0x5C] @ out) (PrintableString_loop q (n - 1))
          else if ch = 0x0A then map_option (\<lambda>out. [0x5C, 0x6E] @ out) (PrintableString_loop q (n - 1))
          else if ch = 0x0D then map_option (\<lambda>out. [0x5C, 0x72] @ out) (PrintableString_loop q (n - 1))
          else if ch = 0x09 then map_option (\<lambda>out. [0x5C, 0x74] @ out) (PrintableString_loop q (n - 1))
          else let leading = GetLeadingUtf16Char ch;
                   lead_out = (if NeedsEscaping leading then [0x5C, 0x75] @ format_04x leading
                               else [ucast leading]);
                   trailing = GetTrailingUtf16Char ch
               in if trailing \<noteq> 0
                  then map_option (\<lambda>out. lead_out @ [0x5C, 0x75] @ format_04x trailing @ out)
                         (PrintableString_loop q (n - 2))
                  else map_option (\<lambda>out. lead_out @ out) (PrintableString_loop q (n - 1)))
      else Some [])"
  by pat_completeness auto
termination
  by (relation "measure (\<lambda>(p, n). length p)") (auto dest: GetUtf16FromUtf8_shorter)

declare PrintableString_loop.simps [simp del]

definition PrintableString :: "u8 list \<Rightarrow> u8 list option" where
  "PrintableString utf8 = do {
     char_count \<leftarrow> CountModifiedUtf8Chars_cstr utf8;
     body \<leftarrow> PrintableString_loop utf8 char_count;
     Some ([0x22] @ body @ [0x22])
   }"

subsection \<open>Bit patterns of the encoded forms\<close>

lemma and_80: "x AND 0x80 = 0 \<longleftrightarrow> \<not> bit (x :: 'a :: len word) 7"
  using and_exp_eq_0_iff_not_bit [of x 7] by simp
lemma and_20: "x AND 0x20 = 0 \<longleftrightarrow> \<not> bit (x :: 'a :: len word) 5"
  using and_exp_eq_0_iff_not_bit [of x 5] by simp
lemma and_10: "x AND 0x10 = 0 \<longleftrightarrow> \<not> bit (x :: 'a :: len word) 4"
  using and_exp_eq_0_iff_not_bit [of x 4] by simp

lemma and_1f_take_bit: "(x :: 'a :: len word) AND 0x1F = take_bit 5 x"
  by (simp add: take_bit_eq_mask mask_eq_exp_minus_1)
lemma and_3ff_take_bit: "(x :: 'a :: len word) AND 0x3FF = take_bit 10 x"
  by (simp add: take_bit_eq_mask mask_eq_exp_minus_1)

lemma bit_consts:
  "bit (0x80 :: u16) n \<longleftrightarrow> n = 7" "bit (0x80 :: u32) n \<longleftrightarrow> n = 7"
  "bit (0xC0 :: u16) n \<longleftrightarrow> n = 6 \<or> n = 7"
  "bit (0xE0 :: u16) n \<longleftrightarrow> n = 5 \<or> n = 6 \<or> n = 7"
  "bit (0xF0 :: u32) n \<longleftrightarrow> n = 4 \<or> n = 5 \<or> n = 6 \<or> n = 7"
proof -
  have e: "(0x80 :: u16) = 2 ^ 7" "(0x80 :: u32) = 2 ^ 7" "(0xC0 :: u16) = 2 ^ 6 OR 2 ^ 7"
    "(0xE0 :: u16) = 2 ^ 5 OR 2 ^ 6 OR 2 ^ 7" "(0xF0 :: u32) = 2 ^ 4 OR 2 ^ 5 OR 2 ^ 6 OR 2 ^ 7"
    by simp_all
  show "bit (0x80 :: u16) n \<longleftrightarrow> n = 7" unfolding e by (auto simp only: bit_or_iff bit_exp_iff) auto
  show "bit (0x80 :: u32) n \<longleftrightarrow> n = 7" unfolding e by (auto simp only: bit_or_iff bit_exp_iff) auto
  show "bit (0xC0 :: u16) n \<longleftrightarrow> n = 6 \<or> n = 7" unfolding e by (auto simp only: bit_or_iff bit_exp_iff) auto
  show "bit (0xE0 :: u16) n \<longleftrightarrow> n = 5 \<or> n = 6 \<or> n = 7" unfolding e by (auto simp only: bit_or_iff bit_exp_iff) auto
  show "bit (0xF0 :: u32) n \<longleftrightarrow> n = 4 \<or> n = 5 \<or> n = 6 \<or> n = 7" unfolding e by (auto simp only: bit_or_iff bit_exp_iff) auto
qed

lemmas utf_masks = mask_take_bit and_1f_take_bit and_3ff_take_bit and_80 and_20 and_10

lemma less_80_bits: "(ch :: u16) < 0x80 \<longleftrightarrow> (\<forall>n. 7 \<le> n \<longrightarrow> \<not> bit ch n)"
  using unat_less_bits [of ch 7] by (simp add: word_less_nat_alt)
lemma less_800_bits: "(ch :: u16) < 0x800 \<longleftrightarrow> (\<forall>n. 11 \<le> n \<longrightarrow> \<not> bit ch n)"
  using unat_less_bits [of ch 11] by (simp add: word_less_nat_alt)

lemma Get_1: "ch < 0x80 \<Longrightarrow> GetUtf16FromUtf8 (ucast (ch :: u16) # rest) = Some (ucast ch, rest)"
proof -
  assume "ch < 0x80"
  then have n: "7 \<le> n \<Longrightarrow> \<not> bit ch n" for n by (simp add: less_80_bits)
  have "ucast (ucast ch :: u8) = (ucast ch :: u32)"
  proof (rule bit_word_eqI)
    fix i
    have "bit ch i \<Longrightarrow> i < 8" using n [of i] by (cases "7 \<le> i") auto
    then show "bit (ucast (ucast ch :: u8) :: u32) i = bit (ucast ch :: u32) i"
      by (auto simp: bit_simps)
  qed
  with n show ?thesis by (simp add: GetUtf16FromUtf8_def utf_masks bit_simps)
qed

lemma Get_2:
  assumes "ch < 0x800"
  shows "GetUtf16FromUtf8 (ucast (drop_bit 6 (ch :: u16) OR 0xC0) # ucast ((ch AND 0x3F) OR 0x80) # rest)
    = Some (ucast ch, rest)"
proof -
  have n: "11 \<le> n \<Longrightarrow> \<not> bit ch n" for n using assms by (simp add: less_800_bits)
  have "push_bit 6 (take_bit 5 (ucast (ucast (drop_bit 6 ch OR 0xC0) :: u8))) OR
    take_bit 6 (ucast (ucast ((ch AND 0x3F) OR 0x80) :: u8)) = (ucast ch :: u32)"
  proof (rule bit_word_eqI)
    fix i
    show "bit (push_bit 6 (take_bit 5 (ucast (ucast (drop_bit 6 ch OR 0xC0) :: u8))) OR
      take_bit 6 (ucast (ucast ((ch AND 0x3F) OR 0x80) :: u8)) :: u32) i = bit (ucast ch :: u32) i"
      using n [of i] by (cases "i < 6"; cases "i < 11")
        (auto simp: bit_simps bit_consts utf_masks simp del: bit_numeral_word_iff dest: bit_imp_le_length)
  qed
  moreover have "\<not> bit (drop_bit 6 ch) 5" using n by (simp add: bit_simps)
  ultimately show ?thesis
    by (simp add: GetUtf16FromUtf8_def utf_masks Let_def)
      (simp add: bit_simps bit_consts del: bit_numeral_word_iff)
qed

lemma Get_3:
  "GetUtf16FromUtf8 (ucast (drop_bit 12 (ch :: u16) OR 0xE0) # ucast ((drop_bit 6 ch AND 0x3F) OR 0x80)
     # ucast ((ch AND 0x3F) OR 0x80) # rest) = Some (ucast ch, rest)"
proof -
  have "push_bit 12 (take_bit 4 (ucast (ucast (drop_bit 12 ch OR 0xE0) :: u8))) OR
    push_bit 6 (take_bit 6 (ucast (ucast ((drop_bit 6 ch AND 0x3F) OR 0x80) :: u8))) OR
    take_bit 6 (ucast (ucast ((ch AND 0x3F) OR 0x80) :: u8)) = (ucast ch :: u32)"
  proof (rule bit_word_eqI)
    fix i
    have "bit ch i \<Longrightarrow> i < 16" using bit_imp_le_length [of ch i] by simp
    then show "bit (push_bit 12 (take_bit 4 (ucast (ucast (drop_bit 12 ch OR 0xE0) :: u8))) OR
    push_bit 6 (take_bit 6 (ucast (ucast ((drop_bit 6 ch AND 0x3F) OR 0x80) :: u8))) OR
    take_bit 6 (ucast (ucast ((ch AND 0x3F) OR 0x80) :: u8)) :: u32) i = bit (ucast ch :: u32) i"
      by (cases "i < 6"; cases "i < 12"; cases "i < 16")
        (auto simp: bit_simps bit_consts utf_masks simp del: bit_numeral_word_iff)
  qed
  moreover have "\<not> bit ch 16" using bit_imp_le_length [of ch 16] by auto
  ultimately show ?thesis
    by (simp add: GetUtf16FromUtf8_def utf_masks Let_def)
      (simp add: bit_simps bit_consts del: bit_numeral_word_iff)
qed


lemma pair_units_single [simp]: "pair_units (ucast (ch :: u16)) = [ch]"
proof -
  have "GetLeadingUtf16Char (ucast ch) = ch"
    unfolding GetLeadingUtf16Char_def mask_take_bit by (rule bit_word_eqI) (auto simp: bit_simps)
  moreover have "GetTrailingUtf16Char (ucast ch) = 0"
    unfolding GetTrailingUtf16Char_def
    by (rule bit_word_eqI) (auto simp: bit_simps dest: bit_imp_le_length)
  ultimately show ?thesis by (simp add: pair_units_def)
qed

lemma and_fc00: "(ch :: u16) AND 0xFC00 = push_bit 10 (drop_bit 10 ch)"
proof -
  have c: "(0xFC00 :: u16) = NOT (mask 10)" by (simp add: mask_eq_exp_minus_1)
  show ?thesis unfolding c by (rule bit_word_eqI) (auto simp: bit_simps)
qed

lemma push_drop_10_eq: "push_bit 10 (drop_bit 10 ch) = push_bit 10 (of_nat k :: u16) \<longleftrightarrow> unat ch div 1024 = k"
  if "k < 64"
proof
  assume "push_bit 10 (drop_bit 10 ch) = push_bit 10 (of_nat k :: u16)"
  then have "drop_bit 10 (push_bit 10 (drop_bit 10 ch)) = drop_bit 10 (push_bit 10 (of_nat k :: u16))" by simp
  then have "unat (drop_bit 10 (push_bit 10 (drop_bit 10 ch))) = unat (drop_bit 10 (push_bit 10 (of_nat k :: u16)))" by simp
  moreover have "drop_bit 10 (push_bit 10 (drop_bit 10 ch)) = drop_bit 10 ch"
    by (rule bit_word_eqI) (auto simp: bit_simps dest: bit_imp_le_length)
  moreover have "unat (drop_bit 10 (push_bit 10 (of_nat k :: u16))) = k"
    using that by (simp only: unat_drop_bit_div) (simp add: push_bit_eq_mult unat_word_ariths unsigned_of_nat take_bit_nat_eq_self)
  ultimately show "unat ch div 1024 = k" by (simp add: unat_drop_bit_div)
next
  assume "unat ch div 1024 = k"
  then have "unat (drop_bit 10 ch) = k" by (simp add: unat_drop_bit_div)
  then have "drop_bit 10 ch = of_nat k"
    using that by (simp add: word_unat_eq_iff unsigned_of_nat take_bit_nat_eq_self)
  then show "push_bit 10 (drop_bit 10 ch) = push_bit 10 (of_nat k :: u16)" by simp
qed

lemma is_lead_iff: "is_lead ch \<longleftrightarrow> unat ch div 1024 = 54"
  using push_drop_10_eq [of 54 ch] by (simp add: is_lead_def and_fc00)

lemma is_trail_iff: "is_trail ch \<longleftrightarrow> unat ch div 1024 = 55"
  using push_drop_10_eq [of 55 ch] by (simp add: is_trail_def and_fc00)


text \<open>A code point is reassembled from the payload bits of its four bytes.\<close>

lemma utf16_range_cases:
  obtains "i < (k :: nat)" | "k \<le> i" "i < l" | "l \<le> i" "i < m" | "m \<le> i"
  using not_le by blast

lemma four_bytes_code_point:
  assumes "unat (cp :: u32) < 2 ^ 21"
  shows "push_bit 18 (take_bit 4 (ucast (ucast (drop_bit 18 cp OR 0xF0) :: u8))) OR
    push_bit 12 (take_bit 6 (ucast (ucast ((drop_bit 12 cp AND 0x3F) OR 0x80) :: u8))) OR
    push_bit 6 (take_bit 6 (ucast (ucast ((drop_bit 6 cp AND 0x3F) OR 0x80) :: u8))) OR
    take_bit 6 (ucast (ucast ((cp AND 0x3F) OR 0x80) :: u8)) = cp"
proof (rule bit_word_eqI)
  fix i
  have "bit cp i \<Longrightarrow> i < 21" using assms [unfolded unat_less_bits] by (meson not_le)
  then show "bit (push_bit 18 (take_bit 4 (ucast (ucast (drop_bit 18 cp OR 0xF0) :: u8))) OR
    push_bit 12 (take_bit 6 (ucast (ucast ((drop_bit 12 cp AND 0x3F) OR 0x80) :: u8))) OR
    push_bit 6 (take_bit 6 (ucast (ucast ((drop_bit 6 cp AND 0x3F) OR 0x80) :: u8))) OR
    take_bit 6 (ucast (ucast ((cp AND 0x3F) OR 0x80) :: u8)) :: u32) i = bit cp i"
    by (cases rule: utf16_range_cases [where i = i and k = 6 and l = 12 and m = 18])
       (simp_all add: bit_simps bit_consts utf_masks cong: conj_cong del: bit_numeral_word_iff, auto)
qed

definition surrogate_pair_of :: "u32 \<Rightarrow> u32" where
  "surrogate_pair_of cp = (drop_bit 10 cp + 0xD7C0) AND 0xFFFF OR push_bit 16 ((cp AND 0x3FF) + 0xDC00)"

lemma Get_4_raw:
  assumes "bit b0 7" "bit b0 5" "bit b0 4"
  shows "GetUtf16FromUtf8 (b0 # b1 # b2 # b3 # rest) =
    Some (surrogate_pair_of (push_bit 18 (take_bit 4 (ucast b0)) OR push_bit 12 (take_bit 6 (ucast b1)) OR
      push_bit 6 (take_bit 6 (ucast b2)) OR take_bit 6 (ucast b3)), rest)"
  using assms unfolding surrogate_pair_of_def GetUtf16FromUtf8_def Let_def
  by (simp only: utf_masks rd_simps bind.bind_lunit prod.case bit_unsigned_iff) (simp add: or.assoc)

lemma Get_4:
  assumes "unat (cp :: u32) < 2 ^ 21"
  shows "GetUtf16FromUtf8 (ucast (drop_bit 18 cp OR 0xF0) # ucast ((drop_bit 12 cp AND 0x3F) OR 0x80)
     # ucast ((drop_bit 6 cp AND 0x3F) OR 0x80) # ucast ((cp AND 0x3F) OR 0x80) # rest) =
    Some (surrogate_pair_of cp, rest)"
  by (subst Get_4_raw, (simp add: bit_simps bit_consts del: bit_numeral_word_iff)+)
     (simp only: four_bytes_code_point [OF assms])

lemma supplementary_nat:
  assumes "is_lead l" "is_trail t"
  obtains a b where "a < 1024" "b < 1024" "unat l = 0xD800 + a" "unat t = 0xDC00 + b"
    "get_supplementary l t = of_nat (0x10000 + 1024 * a + b)"
proof -
  define a b where "a = unat l mod 1024" and "b = unat t mod 1024"
  have ab: "a < 1024" "b < 1024" by (simp_all add: a_def b_def)
  have l: "unat l = 0xD800 + a" and t: "unat t = 0xDC00 + b"
    using assms div_mult_mod_eq [of "unat l" 1024] div_mult_mod_eq [of "unat t" 1024]
    by (simp_all add: is_lead_iff is_trail_iff a_def b_def)
  have "(ucast l :: u32) = of_nat (0xD800 + a)" "(ucast t :: u32) = of_nat (0xDC00 + b)"
    unfolding l [symmetric] t [symmetric] by simp_all
  then have "get_supplementary l t = of_nat (0x10000 + 1024 * a + b)"
    by (simp add: get_supplementary_def push_bit_eq_mult algebra_simps)
  with ab l t that show thesis by blast
qed

lemma pair_units_pair:
  assumes "t \<noteq> 0"
  shows "pair_units (ucast (l :: u16) OR push_bit 16 (ucast (t :: u16))) = [l, t]"
proof -
  have "GetLeadingUtf16Char (ucast l OR push_bit 16 (ucast t)) = l"
    unfolding GetLeadingUtf16Char_def mask_take_bit by (rule bit_word_eqI) (auto simp: bit_simps)
  moreover have "GetTrailingUtf16Char (ucast l OR push_bit 16 (ucast t)) = t"
    unfolding GetTrailingUtf16Char_def
    by (rule bit_word_eqI) (auto simp: bit_simps dest: bit_imp_le_length)
  ultimately show ?thesis using assms by (simp add: pair_units_def)
qed

lemma surrogates_of_code_point:
  assumes "is_lead l" "is_trail t"
  defines "cp \<equiv> get_supplementary l t"
  shows "unat cp < 2 ^ 21"
    and "surrogate_pair_of cp = ucast l OR push_bit 16 (ucast t)"
proof -
  obtain a b where ab: "a < 1024" "b < 1024" "unat l = 0xD800 + a" "unat t = 0xDC00 + b"
    and cp: "cp = of_nat (0x10000 + 1024 * a + b)"
    using supplementary_nat [OF assms(1,2)] unfolding cp_def by metis
  have n: "unat cp = 0x10000 + 1024 * a + b" unfolding cp using ab by (intro unat_of_nat_u32) simp
  then show "unat cp < 2 ^ 21" using ab by simp
  have "unat (drop_bit 10 cp) = unat (of_nat (64 + a) :: u32)"
    using ab by (subst unat_of_nat_u32) (simp_all add: unat_drop_bit_div n)
  then have "drop_bit 10 cp = of_nat (64 + a)" by (simp add: word_unat_eq_iff)
  moreover have "unat (take_bit 10 cp) = b"
  proof -
    have "unat (take_bit 10 cp) = unat cp mod 2 ^ 10"
      unfolding take_bit_eq_mod [symmetric] by (rule unsigned_take_bit_eq)
    also have "unat cp = b + 1024 * (64 + a)" by (simp add: n)
    finally show ?thesis
      using ab mod_mult_self2 [of b 1024 "64 + a"] by (simp del: mod_mult_self2)
  qed
  then have "unat (take_bit 10 cp) = unat (of_nat b :: u32)"
    using ab by (simp add: unat_of_nat_u32)
  then have "take_bit 10 cp = of_nat b" by (simp add: word_unat_eq_iff)
  moreover have "(ucast l :: u32) = of_nat (0xD800 + a)" "(ucast t :: u32) = of_nat (0xDC00 + b)"
    unfolding ab(3,4) [symmetric] by simp_all
  moreover have "take_bit 16 (ucast l :: u32) = ucast l"
    by (rule bit_word_eqI) (auto simp: bit_simps dest: bit_imp_le_length)
  ultimately show "surrogate_pair_of cp = ucast l OR push_bit 16 (ucast t)"
    by (simp add: surrogate_pair_of_def utf_masks algebra_simps)
qed

subsection \<open>The encoder, one character at a time\<close>

abbreviation mutf8 :: "u16 list \<Rightarrow> u8 list" where
  "mutf8 \<equiv> ConvertUtf16ToUtf8 False True False"

definition char_bytes :: "u16 \<Rightarrow> u8 list" where
  "char_bytes ch =
     (if ch < 0x80 \<and> ch \<noteq> 0 then [ucast ch]
      else if ch < 0x800 then [ucast (drop_bit 6 ch OR 0xC0), ucast ((ch AND 0x3F) OR 0x80)]
      else [ucast (drop_bit 12 ch OR 0xE0), ucast ((drop_bit 6 ch AND 0x3F) OR 0x80), ucast ((ch AND 0x3F) OR 0x80)])"

definition pair_bytes :: "u16 \<Rightarrow> u16 \<Rightarrow> u8 list" where
  "pair_bytes l t =
     (let cp = get_supplementary l t
      in [ucast (drop_bit 18 cp OR 0xF0), ucast ((drop_bit 12 cp AND 0x3F) OR 0x80),
          ucast ((drop_bit 6 cp AND 0x3F) OR 0x80), ucast ((cp AND 0x3F) OR 0x80)])"

lemma chunk_induct [case_names Nil single pair]:
  assumes "P []"
    and "\<And>c s. \<not> (is_lead c \<and> has_trail s) \<Longrightarrow> P s \<Longrightarrow> P (c # s)"
    and "\<And>l t s. is_lead l \<Longrightarrow> is_trail t \<Longrightarrow> P s \<Longrightarrow> P (l # t # s)"
  shows "P s"
proof (induction s rule: length_induct)
  case (1 s)
  show ?case
  proof (cases s)
    case Nil with assms(1) show ?thesis by simp
  next
    case (Cons c r)
    show ?thesis
    proof (cases "is_lead c \<and> has_trail r")
      case True
      then obtain t r' where r: "r = t # r'" "is_trail t" by (auto simp: has_trail_def split: list.splits)
      with True Cons 1 assms(3) show ?thesis by simp
    next
      case False with Cons 1 assms(2) show ?thesis by simp
    qed
  qed
qed

lemma is_lead_large: "is_lead c \<Longrightarrow> \<not> c < 0x800 \<and> \<not> c < 0x80"
  by (auto simp: is_lead_iff word_less_nat_alt)

lemma mutf8_single: "\<not> (is_lead c \<and> has_trail s) \<Longrightarrow> mutf8 (c # s) = char_bytes c @ mutf8 s"
  by (auto simp: char_bytes_def)

lemma mutf8_pair: "is_lead l \<Longrightarrow> is_trail t \<Longrightarrow> mutf8 (l # t # s) = pair_bytes l t @ mutf8 s"
  using is_lead_large [of l] by (simp add: pair_bytes_def has_trail_def Let_def)

lemma Get_char_bytes: "GetUtf16FromUtf8 (char_bytes c @ r) = Some (ucast c, r)"
  unfolding char_bytes_def by (simp add: Get_1 Get_2 Get_3)

lemma Get_pair_bytes:
  "is_lead l \<Longrightarrow> is_trail t \<Longrightarrow>
   GetUtf16FromUtf8 (pair_bytes l t @ r) = Some (ucast l OR push_bit 16 (ucast t), r)"
  unfolding pair_bytes_def Let_def
  using Get_4 [OF surrogates_of_code_point(1)] surrogates_of_code_point(2) by simp

lemma is_trail_nonzero: "is_trail t \<Longrightarrow> t \<noteq> 0"
  by (auto simp: is_trail_iff)

definition lead_width :: "u8 \<Rightarrow> nat" where
  "lead_width b = (if \<not> bit b 7 then 1 else if \<not> bit b 5 then 2 else if \<not> bit b 4 then 3 else 4)"

lemma bit_7_nonzero: "bit (w :: u8) 7 \<Longrightarrow> w \<noteq> 0"
  by auto

lemma ucast_ascii_nonzero: "ch < 0x80 \<Longrightarrow> ch \<noteq> 0 \<Longrightarrow> (ucast (ch :: u16) :: u8) \<noteq> 0"
  by (auto simp: word_less_nat_alt unsigned_ucast_eq take_bit_nat_eq_self_iff simp flip: unat_eq_zero)
    (simp add: take_bit_nat_eq_self)

lemma char_bytes_head:
  obtains b bs where "char_bytes c = b # bs" "b \<noteq> 0" "0 \<notin> set bs" "lead_width b = Suc (length bs)" "length bs \<le> 2"
proof -
  consider "c < 0x80 \<and> c \<noteq> 0" | "\<not> (c < 0x80 \<and> c \<noteq> 0)" "c < 0x800" | "\<not> (c < 0x80 \<and> c \<noteq> 0)" "\<not> c < 0x800" by blast
  then show thesis
  proof cases
    case 1
    then have "\<not> bit c 7" by (simp add: less_80_bits)
    with 1 that [of "ucast c" "[]"] ucast_ascii_nonzero [of c] show ?thesis
      by (simp add: char_bytes_def lead_width_def bit_simps)
  next
    case 2
    then have "\<not> bit c 11" by (simp add: less_800_bits)
    show ?thesis
    proof (rule that)
      show "char_bytes c = ucast (drop_bit 6 c OR 0xC0) # [ucast ((c AND 0x3F) OR 0x80)]"
        using 2 by (auto simp: char_bytes_def)
    qed (use \<open>\<not> bit c 11\<close> in \<open>auto simp: lead_width_def bit_simps bit_consts intro!: bit_7_nonzero not_sym [OF bit_7_nonzero] simp del: bit_numeral_word_iff\<close>)
  next
    case 3
    have "\<not> bit c 16" using bit_imp_le_length [of c 16] by auto
    show ?thesis
    proof (rule that)
      show "char_bytes c = ucast (drop_bit 12 c OR 0xE0) # [ucast ((drop_bit 6 c AND 0x3F) OR 0x80), ucast ((c AND 0x3F) OR 0x80)]"
        using 3 by (auto simp: char_bytes_def)
    qed (use \<open>\<not> bit c 16\<close> in \<open>auto simp: lead_width_def bit_simps bit_consts intro!: bit_7_nonzero not_sym [OF bit_7_nonzero] simp del: bit_numeral_word_iff\<close>)
  qed
qed

lemma pair_bytes_head:
  obtains b bs where "pair_bytes l t = b # bs" "b \<noteq> 0" "0 \<notin> set bs" "lead_width b = Suc (length bs)" "length bs = 3"
proof (rule that)
  let ?cp = "get_supplementary l t"
  show "pair_bytes l t = ucast (drop_bit 18 ?cp OR 0xF0) # [ucast ((drop_bit 12 ?cp AND 0x3F) OR 0x80),
          ucast ((drop_bit 6 ?cp AND 0x3F) OR 0x80), ucast ((?cp AND 0x3F) OR 0x80)]"
    by (simp add: pair_bytes_def Let_def)
qed (auto simp: lead_width_def bit_simps bit_consts intro!: bit_7_nonzero not_sym [OF bit_7_nonzero] simp del: bit_numeral_word_iff)

subsection \<open>Decoding, counting, hashing and comparing an encoded string\<close>

lemma cstr_zero: "ConvertModifiedUtf8ToUtf16_cstr (0 # r) = Some []"
  by (subst ConvertModifiedUtf8ToUtf16_cstr.simps) simp

lemma cstr_step:
  assumes "bs = b # bs'" "b \<noteq> 0" "GetUtf16FromUtf8 (bs @ X) = Some (ch, X)"
  shows "ConvertModifiedUtf8ToUtf16_cstr (bs @ X) = map_option (\<lambda>out. pair_units ch @ out) (ConvertModifiedUtf8ToUtf16_cstr X)"
  using assms by (subst ConvertModifiedUtf8ToUtf16_cstr.simps) simp

lemma cstr_mutf8: "ConvertModifiedUtf8ToUtf16_cstr (mutf8 s @ 0 # r) = Some s"
proof (induction s rule: chunk_induct)
  case Nil then show ?case by (simp add: cstr_zero)
next
  case (single c s)
  obtain b bs where "char_bytes c = b # bs" "b \<noteq> 0" by (rule char_bytes_head)
  from cstr_step [OF this Get_char_bytes] single show ?case by (simp add: mutf8_single del: ConvertUtf16ToUtf8.simps)
next
  case (pair l t s)
  obtain b bs where "pair_bytes l t = b # bs" "b \<noteq> 0" by (rule pair_bytes_head)
  from cstr_step [OF this Get_pair_bytes] pair show ?case
    by (simp add: mutf8_pair pair_units_pair is_trail_nonzero del: ConvertUtf16ToUtf8.simps)
qed

lemma conv_loop_step:
  assumes "bs \<noteq> []" "GetUtf16FromUtf8 (bs @ X) = Some (ch, X)"
  shows "ConvertModifiedUtf8ToUtf16_loop (bs @ X) (length bs + n) = map_option (\<lambda>out. pair_units ch @ out) (ConvertModifiedUtf8ToUtf16_loop X n)"
  using assms by (subst ConvertModifiedUtf8ToUtf16_loop.simps) simp

lemma char_bytes_nonempty [simp]: "char_bytes c \<noteq> []" "pair_bytes l t \<noteq> []"
  by (simp_all add: char_bytes_def pair_bytes_def Let_def)

declare ConvertUtf16ToUtf8.simps(2) [simp del]

lemma conv_loop_mutf8: "ConvertModifiedUtf8ToUtf16_loop (mutf8 s @ r) (length (mutf8 s)) = Some s"
proof (induction s rule: chunk_induct)
  case Nil then show ?case by (subst ConvertModifiedUtf8ToUtf16_loop.simps) simp
next
  case (single c s)
  then show ?case by (simp add: mutf8_single conv_loop_step Get_char_bytes)
next
  case (pair l t s)
  then show ?case by (simp add: mutf8_pair conv_loop_step Get_pair_bytes pair_units_pair is_trail_nonzero)
qed

lemma length_char_bytes: "length (char_bytes c) = 1 \<longleftrightarrow> c < 0x80 \<and> c \<noteq> 0" "1 \<le> length (char_bytes c)"
  by (auto simp: char_bytes_def)

lemma length_pair_bytes [simp]: "length (pair_bytes l t) = 4"
  by (simp add: pair_bytes_def Let_def)

lemma length_mutf8: "length s \<le> length (mutf8 s) \<and> (length (mutf8 s) = length s \<longleftrightarrow> (\<forall>c\<in>set s. c < 0x80 \<and> c \<noteq> 0))"
proof (induction s rule: chunk_induct)
  case (single c s)
  then show ?case using length_char_bytes [of c] by (auto simp: mutf8_single)
next
  case (pair l t s)
  then show ?case using is_lead_large [of l] by (auto simp: mutf8_pair)
qed simp

lemma mutf8_ascii: "\<forall>c\<in>set s. c < 0x80 \<and> c \<noteq> 0 \<Longrightarrow> mutf8 s = map ucast s"
  by (induction s) (auto simp: ConvertUtf16ToUtf8.simps)

lemma scast_ucast_ascii: "c < 0x80 \<Longrightarrow> scast (ucast (c :: u16) :: u8) = c"
proof -
  assume "c < 0x80"
  then have n: "7 \<le> n \<Longrightarrow> \<not> bit c n" for n by (simp add: less_80_bits)
  show ?thesis 
  proof (rule bit_word_eqI)
    fix n
    show "bit (scast (ucast c :: u8) :: u16) n = bit c n"
      using n [of n] n [of 7] by (cases "7 \<le> n") (auto simp: bit_simps)
  qed
qed

lemma Convert_counted_mutf8: "ConvertModifiedUtf8ToUtf16 (length s) (mutf8 s @ r) (length (mutf8 s)) = Some s"
proof (cases "length (mutf8 s) = length s")
  case True
  then have "\<forall>c\<in>set s. c < 0x80 \<and> c \<noteq> 0" using length_mutf8 by blast
  with True show ?thesis
    by (simp add: ConvertModifiedUtf8ToUtf16_def mutf8_ascii scast_ucast_ascii map_idI)
next
  case False then show ?thesis by (simp add: ConvertModifiedUtf8ToUtf16_def conv_loop_mutf8)
qed

lemma ConvertUtf16ToModifiedUtf8_mutf8: "ConvertUtf16ToModifiedUtf8 (CountModifiedUtf8BytesInUtf16 s) s = mutf8 s"
  using length_mutf8 [of s] mutf8_ascii [of s]
  by (auto simp: ConvertUtf16ToModifiedUtf8_def CountModifiedUtf8BytesInUtf16_def)

lemma no_zero_mutf8: "0 \<notin> set (mutf8 s)"
proof (induction s rule: chunk_induct)
  case (single c s)
  obtain b bs where "char_bytes c = b # bs" "b \<noteq> 0" "0 \<notin> set bs" by (rule char_bytes_head)
  with single show ?case by (auto simp: mutf8_single)
next
  case (pair l t s)
  obtain b bs where "pair_bytes l t = b # bs" "b \<noteq> 0" "0 \<notin> set bs" by (rule pair_bytes_head)
  with pair show ?case by (auto simp: mutf8_pair)
qed simp

lemma strlen_mutf8: "strlen (mutf8 s @ 0 # r) = Some (length (mutf8 s))"
proof -
  have "takeWhile (\<lambda>b. b \<noteq> 0) (mutf8 s @ 0 # r) = mutf8 s"
    using no_zero_mutf8 [of s] by (subst takeWhile_append2) auto
  then show ?thesis by (simp add: strlen_def)
qed

lemma utf_count_step:
  assumes "p < length xs" "p < e"
  shows "CountModifiedUtf8Chars_loop xs p e len =
     CountModifiedUtf8Chars_loop xs (p + lead_width (xs ! p)) e (len + (if lead_width (xs ! p) = 4 then 2 else 1))"
  using assms by (subst CountModifiedUtf8Chars_loop.simps)
    (simp add: utf_masks lead_width_def Let_def)

lemma utf_count_chunk:
  assumes "bs = b # bs'" "lead_width b = length bs"
  shows "CountModifiedUtf8Chars_loop (pre @ bs @ X) (length pre) (length pre + length bs + n) len =
     CountModifiedUtf8Chars_loop ((pre @ bs) @ X) (length (pre @ bs)) (length (pre @ bs) + n)
       (len + (if length bs = 4 then 2 else 1))"
  using assms by (subst utf_count_step) (simp_all add: nth_append)

lemma count_mutf8: "CountModifiedUtf8Chars_loop (pre @ mutf8 s @ r) (length pre) (length pre + length (mutf8 s)) len = Some (len + length s)"
proof (induction s arbitrary: pre len rule: chunk_induct)
  case Nil then show ?case by (subst CountModifiedUtf8Chars_loop.simps) simp
next
  case (single c s)
  obtain b bs where b: "char_bytes c = b # bs" "lead_width b = Suc (length bs)" "length bs \<le> 2" by (rule char_bytes_head)
  then have "lead_width b = length (char_bytes c)" "length (char_bytes c) \<noteq> 4" by auto
  with utf_count_chunk [OF b(1), of pre "mutf8 s @ r" "length (mutf8 s)" len]
    single.IH [of "pre @ char_bytes c" "Suc len"] single.hyps
  show ?case by (simp add: mutf8_single add.assoc)
next
  case (pair l t s)
  obtain b bs where b: "pair_bytes l t = b # bs" "lead_width b = Suc (length bs)" "length bs = 3" by (rule pair_bytes_head)
  then have "lead_width b = length (pair_bytes l t)" by simp
  with utf_count_chunk [OF b(1), of pre "mutf8 s @ r" "length (mutf8 s)" len]
    pair.IH [of "pre @ pair_bytes l t" "len + 2"] pair.hyps
  show ?case by (simp add: mutf8_pair add.assoc)
qed

lemma Count_mutf8: "CountModifiedUtf8Chars (mutf8 s @ r) (length (mutf8 s)) = Some (length s) \<and> CountModifiedUtf8Chars_cstr (mutf8 s @ 0 # r) = Some (length s)"
  using count_mutf8 [of "[]" s _ 0] by (simp add: CountModifiedUtf8Chars_def CountModifiedUtf8Chars_cstr_def strlen_mutf8)

lemma GetLeading_single [simp]: "GetLeadingUtf16Char (ucast (c :: u16)) = c" "GetTrailingUtf16Char (ucast (c :: u16)) = 0"
  using pair_units_single [of c] by (auto simp: pair_units_def Let_def split: if_splits)

lemma GetLeading_pair: 
  assumes "t \<noteq> 0"
  shows "GetLeadingUtf16Char (ucast (l :: u16) OR push_bit 16 (ucast (t :: u16))) = l" 
    "GetTrailingUtf16Char (ucast (l :: u16) OR push_bit 16 (ucast (t :: u16))) = t" 
  using pair_units_pair [OF assms, of l] assms by (auto simp: pair_units_def Let_def split: if_splits)

lemma of_nat_u64_nonzero: "0 < n \<Longrightarrow> n < 2 ^ 64 \<Longrightarrow> of_nat n \<noteq> (0 :: u64)"
proof -
  assume "0 < n" "n < 2 ^ 64"
  then have "unat (of_nat n :: u64) \<noteq> 0" by (simp add: unsigned_of_nat take_bit_nat_eq_self)
  then show ?thesis by (metis unsigned_0)
qed

lemma hash_loop_mutf8:
  "length s < 2 ^ 64 \<Longrightarrow> ComputeUtf16HashFromModifiedUtf8_loop (mutf8 s @ r) (of_nat (length s)) h = 
   Some (foldl (\<lambda>hash c. hash * 31 + ucast c) h s)"
proof (induction s arbitrary: h rule: chunk_induct)
  case Nil then show ?case by (subst ComputeUtf16HashFromModifiedUtf8_loop.simps) simp
next
  case (single c s)
  have "of_nat (length (c # s)) \<noteq> (0 :: u64)"
    using single.prems by (intro of_nat_u64_nonzero) simp_all
  with single show ?case
    by (subst ComputeUtf16HashFromModifiedUtf8_loop.simps) (simp add: mutf8_single Get_char_bytes Let_def)
next
  case (pair l t s)
  have "of_nat (length (l # t # s)) \<noteq> (0 :: u64)"
    using pair.prems by (intro of_nat_u64_nonzero) simp_all
  with pair show ?case
    by (subst ComputeUtf16HashFromModifiedUtf8_loop.simps) (simp add: mutf8_pair Get_pair_bytes Let_def GetLeading_pair is_trail_nonzero)
qed


text \<open>The lexicographic order on UTF-16 code units, as a three-way comparison.\<close>

fun lexcmp :: "u16 list \<Rightarrow> u16 list \<Rightarrow> int" where
  "lexcmp [] [] = 0"
| "lexcmp [] (y # ys) = - 1"
| "lexcmp (x # xs) [] = 1"
| "lexcmp (x # xs) (y # ys) = (if x = y then lexcmp xs ys else if x > y then 1 else - 1)"

lemma lexcmp_0: "lexcmp xs ys = 0 \<longleftrightarrow> xs = ys"
  by (induction xs ys rule: lexcmp.induct) auto

lemma cmp16_mutf8: "CompareModifiedUtf8ToUtf16AsCodePointValues (mutf8 s @ 0 # r) u = Some (lexcmp s u)"
proof (induction s arbitrary: u rule: chunk_induct)
  case Nil
  then show ?case by (subst CompareModifiedUtf8ToUtf16AsCodePointValues.simps) (cases u; simp)
next
  case (single c s)
  obtain b bs where b: "char_bytes c = b # bs" "b \<noteq> 0" by (rule char_bytes_head)
  from Get_char_bytes [of c "mutf8 s @ 0 # r"] b single show ?case
    by (subst CompareModifiedUtf8ToUtf16AsCodePointValues.simps) (cases u; simp add: mutf8_single Let_def)
next
  case (pair l t s)
  obtain b bs where b: "pair_bytes l t = b # bs" "b \<noteq> 0" by (rule pair_bytes_head)
  from Get_pair_bytes [of l t "mutf8 s @ 0 # r"] b pair is_trail_nonzero [of t] show ?case
    by (subst CompareModifiedUtf8ToUtf16AsCodePointValues.simps)
      (cases u rule: lexcmp.cases [of "(_, u)" for u]; simp add: mutf8_pair Let_def GetLeading_pair split: list.splits)
qed

fun utf16_paired :: "u16 list \<Rightarrow> bool" where
  "utf16_paired [] = True"
| "utf16_paired (c # s) = ((is_lead c \<longrightarrow> has_trail s) \<and> utf16_paired s)"

subsection \<open>Comparing two encoded strings\<close>

abbreviation cmp8 :: "u8 list \<Rightarrow> u8 list \<Rightarrow> int option" where
  "cmp8 \<equiv> CompareModifiedUtf8ToModifiedUtf8AsUtf16CodePointValues"

lemma cmp8_step:
  assumes "xs = b # xs'" "b \<noteq> 0" "ys = c # ys'" "c \<noteq> 0"
    "GetUtf16FromUtf8 xs = Some (ch, X)" "GetUtf16FromUtf8 ys = Some (ch', Y)"
  shows "cmp8 xs ys = (if ch = ch' then cmp8 X Y else
     Some (if GetLeadingUtf16Char ch \<noteq> GetLeadingUtf16Char ch'
       then uint (GetLeadingUtf16Char ch) - uint (GetLeadingUtf16Char ch')
       else uint (GetTrailingUtf16Char ch) - uint (GetTrailingUtf16Char ch')))"
  using assms by (subst CompareModifiedUtf8ToModifiedUtf8AsUtf16CodePointValues.simps) (simp add: Let_def word_uint_eq_iff)

lemma uint_diff_sgn: "sgn (uint a - uint b) = (if a = b then 0 else if a > b then 1 else (-1 :: int))"
  by (auto simp: sgn_if word_less_def word_uint_eq_iff)


text \<open>The first encoded character of a non-empty string.\<close>

definition chunk :: "u16 list \<Rightarrow> u8 list \<Rightarrow> u32 \<Rightarrow> u16 list \<Rightarrow> bool" where
  "chunk s B ch s' \<longleftrightarrow> s = pair_units ch @ s' \<and> mutf8 s = B @ mutf8 s' \<and> B \<noteq> [] \<and> hd B \<noteq> 0 \<and>
     (\<forall>X. GetUtf16FromUtf8 (B @ X) = Some (ch, X)) \<and>
     (if GetTrailingUtf16Char ch = 0 then \<not> (is_lead (GetLeadingUtf16Char ch) \<and> has_trail s')
      else is_lead (GetLeadingUtf16Char ch))"

lemma hd_char_bytes: "hd (char_bytes c) \<noteq> 0"
  by (rule char_bytes_head [of c]) simp

lemma hd_pair_bytes: "hd (pair_bytes l t) \<noteq> 0"
  by (rule pair_bytes_head [of l t]) simp

lemma chunk_single: "\<not> (is_lead c \<and> has_trail s) \<Longrightarrow> chunk (c # s) (char_bytes c) (ucast c) s"
  using hd_char_bytes [of c] by (simp add: chunk_def mutf8_single Get_char_bytes)

lemma chunk_pair: "is_lead l \<Longrightarrow> is_trail t \<Longrightarrow>
  chunk (l # t # s) (pair_bytes l t) (ucast l OR push_bit 16 (ucast t)) s"
  using hd_pair_bytes [of l t]
  by (simp add: chunk_def mutf8_pair Get_pair_bytes pair_units_pair GetLeading_pair is_trail_nonzero)

lemma chunk_exists: "s \<noteq> [] \<Longrightarrow> \<exists>B ch s'. chunk s B ch s'"
  by (induction s rule: chunk_induct) (blast intro: chunk_single chunk_pair)+

lemma utf16_char_eqI:
  assumes "GetLeadingUtf16Char ch = GetLeadingUtf16Char ch'" "GetTrailingUtf16Char ch = GetTrailingUtf16Char ch'"
  shows "ch = ch'"
proof (rule bit_word_eqI)
  fix n assume "n < LENGTH(32)"
  have "bit ch n = (if n < 16 then bit (GetLeadingUtf16Char ch) n else bit (GetTrailingUtf16Char ch) (n - 16))" if "n < 32" for ch
    using that by (auto simp: GetLeadingUtf16Char_def GetTrailingUtf16Char_def utf_masks bit_simps)
  with \<open>n < LENGTH(32)\<close> assms show "bit ch n = bit ch' n" by simp
qed

definition char_diff :: "u32 \<Rightarrow> u32 \<Rightarrow> int" where
  "char_diff ch ch' = (if GetLeadingUtf16Char ch \<noteq> GetLeadingUtf16Char ch'
     then uint (GetLeadingUtf16Char ch) - uint (GetLeadingUtf16Char ch')
     else uint (GetTrailingUtf16Char ch) - uint (GetTrailingUtf16Char ch'))"

lemma chunk_lexcmp_eq: "chunk s B ch s' \<Longrightarrow> chunk u C ch u' \<Longrightarrow> lexcmp s u = lexcmp s' u'"
  by (simp add: chunk_def pair_units_def Let_def)

lemma chunk_lexcmp_neq:
  assumes "chunk s B ch s'" "chunk u C ch' u'" "utf16_paired s" "utf16_paired u" "ch \<noteq> ch'"
  shows "lexcmp s u = sgn (char_diff ch ch')"
proof (cases "GetLeadingUtf16Char ch = GetLeadingUtf16Char ch'")
  case True
  then have "GetTrailingUtf16Char ch \<noteq> GetTrailingUtf16Char ch'" using assms(5) utf16_char_eqI by blast
  with True assms(1-4) show ?thesis
    by (auto simp: chunk_def pair_units_def Let_def char_diff_def uint_diff_sgn split: if_splits)
next
  case False
  with assms(1,2) show ?thesis
    by (auto simp: chunk_def pair_units_def Let_def char_diff_def uint_diff_sgn)
qed

lemma cmp8_chunk:
  assumes "chunk s B ch s'" "chunk u C ch' u'"
  shows "cmp8 (mutf8 s @ 0 # r) (mutf8 u @ 0 # q) =
    (if ch = ch' then cmp8 (mutf8 s' @ 0 # r) (mutf8 u' @ 0 # q) else Some (char_diff ch ch'))"
proof -
  have m: "mutf8 s = B @ mutf8 s'" "mutf8 u = C @ mutf8 u'" and h: "hd B \<noteq> 0" "hd C \<noteq> 0"
    and g: "\<And>X. GetUtf16FromUtf8 (B @ X) = Some (ch, X)" "\<And>X. GetUtf16FromUtf8 (C @ X) = Some (ch', X)"
    and "B \<noteq> []" "C \<noteq> []"
    using assms unfolding chunk_def by blast+
  have "B @ mutf8 s' @ 0 # r = hd B # tl B @ mutf8 s' @ 0 # r" "C @ mutf8 u' @ 0 # q = hd C # tl C @ mutf8 u' @ 0 # q"
    using \<open>B \<noteq> []\<close> \<open>C \<noteq> []\<close> by simp_all
  from cmp8_step [OF this(1) h(1) this(2) h(2) g] show ?thesis by (simp add: m char_diff_def)
qed

lemma cmp8_Nil:
  "cmp8 (0 # r) (mutf8 u @ 0 # q) = Some (if u = [] then 0 else - 1)"
  "u \<noteq> [] \<Longrightarrow> cmp8 (mutf8 u @ 0 # q) (0 # r) = Some 1"
proof -
  have "u \<noteq> [] \<Longrightarrow> mutf8 u \<noteq> [] \<and> hd (mutf8 u) \<noteq> 0" using chunk_exists [of u] by (auto simp: chunk_def)
  then show "cmp8 (0 # r) (mutf8 u @ 0 # q) = Some (if u = [] then 0 else - 1)"
    "u \<noteq> [] \<Longrightarrow> cmp8 (mutf8 u @ 0 # q) (0 # r) = Some 1"
    by (subst CompareModifiedUtf8ToModifiedUtf8AsUtf16CodePointValues.simps; cases "mutf8 u"; cases "u = []"; simp)+
qed

lemma cmp8_mutf8:
  "utf16_paired s \<Longrightarrow> utf16_paired u \<Longrightarrow>
   \<exists>d. cmp8 (mutf8 s @ 0 # r) (mutf8 u @ 0 # q) = Some d \<and> sgn d = lexcmp s u"
proof (induction s arbitrary: u rule: length_induct)
  case (1 s)
  show ?case
  proof (cases "s = [] \<or> u = []")
    case True
    then show ?thesis by (cases s; cases u) (auto simp: cmp8_Nil cmp8_Nil(1) [of _ "[]", simplified])
  next
    case False
    then obtain B ch s' C ch' u' where c: "chunk s B ch s'" "chunk u C ch' u'"
      by (metis chunk_exists)
    then have p: "utf16_paired s'" "utf16_paired u'" "length s' < length s"
      using "1.prems" by (auto simp: chunk_def pair_units_def Let_def split: if_splits)
    show ?thesis
      using cmp8_chunk [OF c] chunk_lexcmp_eq [OF c(1)] chunk_lexcmp_neq [OF c "1.prems"] c "1.IH" p
      by (cases "ch = ch'") auto
  qed
qed


subsection \<open>Printable strings\<close>

abbreviation printable :: "u8 \<Rightarrow> bool" where "printable b \<equiv> 0x20 \<le> b \<and> b \<le> 0x7E"

lemma printable_hex_digit: "d < 16 \<Longrightarrow> printable (hex_digit d)"
  by (auto simp: hex_digit_def word_le_nat_alt word_less_nat_alt unat_word_ariths unsigned_ucast_eq
      take_bit_nat_eq_self)

lemma printable_format_04x: "list_all printable (format_04x v)"
proof -
  have "take_bit 4 w < (16 :: u16)" for w :: u16
    using take_bit_nat_less_exp [of 4 "unat w"] by (simp add: word_less_nat_alt unsigned_take_bit_eq)
  moreover have "drop_bit 12 v < 16"
    using unsigned_less [of v, where 'a = nat] by (simp add: word_less_nat_alt unat_drop_bit_div del: drop_bit_eq_div)
  ultimately show ?thesis by (simp add: format_04x_def printable_hex_digit utf_masks)
qed

lemma printable_ucast: "\<not> NeedsEscaping ch \<Longrightarrow> printable (ucast ch)"
  by (auto simp: NeedsEscaping_def word_less_nat_alt word_le_nat_alt not_less unsigned_ucast_eq take_bit_nat_eq_self)

definition print_char :: "u32 \<Rightarrow> u8 list" where
  "print_char ch =
     (if ch = 0x5C then [0x5C, 0x5C] else if ch = 0x0A then [0x5C, 0x6E]
      else if ch = 0x0D then [0x5C, 0x72] else if ch = 0x09 then [0x5C, 0x74]
      else (if NeedsEscaping (GetLeadingUtf16Char ch) then [0x5C, 0x75] @ format_04x (GetLeadingUtf16Char ch)
            else [ucast (GetLeadingUtf16Char ch)]) @
           (if GetTrailingUtf16Char ch \<noteq> 0 then [0x5C, 0x75] @ format_04x (GetTrailingUtf16Char ch) else []))"

lemma printable_print_char: "list_all printable (print_char ch)"
  using printable_format_04x [of "GetLeadingUtf16Char ch"] printable_format_04x [of "GetTrailingUtf16Char ch"]
    printable_ucast [of "GetLeadingUtf16Char ch"]
  by (simp add: print_char_def)

lemma ascii_no_trail: "ch < 0x10000 \<Longrightarrow> GetTrailingUtf16Char ch = 0"
proof -
  assume "ch < 0x10000"
  then have "drop_bit 16 ch = 0" by (simp add: drop_bit_eq_0_iff_less word_less_nat_alt)
  then show ?thesis by (simp only: GetTrailingUtf16Char_def) simp
qed

lemma PrintableString_loop_step:
  assumes "0 < n" "GetUtf16FromUtf8 p = Some (ch, q)"
  shows "PrintableString_loop p n =
    map_option (\<lambda>out. print_char ch @ out) (PrintableString_loop q (n - length (pair_units ch)))"
proof -
  consider "ch = 0x5C" | "ch = 0x0A" | "ch = 0x0D" | "ch = 0x09" | "ch \<noteq> 0x5C" "ch \<noteq> 0x0A" "ch \<noteq> 0x0D" "ch \<noteq> 0x09"
    by blast
  then show ?thesis
  proof cases
    case 5
    then show ?thesis using assms
      by (subst PrintableString_loop.simps; cases "PrintableString_loop q (n - 2)")
         (simp_all add: print_char_def pair_units_def Let_def numeral_2_eq_2)
  qed (use assms in \<open>(subst PrintableString_loop.simps, simp add: print_char_def pair_units_def ascii_no_trail Let_def)+\<close>)
qed

lemma PrintableString_loop_mutf8:
  "\<exists>out. PrintableString_loop (mutf8 s @ X) (length s) = Some out \<and> list_all printable out"
proof (induction s rule: length_induct)
  case (1 s)
  show ?case
  proof (cases "s = []")
    case True then show ?thesis by (subst PrintableString_loop.simps) simp
  next
    case False
    then obtain B ch s' where c: "chunk s B ch s'" using chunk_exists by blast
    then have s: "s = pair_units ch @ s'" and m: "mutf8 s = B @ mutf8 s'"
      and g: "\<And>X. GetUtf16FromUtf8 (B @ X) = Some (ch, X)" unfolding chunk_def by blast+
    have l: "0 < length s" "length s - length (pair_units ch) = length s'" "length s' < length s"
      by (simp_all add: s pair_units_def Let_def)
    from "1.IH" l(3) obtain out where "PrintableString_loop (mutf8 s' @ X) (length s') = Some out" "list_all printable out"
      by blast
    with PrintableString_loop_step [OF l(1) g, of "mutf8 s' @ X"] l(2) printable_print_char [of ch] show ?thesis
      by (simp add: m)
  qed
qed

subsection \<open>Properties\<close>

text \<open>
  C5: every UTF-16 string written by \<^verbatim>\<open>ConvertUtf16ToModifiedUtf8\<close>, with the byte count of
  \<^verbatim>\<open>CountModifiedUtf8BytesInUtf16\<close>, is read back unchanged by both overloads of
  \<^verbatim>\<open>ConvertModifiedUtf8ToUtf16\<close>, their ASCII fast paths included.
\<close>

theorem ModifiedUtf8_roundtrip:
  "let bytes = ConvertUtf16ToModifiedUtf8 (CountModifiedUtf8BytesInUtf16 s) s in
     ConvertModifiedUtf8ToUtf16_cstr (bytes @ 0 # rest) = Some s \<and>
     ConvertModifiedUtf8ToUtf16 (length s) (bytes @ rest) (length bytes) = Some s"
  by (simp add: ConvertUtf16ToModifiedUtf8_mutf8 cstr_mutf8 Convert_counted_mutf8 Let_def)

text \<open>
  C14: on an encoded string both overloads of \<^verbatim>\<open>CountModifiedUtf8Chars\<close> return the number of UTF-16
  code units, \<^verbatim>\<open>CountModifiedUtf8BytesInUtf16\<close> returns the number of bytes written, and the bytes
  contain no zero byte, so that the terminator is where it was put.
\<close>

theorem ModifiedUtf8_counts:
  "let bytes = ConvertUtf16ToModifiedUtf8 (CountModifiedUtf8BytesInUtf16 s) s in
     CountModifiedUtf8Chars (bytes @ rest) (length bytes) = Some (length s) \<and>
     CountModifiedUtf8Chars_cstr (bytes @ 0 # rest) = Some (length s) \<and>
     CountModifiedUtf8BytesInUtf16 s = length bytes \<and> 0 \<notin> set bytes"
  using Count_mutf8 [of s rest] no_zero_mutf8 [of s]
  by (simp add: ConvertUtf16ToModifiedUtf8_mutf8 Let_def) (simp add: CountModifiedUtf8BytesInUtf16_def)

text \<open>
  C15: the hash computed from the modified UTF-8 form and the character count is the hash of the
  UTF-16 string.
\<close>

theorem ComputeUtf16Hash_from_ModifiedUtf8:
  assumes "length s < 2 ^ 64"
  shows "ComputeUtf16HashFromModifiedUtf8 (ConvertUtf16ToModifiedUtf8 (CountModifiedUtf8BytesInUtf16 s) s @ rest)
           (of_nat (length s)) = Some (ComputeUtf16Hash s)"
  using hash_loop_mutf8 [OF assms]
  by (simp add: ConvertUtf16ToModifiedUtf8_mutf8 ComputeUtf16HashFromModifiedUtf8_def ComputeUtf16Hash_def)

theorem ComputeUtf16Hash_from_ModifiedUtf8_witness:
  "length [0x41, 0xD800, 0xDC00, 0 :: u16] < 2 ^ 64 \<and>
   ComputeUtf16HashFromModifiedUtf8
     (ConvertUtf16ToModifiedUtf8 (CountModifiedUtf8BytesInUtf16 [0x41, 0xD800, 0xDC00, 0]) [0x41, 0xD800, 0xDC00, 0] @ [])
     (of_nat (length [0x41, 0xD800, 0xDC00, 0 :: u16])) = Some (ComputeUtf16Hash [0x41, 0xD800, 0xDC00, 0])"
  using ComputeUtf16Hash_from_ModifiedUtf8 [of "[0x41, 0xD800, 0xDC00, 0]" "[]"] by simp

text \<open>
  C16: comparing a modified UTF-8 string with a UTF-16 string is the lexicographic comparison of the
  UTF-16 code units; in particular the result is 0 exactly on equal strings.
\<close>

theorem CompareModifiedUtf8ToUtf16_lexicographic:
  "CompareModifiedUtf8ToUtf16AsCodePointValues
     (ConvertUtf16ToModifiedUtf8 (CountModifiedUtf8BytesInUtf16 s) s @ 0 # rest) u = Some (lexcmp s u) \<and>
   (lexcmp s u = 0 \<longleftrightarrow> s = u)"
  by (simp add: ConvertUtf16ToModifiedUtf8_mutf8 cmp16_mutf8 lexcmp_0)

text \<open>
  C17: comparing two modified UTF-8 strings returns, and on strings in which every lead surrogate is
  followed by a trail surrogate the sign of the result is the lexicographic comparison of the UTF-16
  code units.
\<close>

theorem CompareModifiedUtf8ToModifiedUtf8_lexicographic:
  assumes "utf16_paired s" "utf16_paired u"
  shows "\<exists>d. CompareModifiedUtf8ToModifiedUtf8AsUtf16CodePointValues
      (ConvertUtf16ToModifiedUtf8 (CountModifiedUtf8BytesInUtf16 s) s @ 0 # r)
      (ConvertUtf16ToModifiedUtf8 (CountModifiedUtf8BytesInUtf16 u) u @ 0 # q) = Some d \<and> sgn d = lexcmp s u"
  using cmp8_mutf8 [OF assms] by (simp add: ConvertUtf16ToModifiedUtf8_mutf8)

theorem CompareModifiedUtf8ToModifiedUtf8_lexicographic_witness:
  "utf16_paired [0xD800, 0xDC00] \<and> utf16_paired [0xE000] \<and>
   (\<exists>d. CompareModifiedUtf8ToModifiedUtf8AsUtf16CodePointValues
      (ConvertUtf16ToModifiedUtf8 (CountModifiedUtf8BytesInUtf16 [0xD800, 0xDC00]) [0xD800, 0xDC00] @ 0 # [])
      (ConvertUtf16ToModifiedUtf8 (CountModifiedUtf8BytesInUtf16 [0xE000]) [0xE000] @ 0 # []) = Some d \<and>
    sgn d = lexcmp [0xD800, 0xDC00] [0xE000])"
proof -
  have "utf16_paired [0xD800, 0xDC00]" "utf16_paired [0xE000]" by code_simp+
  with CompareModifiedUtf8ToModifiedUtf8_lexicographic [of "[0xD800, 0xDC00]" "[0xE000]" "[]" "[]"]
  show ?thesis by blast
qed

text \<open>
  C18: \<^verbatim>\<open>PrintableString\<close> returns for every encoded string, and every byte it emits is a printable ASCII
  character.
\<close>

theorem PrintableString_printable:
  "\<exists>out. PrintableString (ConvertUtf16ToModifiedUtf8 (CountModifiedUtf8BytesInUtf16 s) s @ 0 # rest) = Some out \<and>
     set out \<subseteq> {0x20 .. 0x7E}"
proof -
  obtain out where "PrintableString_loop (mutf8 s @ 0 # rest) (length s) = Some out" "list_all printable out"
    using PrintableString_loop_mutf8 by blast
  then show ?thesis
    using Count_mutf8 [of s rest]
    by (auto simp: ConvertUtf16ToModifiedUtf8_mutf8 PrintableString_def list_all_iff)
qed

end
