(* ===== verification/Float64.thy ===== *)
theory Float64
  imports Art_Prelude Complex_Main "HOL-Library.Log_Nat"
begin

text \<open>
  The C++ type \<^verbatim>\<open>double\<close> as far as the sources use it: a value is the rational number it denotes, and
  every arithmetic operation returns the exact result rounded to 53 significant bits, ties to even.
  The exponent is not bounded, because the operands are table sizes and load factors.  Conversion to
  \<^verbatim>\<open>size_t\<close> truncates.
\<close>

definition round_even :: "rat \<Rightarrow> int" where
  "round_even x = (let f = \<lfloor>x\<rfloor>; r = x - of_int f in
     if r < 1 / 2 then f else if r > 1 / 2 then f + 1 else if even f then f else f + 1)"

definition ilog2 :: "rat \<Rightarrow> int" where
  "ilog2 q = (let (n, d) = quotient_of q; k = int (floorlog 2 (nat n)) - int (floorlog 2 (nat d)) in
     if 2 powi k \<le> q then k else k - 1)"

definition dbl :: "rat \<Rightarrow> rat" where
  "dbl q = (if q \<le> 0 then 0 else
     let ulp = 2 powi (ilog2 q - 52) in of_int (round_even (q / ulp)) * ulp)"

definition dbl_of_nat :: "nat \<Rightarrow> rat" where
  "dbl_of_nat n = dbl (of_nat n)"

definition dbl_mult :: "rat \<Rightarrow> rat \<Rightarrow> rat" where
  "dbl_mult x y = dbl (x * y)"

definition dbl_div :: "rat \<Rightarrow> rat \<Rightarrow> rat" where
  "dbl_div x y = dbl (x / y)"

definition nat_of_dbl :: "rat \<Rightarrow> nat" where
  "nat_of_dbl x = nat \<lfloor>x\<rfloor>"

lemma round_even_error: "\<bar>of_int (round_even x) - x\<bar> \<le> 1 / 2"
  unfolding round_even_def Let_def abs_le_iff by (simp add: not_less) linarith

lemma round_even_mono: "x \<le> y \<Longrightarrow> round_even x \<le> round_even y"
proof -
  assume "x \<le> y"
  then have "\<lfloor>x\<rfloor> \<le> \<lfloor>y\<rfloor>" by (rule floor_mono)
  then consider "\<lfloor>x\<rfloor> = \<lfloor>y\<rfloor>" | "\<lfloor>x\<rfloor> + 1 \<le> \<lfloor>y\<rfloor>" by linarith
  then show ?thesis
  proof cases
    case 1
    with \<open>x \<le> y\<close> show ?thesis by (simp add: round_even_def Let_def)
  next
    case 2
    have "round_even x \<le> \<lfloor>x\<rfloor> + 1" "\<lfloor>y\<rfloor> \<le> round_even y"
      by (simp_all add: round_even_def Let_def)
    with 2 show ?thesis by linarith
  qed
qed

lemma round_even_of_int [simp]: "round_even (of_int k) = k"
  by (simp add: round_even_def Let_def)

lemma floorlog_2_bounds: "0 < n \<Longrightarrow> 2 powi (int (floorlog 2 n) - 1) \<le> (of_nat n :: rat) \<and> (of_nat n :: rat) < 2 powi int (floorlog 2 n)"
proof -
  assume n: "0 < n"
  obtain k where k: "floorlog 2 n = Suc k" using n by (metis floorlog_eq_zero_iff gr0_conv_Suc gr0I numeral_le_one_iff not_le one_less_numeral_iff semiring_norm(69,76) less_irrefl_nat)
  from floorlog_bounds [of n 2] n k have "2 ^ k \<le> n" "n < 2 ^ Suc k" by simp_all
  then have "(of_nat (2 ^ k) :: rat) \<le> of_nat n" "(of_nat n :: rat) < of_nat (2 ^ Suc k)"
    by (simp_all only: of_nat_le_iff of_nat_less_iff)
  then show ?thesis by (simp add: k power_int_def nat_add_distrib)
qed

lemma ilog2_bounds:
  assumes "0 < q"
  shows "2 powi ilog2 q \<le> q" "q < 2 powi (ilog2 q + 1)"
proof -
  obtain n d where nd: "quotient_of q = (n, d)" by (cases "quotient_of q")
  have d: "0 < d" using quotient_of_denom_pos [OF nd] .
  have q: "q = of_int n / of_int d" using quotient_of_div [OF nd] .
  with assms d have n: "0 < n" by (simp add: zero_less_divide_iff)
  define a b where "a = int (floorlog 2 (nat n))" and "b = int (floorlog 2 (nat d))"
  have n': "2 powi (a - 1) \<le> (of_int n :: rat)" "(of_int n :: rat) < 2 powi a"
    using floorlog_2_bounds [of "nat n"] n by (simp_all add: a_def)
  have d': "2 powi (b - 1) \<le> (of_int d :: rat)" "(of_int d :: rat) < 2 powi b"
    using floorlog_2_bounds [of "nat d"] d by (simp_all add: b_def)
  have "q < 2 powi a / 2 powi (b - 1)"
    unfolding q using n' d' d n by (intro frac_less) auto
  then have up: "q < 2 powi (a - b + 1)" by (simp add: power_int_diff power_int_add)
  have "2 powi (a - 1) / 2 powi b \<le> q"
    unfolding q using n' d' d n by (intro frac_le) auto
  then have low: "2 powi (a - b - 1) \<le> q" by (simp add: power_int_diff)
  have e: "ilog2 q = (if 2 powi (a - b) \<le> q then a - b else a - b - 1)"
    by (simp add: ilog2_def nd a_def b_def Let_def)
  show "2 powi ilog2 q \<le> q" "q < 2 powi (ilog2 q + 1)"
    using up low by (simp_all add: e)
qed

lemma ilog2_mono: "0 < q \<Longrightarrow> q \<le> r \<Longrightarrow> ilog2 q \<le> ilog2 r"
proof (rule ccontr)
  assume a: "0 < q" "q \<le> r" "\<not> ilog2 q \<le> ilog2 r"
  then have "(2 :: rat) powi (ilog2 r + 1) \<le> 2 powi ilog2 q" by (intro power_int_increasing) auto
  with ilog2_bounds [of q] ilog2_bounds [of r] a show False by linarith
qed

lemma dbl_error:
  assumes "0 \<le> q"
  shows "\<bar>dbl q - q\<bar> \<le> q / 2 ^ 53"
proof (cases "q = 0")
  case False
  define u :: rat where "u = 2 powi (ilog2 q - 52)"
  have u: "0 < u" "u * 2 ^ 52 \<le> q"
    using ilog2_bounds(1) [of q] False assms by (simp_all add: u_def power_int_diff)
  have "dbl q - q = (of_int (round_even (q / u)) - q / u) * u"
    using False assms u(1) by (simp add: dbl_def u_def [symmetric] Let_def algebra_simps)
  then have "\<bar>dbl q - q\<bar> \<le> 1 / 2 * u"
    using round_even_error [of "q / u"] u(1) by (simp add: abs_mult mult_right_mono)
  with u show ?thesis by simp
qed (simp add: dbl_def)

lemma dbl_0 [simp]: "dbl 0 = 0"
  by (simp add: dbl_def)

lemma dbl_nonneg [simp]: "0 \<le> dbl q"
proof (cases "0 \<le> q")
  case True
  then have "q / 2 ^ 53 \<le> q" by simp
  with dbl_error [OF True] show ?thesis by linarith
qed (simp add: dbl_def)

lemma dbl_power:
  assumes "ilog2 q \<le> e"  "0 < q"
  shows "dbl q \<le> 2 powi (e + 1)"
proof -
  define u :: rat where "u = 2 powi (ilog2 q - 52)"
  have u: "0 < u" and "q < u * 2 ^ 53"
    using ilog2_bounds(2) [of q] assms by (simp_all add: u_def power_int_diff power_int_add)
  then have "q / u \<le> of_int (2 ^ 53)" by (simp add: divide_le_eq mult.commute)
  from round_even_mono [OF this] have "round_even (q / u) \<le> 2 ^ 53" by (simp only: round_even_of_int)
  then have "(of_int (round_even (q / u)) :: rat) \<le> of_int (2 ^ 53)" by (simp only: of_int_le_iff)
  then have "dbl q \<le> 2 ^ 53 * u"
    using assms u by (simp add: dbl_def u_def [symmetric] Let_def mult_right_mono)
  also have "\<dots> = 2 powi (ilog2 q + 1)" by (simp add: u_def power_int_diff power_int_add)
  also have "\<dots> \<le> 2 powi (e + 1)" using assms by (intro power_int_increasing) auto
  finally show ?thesis .
qed

lemma dbl_ge_power:
  assumes "0 < q"
  shows "2 powi ilog2 q \<le> dbl q"
proof -
  define u :: rat where "u = 2 powi (ilog2 q - 52)"
  have u: "0 < u" and "u * 2 ^ 52 \<le> q"
    using ilog2_bounds(1) [of q] assms by (simp_all add: u_def power_int_diff)
  then have "of_int (2 ^ 52) \<le> q / u" by (simp add: le_divide_eq mult.commute)
  from round_even_mono [OF this] have "2 ^ 52 \<le> round_even (q / u)" by (simp only: round_even_of_int)
  then have "(of_int (2 ^ 52) :: rat) \<le> of_int (round_even (q / u))" by (simp only: of_int_le_iff)
  then have "2 ^ 52 * u \<le> dbl q"
    using assms u by (simp add: dbl_def u_def [symmetric] Let_def mult_right_mono)
  then show ?thesis by (simp add: u_def power_int_diff)
qed

lemma dbl_mono:
  assumes "q \<le> r"
  shows "dbl q \<le> dbl r"
proof (cases "0 < q")
  case True
  then have "ilog2 q \<le> ilog2 r" using ilog2_mono assms by blast
  then consider "ilog2 q = ilog2 r" | "ilog2 q \<le> ilog2 r - 1" by linarith
  then show ?thesis
  proof cases
    case 1
    have "(of_int (round_even (q / 2 powi (ilog2 r - 52))) :: rat) \<le>
        of_int (round_even (r / 2 powi (ilog2 r - 52)))"
      using assms by (simp only: of_int_le_iff) (intro round_even_mono divide_right_mono, simp_all)
    with 1 True assms show ?thesis by (simp add: dbl_def Let_def mult_right_mono)
  next
    case 2
    from dbl_power [OF 2 True] dbl_ge_power [of r] True assms show ?thesis by simp
  qed
next
  case False
  then have "dbl q = 0" by (simp add: dbl_def)
  then show ?thesis by simp
qed

text \<open>Two roundings lose less than one part in a thousand.\<close>

lemma dbl_lower: "0 \<le> q \<Longrightarrow> q * (9999 / 10000) \<le> dbl q"
  using dbl_error [of q] unfolding abs_le_iff by simp

lemma dbl_upper: "0 \<le> q \<Longrightarrow> dbl q \<le> q * (10001 / 10000)"
  using dbl_error [of q] unfolding abs_le_iff by simp

lemma dbl_mult_of_nat_bounds:
  assumes "0 \<le> x"
  shows "of_nat n * x * (999 / 1000) \<le> dbl_mult (dbl_of_nat n) x"
    "dbl_mult (dbl_of_nat n) x \<le> of_nat n * x * (1001 / 1000)"
proof -
  let ?n = "of_nat n :: rat"
  have "?n * (9999 / 10000) * x \<le> dbl_of_nat n * x" "dbl_of_nat n * x \<le> ?n * (10001 / 10000) * x"
    unfolding dbl_of_nat_def using assms dbl_lower [of ?n] dbl_upper [of ?n] by (intro mult_right_mono; simp)+
  moreover have "0 \<le> dbl_of_nat n * x" using assms by (simp add: dbl_of_nat_def)
  moreover have "0 \<le> ?n * x" using assms by simp
  ultimately show "?n * x * (999 / 1000) \<le> dbl_mult (dbl_of_nat n) x"
    "dbl_mult (dbl_of_nat n) x \<le> ?n * x * (1001 / 1000)"
    using dbl_lower [of "dbl_of_nat n * x"] dbl_upper [of "dbl_of_nat n * x"]
    by (simp_all add: dbl_mult_def algebra_simps)
qed

lemma dbl_div_of_nat_lower:
  assumes "0 < x"
  shows "of_nat n / x * (999 / 1000) \<le> dbl_div (dbl_of_nat n) x"
  using dbl_mult_of_nat_bounds(1) [of "1 / x" n] assms by (simp add: dbl_mult_def dbl_div_def)

lemma dbl_mult_of_nat_mono: "m \<le> n \<Longrightarrow> 0 \<le> x \<Longrightarrow> dbl_mult (dbl_of_nat m) x \<le> dbl_mult (dbl_of_nat n) x"
  unfolding dbl_mult_def dbl_of_nat_def by (intro dbl_mono mult_right_mono) simp_all

lemma nat_of_dbl_mono: "x \<le> y \<Longrightarrow> nat_of_dbl x \<le> nat_of_dbl y"
  by (simp add: nat_of_dbl_def floor_mono nat_mono)

lemma nat_of_dbl_bounds: "0 \<le> x \<Longrightarrow> of_nat (nat_of_dbl x) \<le> x" "x < of_nat (nat_of_dbl x) + 1"
  by (simp_all add: nat_of_dbl_def) linarith+

end
