(* ===== verification/Data_Hash.thy ===== *)
theory Data_Hash
  imports Art_Prelude
begin

text \<open>
  \<^verbatim>\<open>DataHash\<close> of \<^verbatim>\<open>libartbase/base/data_hash.h\<close> on containers of bytes: the Murmur3 rounds, the
  treatment of a trailing partial block, and the byte-wise hash that \<^verbatim>\<open>kUseMurmur3Hash\<close> switches off.
  Every round is a bijection, so a change confined to one 4-byte block always changes the hash.
\<close>

unbundle bit_operations_syntax

subsection \<open>Definitions\<close>

definition kMurmur3C1 :: u32 where "kMurmur3C1 = 0xcc9e2d51"

definition kMurmur3C2 :: u32 where "kMurmur3C2 = 0x1b873593"

definition kMurmur3M :: u32 where "kMurmur3M = 5"

definition kMurmur3N :: u32 where "kMurmur3N = 0xe6546b64"

definition Murmur3Start :: u32 where "Murmur3Start = 0"

definition Murmur3Update :: "u32 \<Rightarrow> u32 \<Rightarrow> u32" where
  "Murmur3Update hash block =
     (let k = block * kMurmur3C1;
          k = push_bit 15 k OR drop_bit (32 - 15) k;
          k = k * kMurmur3C2;
          hash = hash XOR k
      in (push_bit 13 hash OR drop_bit (32 - 13) hash) * kMurmur3M + kMurmur3N)"

definition Murmur3UpdatePartial :: "u32 \<Rightarrow> u32 \<Rightarrow> u32" where
  "Murmur3UpdatePartial hash block =
     (let k = block * kMurmur3C1;
          k = push_bit 15 k OR drop_bit (32 - 15) k;
          k = k * kMurmur3C2
      in hash XOR k)"

definition Murmur3Finish :: "u32 \<Rightarrow> u32 \<Rightarrow> u32" where
  "Murmur3Finish hash length_in_bytes =
     (let hash = hash XOR length_in_bytes;
          hash = hash XOR drop_bit 16 hash;
          hash = hash * 0x85ebca6b;
          hash = hash XOR drop_bit 13 hash;
          hash = hash * 0xc2b2ae35
      in hash XOR drop_bit 16 hash)"

text \<open>The little-endian load of \<^verbatim>\<open>blocks[i]\<close>.\<close>

definition load_block :: "u8 list \<Rightarrow> nat \<Rightarrow> u32" where
  "load_block data i =
     ucast (data ! (4 * i)) OR push_bit 8 (ucast (data ! (4 * i + 1))) OR
     push_bit 16 (ucast (data ! (4 * i + 2))) OR push_bit 24 (ucast (data ! (4 * i + 3)))"

definition murmur_tail :: "u8 list \<Rightarrow> nat \<Rightarrow> u32" where
  "murmur_tail t n =
     (let last_block = (if n = 3 then push_bit 16 (ucast (t ! 2)) else 0);
          last_block = (if n \<ge> 2 then last_block XOR push_bit 8 (ucast (t ! 1)) else last_block)
      in last_block XOR ucast (t ! 0))"

definition DataHash_container :: "u8 list \<Rightarrow> u64" where
  "DataHash_container data =
     (let length_in_bytes = (of_nat (length data) :: u32);
          nblocks = unat length_in_bytes div 4;
          hash = foldl (\<lambda>hash i. Murmur3Update hash (load_block data i)) Murmur3Start [0..<nblocks];
          t = drop (nblocks * 4) data;
          rem = unat (length_in_bytes AND 3);
          hash = (if rem = 0 then hash else Murmur3UpdatePartial hash (murmur_tail t rem))
      in ucast (Murmur3Finish hash length_in_bytes))"

definition HashBytesStart :: u64 where "HashBytesStart = 0x811c9dc5"

definition HashBytesUpdate :: "u64 \<Rightarrow> u8 \<Rightarrow> u64" where
  "HashBytesUpdate hash v = (hash * 16777619) XOR ucast v"

definition HashBytesFinish :: "u64 \<Rightarrow> u64" where
  "HashBytesFinish hash =
     (let hash = hash + push_bit 13 hash;
          hash = hash XOR drop_bit 7 hash;
          hash = hash + push_bit 3 hash;
          hash = hash XOR drop_bit 17 hash
      in hash + push_bit 5 hash)"

definition HashBytes :: "u8 list \<Rightarrow> u64" where
  "HashBytes data = HashBytesFinish (foldl HashBytesUpdate HashBytesStart data)"

subsection \<open>Every round is injective\<close>

lemma mult_cancel_odd:
  fixes c c' :: u32
  assumes "c * c' = 1"
  shows "x * c = y * c \<longleftrightarrow> x = y"
proof
  assume "x * c = y * c"
  then have "x * (c * c') = y * (c * c')" by (simp only: mult.assoc [symmetric])
  then show "x = y" using assms by simp
qed simp

lemma inj_C1: "x * kMurmur3C1 = y * kMurmur3C1 \<longleftrightarrow> x = y"
  by (rule mult_cancel_odd [where c' = "0xdee13bb1"]) (simp add: kMurmur3C1_def)

lemma inj_C2: "x * kMurmur3C2 = y * kMurmur3C2 \<longleftrightarrow> x = y"
  by (rule mult_cancel_odd [where c' = "0x56ed309b"]) (simp add: kMurmur3C2_def)

lemma inj_M: "x * kMurmur3M = y * kMurmur3M \<longleftrightarrow> x = y"
  by (rule mult_cancel_odd [where c' = "0xcccccccd"]) (simp add: kMurmur3M_def)

lemma inj_F1: "(x :: u32) * 0x85ebca6b = y * 0x85ebca6b \<longleftrightarrow> x = y"
  by (rule mult_cancel_odd [where c' = "0xa5cb9243"]) simp

lemma inj_F2: "(x :: u32) * 0xc2b2ae35 = y * 0xc2b2ae35 \<longleftrightarrow> x = y"
  by (rule mult_cancel_odd [where c' = "0x7ed1b41d"]) simp

lemma inj_rotate:
  assumes "n < 32"
  shows "push_bit n x OR drop_bit (32 - n) x = push_bit n y OR drop_bit (32 - n) y \<longleftrightarrow> x = (y :: u32)"
proof
  assume e: "push_bit n x OR drop_bit (32 - n) x = push_bit n y OR drop_bit (32 - n) y"
  have b: "bit (push_bit n z OR drop_bit (32 - n) z) m = bit z (if n \<le> m then m - n else m + 32 - n)"
    if "m < 32" for z :: u32 and m
    using that assms by (auto simp: bit_simps add.commute dest: bit_imp_le_length)
  show "x = y"
  proof (rule bit_word_eqI)
    fix m assume "m < LENGTH(32)"
    show "bit x m = bit y m"
    proof (cases "m + n < 32")
      case True then show ?thesis using b [of "m + n" x] b [of "m + n" y] e by simp
    next
      case False
      then obtain k where "m + n = k + 32" by (metis add.commute le_add_diff_inverse2 not_less)
      then have "k < 32" "k + 32 - n = m" "\<not> n \<le> k" using \<open>m < LENGTH(32)\<close> assms by simp_all
      then show ?thesis using b [of k x] b [of k y] e by simp
    qed
  qed
qed simp

lemma xorshift_inverse:
  assumes "0 < n"
  shows "bit (x XOR drop_bit n x) m = (bit x m \<noteq> bit (x :: u32) (m + n))"
  by (simp add: bit_simps add.commute)

lemma inj_xorshift:
  assumes "0 < n"
  shows "x XOR drop_bit n x = y XOR drop_bit n y \<longleftrightarrow> x = (y :: u32)"
proof
  assume e: "x XOR drop_bit n x = y XOR drop_bit n y"
  have "bit x m = bit y m" for m
  proof (induction "32 - m" arbitrary: m rule: less_induct)
    case less
    show ?case
    proof (cases "m < 32")
      case True
      with less [of "m + n"] assms have "bit x (m + n) = bit y (m + n)" by simp
      with e show ?thesis using xorshift_inverse [OF assms, of x m] xorshift_inverse [OF assms, of y m] by auto
    qed (auto dest: bit_imp_le_length)
  qed
  then show "x = y" by (simp add: bit_eq_iff)
qed simp

lemma inj_xor: "h XOR x = h XOR y \<longleftrightarrow> x = (y :: u32)" "x XOR h = y XOR h \<longleftrightarrow> x = (y :: u32)"
  by (auto simp: bit_eq_iff bit_simps)

lemmas murmur_inj = inj_xorshift inj_rotate inj_C1 inj_C2 inj_M inj_F1 inj_F2 inj_xor

lemma Murmur3Update_inj:
  "Murmur3Update h b = Murmur3Update h b' \<longleftrightarrow> b = b'" "Murmur3Update h b = Murmur3Update h' b \<longleftrightarrow> h = h'"
proof -
  have r: "push_bit 15 x OR drop_bit 17 x = push_bit 15 y OR drop_bit 17 y \<longleftrightarrow> x = y"
    "push_bit 13 x OR drop_bit 19 x = push_bit 13 y OR drop_bit 19 y \<longleftrightarrow> x = y" for x y :: u32
    using inj_rotate [of 15 x y] inj_rotate [of 13 x y] by simp_all
  show "Murmur3Update h b = Murmur3Update h b' \<longleftrightarrow> b = b'" "Murmur3Update h b = Murmur3Update h' b \<longleftrightarrow> h = h'"
    by (simp_all add: Murmur3Update_def Let_def r murmur_inj del: push_bit_xor drop_bit_xor)
qed

lemma Murmur3UpdatePartial_inj:
  "Murmur3UpdatePartial h b = Murmur3UpdatePartial h b' \<longleftrightarrow> b = b'"
  "Murmur3UpdatePartial h b = Murmur3UpdatePartial h' b \<longleftrightarrow> h = h'"
proof -
  have r: "push_bit 15 x OR drop_bit 17 x = push_bit 15 y OR drop_bit 17 y \<longleftrightarrow> x = y" for x y :: u32
    using inj_rotate [of 15 x y] by simp
  show "Murmur3UpdatePartial h b = Murmur3UpdatePartial h b' \<longleftrightarrow> b = b'"
    "Murmur3UpdatePartial h b = Murmur3UpdatePartial h' b \<longleftrightarrow> h = h'"
    by (simp_all add: Murmur3UpdatePartial_def Let_def r murmur_inj)
qed

lemma Murmur3Finish_inj: "Murmur3Finish h n = Murmur3Finish h' n \<longleftrightarrow> h = h'"
  by (simp add: Murmur3Finish_def Let_def murmur_inj del: push_bit_xor drop_bit_xor)

subsection \<open>A change within one block\<close>

text \<open>The bytes of a block are recovered from the loaded word.\<close>

lemma load_block_byte:
  "j < 4 \<Longrightarrow> ucast (drop_bit (8 * j) (load_block data i)) = data ! (4 * i + j)"
proof (rule bit_word_eqI)
  fix n assume "j < 4" "n < LENGTH(8)"
  then have "j \<in> {0, 1, 2, 3}" "n < 8" by auto
  then show "bit (ucast (drop_bit (8 * j) (load_block data i)) :: u8) n = bit (data ! (4 * i + j)) n"
    by (auto simp: load_block_def bit_simps dest: bit_imp_le_length)
qed

lemma load_block_cong:
  assumes "\<And>j. j < 4 \<Longrightarrow> xs ! (4 * i + j) = ys ! (4 * i + j)"
  shows "load_block xs i = load_block ys i"
  using assms [of 0] assms [of 1] assms [of 2] assms [of 3] by (simp add: load_block_def)

lemma murmur_tail_byte:
  "j < n \<Longrightarrow> n \<le> 3 \<Longrightarrow> ucast (drop_bit (8 * j) (murmur_tail t n)) = t ! j"
proof (rule bit_word_eqI)
  fix m assume "j < n" "n \<le> 3" "m < LENGTH(8)"
  then have "(j = 0 \<or> j = 1 \<or> j = 2)" "m < 8" "n = 1 \<or> n = 2 \<or> n = 3" "j < n" by auto
  then show "bit (ucast (drop_bit (8 * j) (murmur_tail t n)) :: u8) m = bit (t ! j) m"
    by (auto simp: murmur_tail_def Let_def bit_simps dest: bit_imp_le_length)
qed

lemma murmur_tail_cong:
  "(\<And>j. j < n \<Longrightarrow> xs ! j = ys ! j) \<Longrightarrow> 0 < n \<Longrightarrow> n \<le> 3 \<Longrightarrow> murmur_tail xs n = murmur_tail ys n"
  by (auto simp: murmur_tail_def Let_def)

definition murmur_state :: "u8 list \<Rightarrow> nat \<Rightarrow> u32" where
  "murmur_state data n = foldl (\<lambda>hash i. Murmur3Update hash (load_block data i)) Murmur3Start [0..<n]"

lemma murmur_state_Suc: "murmur_state data (Suc n) = Murmur3Update (murmur_state data n) (load_block data n)"
  by (simp add: murmur_state_def)

lemma murmur_state_cong:
  "(\<And>i. i < n \<Longrightarrow> load_block xs i = load_block ys i) \<Longrightarrow> murmur_state xs n = murmur_state ys n"
  by (induction n) (auto simp: murmur_state_Suc murmur_state_def)

lemma murmur_state_differ:
  assumes "k < n" "load_block xs k \<noteq> load_block ys k" "\<And>i. i < n \<Longrightarrow> i \<noteq> k \<Longrightarrow> load_block xs i = load_block ys i"
  shows "murmur_state xs n \<noteq> murmur_state ys n"
  using assms
proof (induction n)
  case (Suc n)
  show ?case
  proof (cases "k = n")
    case True
    with Suc.prems have "murmur_state xs n = murmur_state ys n" by (intro murmur_state_cong) auto
    with True Suc.prems show ?thesis by (simp add: murmur_state_Suc Murmur3Update_inj)
  next
    case False
    with Suc.prems have "load_block xs n = load_block ys n" by simp
    with False Suc show ?thesis by (simp add: murmur_state_Suc Murmur3Update_inj less_Suc_eq)
  qed
qed simp

lemma DataHash_container_alt:
  assumes "length data < 2 ^ 32"
  shows "DataHash_container data =
    (let n = length data; h = murmur_state data (n div 4) in
     ucast (Murmur3Finish (if n mod 4 = 0 then h
       else Murmur3UpdatePartial h (murmur_tail (drop (n div 4 * 4) data) (n mod 4))) (of_nat n)))"
proof -
  have "unat (of_nat (length data) :: u32) = length data" using assms by (simp add: unsigned_of_nat take_bit_nat_eq_self)
  moreover have "w AND 3 = take_bit 2 w" for w :: u32 by (simp add: take_bit_eq_mask mask_eq_exp_minus_1)
  then have "unat ((of_nat (length data) :: u32) AND 3) = length data mod 4"
    using assms by (simp add: unsigned_take_bit_eq unsigned_of_nat take_bit_nat_eq_self) (simp add: take_bit_eq_mod)
  ultimately show ?thesis by (simp add: DataHash_container_def murmur_state_def Let_def)
qed

text \<open>
  C23: two byte containers of the same length that differ only inside one aligned 4-byte block have
  different hashes.
\<close>

theorem DataHash_one_block_differs:
  assumes "length xs = length ys" "length xs < 2 ^ 32" "i < length xs" "xs ! i \<noteq> ys ! i"
    and same: "\<And>j. j < length xs \<Longrightarrow> j div 4 \<noteq> i div 4 \<Longrightarrow> xs ! j = ys ! j"
  shows "DataHash_container xs \<noteq> DataHash_container ys"
proof -
  let ?n = "length ys div 4"
  have u: "(ucast (a :: u32) :: u64) = ucast b \<longleftrightarrow> a = b" for a b
    by (simp add: word_unat_eq_iff unat_ucast_up)
  have blk: "load_block xs k = load_block ys k" if "k < ?n" "k \<noteq> i div 4" for k
    using that same assms(1) by (intro load_block_cong) auto
  have i: "i = 4 * (i div 4) + i mod 4" by simp
  show ?thesis
  proof (cases "i div 4 < ?n")
    case True
    have "load_block xs (i div 4) \<noteq> load_block ys (i div 4)"
      using load_block_byte [of "i mod 4" xs "i div 4"] load_block_byte [of "i mod 4" ys "i div 4"] assms(4) i by auto
    then have "murmur_state xs ?n \<noteq> murmur_state ys ?n"
      using blk True by (intro murmur_state_differ) auto
    moreover have "drop (?n * 4) xs ! j = drop (?n * 4) ys ! j" if "j < length ys mod 4" for j
    proof -
      have "?n * 4 + j < length ys" using that div_mult_mod_eq [of "length ys" 4] by linarith
      moreover have "(?n * 4 + j) div 4 = ?n" using that less_trans [OF that mod_less_divisor [of 4]] by simp
      ultimately show ?thesis using same [of "?n * 4 + j"] True assms(1) by simp
    qed
    then have "length ys mod 4 \<noteq> 0 \<Longrightarrow>
        murmur_tail (drop (?n * 4) xs) (length ys mod 4) = murmur_tail (drop (?n * 4) ys) (length ys mod 4)"
      by (intro murmur_tail_cong) auto
    ultimately show ?thesis
      using assms(1,2) by (simp add: DataHash_container_alt Let_def u Murmur3Finish_inj Murmur3UpdatePartial_inj)
  next
    case False
    moreover have "i div 4 \<le> ?n" using assms(1,3) by (intro div_le_mono) simp
    ultimately have q: "i div 4 = ?n" by linarith
    moreover have "length ys = ?n * 4 + length ys mod 4" by simp
    ultimately have r: "i div 4 = ?n" "i mod 4 < length ys mod 4" using i assms(1,3) by linarith+
    have "murmur_state xs ?n = murmur_state ys ?n"
      using blk r by (intro murmur_state_cong) auto
    moreover have "murmur_tail (drop (?n * 4) xs) (length ys mod 4) \<noteq> murmur_tail (drop (?n * 4) ys) (length ys mod 4)"
    proof -
      have m: "length ys mod 4 \<le> 3" using mod_less_divisor [of 4 "length ys"] by linarith
      show ?thesis
        using murmur_tail_byte [OF r(2) m, of "drop (?n * 4) xs"] murmur_tail_byte [OF r(2) m, of "drop (?n * 4) ys"]
          q assms(1,3,4) i by (auto simp: mult.commute)
    qed
    ultimately show ?thesis
      using assms(1,2) r by (simp add: DataHash_container_alt Let_def u Murmur3Finish_inj Murmur3UpdatePartial_inj)
  qed
qed

theorem DataHash_one_block_differs_witness:
  "DataHash_container [1, 2, 3, 4, 5, 6] \<noteq> DataHash_container [1, 2, 3, 4, 7, 6]"
proof (rule DataHash_one_block_differs [of _ _ 4])
  fix j :: nat assume "j < length [1, 2, 3, 4, 5, 6 :: u8]" "j div 4 \<noteq> 4 div 4"
  then have "j \<in> {0, 1, 2, 3}" by auto
  then show "[1, 2, 3, 4, 5, 6 :: u8] ! j = [1, 2, 3, 4, 7, 6] ! j" by auto
qed simp_all

end
