(* ===== verification/Hash_Set.thy ===== *)
theory Hash_Set
  imports Float64 Data_Hash "HOL-Library.Multiset" "HOL-Library.Monad_Syntax"
begin

text \<open>
  \<^verbatim>\<open>HashSet\<close> of \<^verbatim>\<open>libartbase/base/hash_set.h\<close>: open addressing with linear probing, growth by load
  factors, and erasure that shuffles later elements back.  The template arguments \<^verbatim>\<open>HashFn\<close>,
  \<^verbatim>\<open>EmptyFn\<close> and \<^verbatim>\<open>Pred\<close> are a record of functions; \<^verbatim>\<open>moved\<close> is the unspecified value that
  \<^verbatim>\<open>std::move\<close> leaves behind.  Sizes are natural numbers, load factors are doubles, and \<^verbatim>\<open>None\<close> is a
  loop that does not end, an access outside the array or an undefined conversion.  The sizes of a set
  are bounded by its storage and cannot wrap around; the argument of \<^verbatim>\<open>reserve\<close> is not, and wraps.
\<close>

subsection \<open>State\<close>

record 't hs_fns =
  hashfn :: "'t \<Rightarrow> nat"
  IsEmpty :: "'t \<Rightarrow> bool"
  MakeEmpty :: 't
  pred_fn :: "'t \<Rightarrow> 't \<Rightarrow> bool"
  moved :: "'t \<Rightarrow> 't"

record 't hash_set =
  num_elements :: nat
  num_buckets :: nat
  elements_until_expand :: nat
  owns_data :: bool
  slots :: "'t list"
  min_load_factor :: rat
  max_load_factor :: rat

definition kDefaultMinLoadFactor :: rat where
  "kDefaultMinLoadFactor = dbl (4 / 10)"

definition kDefaultMaxLoadFactor :: rat where
  "kDefaultMaxLoadFactor = dbl (7 / 10)"

definition kMinBuckets :: nat where
  "kMinBuckets = 1000"

subsection \<open>Index arithmetic and probing\<close>

definition ElementForIndex :: "'t hash_set \<Rightarrow> nat \<Rightarrow> 't option" where
  "ElementForIndex s index = (if index < length (slots s) then Some (slots s ! index) else None)"

definition IndexForHash :: "'t hash_set \<Rightarrow> nat \<Rightarrow> nat" where
  "IndexForHash s hash = (if num_buckets s = 0 then 0 else hash mod num_buckets s)"

definition NextIndex :: "'t hash_set \<Rightarrow> nat \<Rightarrow> nat" where
  "NextIndex s index = (if index + 1 \<ge> num_buckets s then 0 else index + 1)"

definition IsFreeSlot :: "'t hs_fns \<Rightarrow> 't hash_set \<Rightarrow> nat \<Rightarrow> bool option" where
  "IsFreeSlot F s index = do { x \<leftarrow> ElementForIndex s index; Some (IsEmpty F x) }"

text \<open>The second component of the result tells whether \<^verbatim>\<open>fail_fn\<close> was called on the index.\<close>

partial_function (option) FindIndexImpl_loop ::
    "'t hs_fns \<Rightarrow> bool \<Rightarrow> 't hash_set \<Rightarrow> ('t \<Rightarrow> bool) \<Rightarrow> nat \<Rightarrow> (nat \<times> bool) option" where
  "FindIndexImpl_loop F kCanFind s matches index = do {
     slot \<leftarrow> ElementForIndex s index;
     if IsEmpty F slot then Some (index, True)
     else if kCanFind \<and> matches slot then Some (index, False)
     else FindIndexImpl_loop F kCanFind s matches (NextIndex s index)
   }"

definition FindIndexImpl ::
    "'t hs_fns \<Rightarrow> bool \<Rightarrow> 't hash_set \<Rightarrow> ('t \<Rightarrow> bool) \<Rightarrow> nat \<Rightarrow> (nat \<times> bool) option" where
  "FindIndexImpl F kCanFind s matches hash =
     FindIndexImpl_loop F kCanFind s matches (IndexForHash s hash)"

definition FindIndex :: "'t hs_fns \<Rightarrow> 't hash_set \<Rightarrow> ('t \<Rightarrow> bool) \<Rightarrow> nat \<Rightarrow> nat option" where
  "FindIndex F s matches hash =
     (if num_buckets s = 0 then Some 0
      else do {
        (index, failed) \<leftarrow> FindIndexImpl F True s matches hash;
        Some (if failed then num_buckets s else index)
      })"

definition FindWithHash :: "'t hs_fns \<Rightarrow> 't hash_set \<Rightarrow> ('t \<Rightarrow> bool) \<Rightarrow> nat \<Rightarrow> nat option" where
  "FindWithHash F s matches hash = FindIndex F s matches hash"

definition HashSet_find :: "'t hs_fns \<Rightarrow> 't hash_set \<Rightarrow> 't \<Rightarrow> nat option" where
  "HashSet_find F s key = FindWithHash F s (\<lambda>slot. pred_fn F slot key) (hashfn F key)"

partial_function (option) FirstAvailableSlot :: "'t hs_fns \<Rightarrow> 't hash_set \<Rightarrow> nat \<Rightarrow> nat option" where
  "FirstAvailableSlot F s index = do {
     x \<leftarrow> ElementForIndex s index;
     if \<not> IsEmpty F x then FirstAvailableSlot F s (NextIndex s index) else Some index
   }"

subsection \<open>Iteration\<close>

text \<open>The body of the \<^verbatim>\<open>do\<close> loop has already advanced the index when the condition is tested.\<close>

function NextNonEmptySlot_loop :: "'t hs_fns \<Rightarrow> 't hash_set \<Rightarrow> nat \<Rightarrow> nat option" where
  "NextNonEmptySlot_loop F s index =
     (if index < num_buckets s then do {
        free \<leftarrow> IsFreeSlot F s index;
        if free then NextNonEmptySlot_loop F s (index + 1) else Some index
      } else Some index)"
  by pat_completeness auto

termination
  by (relation "measure (\<lambda>(F, s, index). num_buckets s - index)") auto

declare NextNonEmptySlot_loop.simps [simp del]

definition NextNonEmptySlot :: "'t hs_fns \<Rightarrow> 't hash_set \<Rightarrow> nat \<Rightarrow> nat option" where
  "NextNonEmptySlot F s index = NextNonEmptySlot_loop F s (index + 1)"

definition HashSet_begin :: "'t hs_fns \<Rightarrow> 't hash_set \<Rightarrow> nat option" where
  "HashSet_begin F s =
     (if num_buckets s \<noteq> 0 then do {
        free \<leftarrow> IsFreeSlot F s 0;
        if free then NextNonEmptySlot F s 0 else Some 0
      } else Some 0)"

definition HashSet_end :: "'t hash_set \<Rightarrow> nat" where
  "HashSet_end s = num_buckets s"

subsection \<open>Storage\<close>

definition AllocateStorage :: "'t hs_fns \<Rightarrow> nat \<Rightarrow> 't hash_set \<Rightarrow> 't hash_set" where
  "AllocateStorage F n s = s\<lparr>num_buckets := n, slots := replicate n (MakeEmpty F), owns_data := True\<rparr>"

definition DeallocateStorage :: "'t hash_set \<Rightarrow> 't hash_set" where
  "DeallocateStorage s = s\<lparr>owns_data := False, slots := [], num_buckets := 0\<rparr>"

definition HashSet_clear :: "'t hash_set \<Rightarrow> 't hash_set" where
  "HashSet_clear s = (DeallocateStorage s)\<lparr>num_elements := 0, elements_until_expand := 0\<rparr>"

definition HashSet_new :: "rat \<Rightarrow> rat \<Rightarrow> 't hash_set" where
  "HashSet_new min_lf max_lf =
     \<lparr>num_elements = 0, num_buckets = 0, elements_until_expand = 0, owns_data = False, slots = [],
      min_load_factor = min_lf, max_load_factor = max_lf\<rparr>"

definition HashSet_default :: "'t hash_set" where
  "HashSet_default = HashSet_new kDefaultMinLoadFactor kDefaultMaxLoadFactor"

definition HashSet_buffer :: "'t hs_fns \<Rightarrow> rat \<Rightarrow> rat \<Rightarrow> 't list \<Rightarrow> 't hash_set" where
  "HashSet_buffer F min_lf max_lf buffer =
     \<lparr>num_elements = 0, num_buckets = length buffer,
      elements_until_expand = nat_of_dbl (dbl_mult (dbl_of_nat (length buffer)) max_lf),
      owns_data = False, slots = map (\<lambda>x. MakeEmpty F) buffer,
      min_load_factor = min_lf, max_load_factor = max_lf\<rparr>"

definition HashSet_copy :: "'t hs_fns \<Rightarrow> 't hash_set \<Rightarrow> 't hash_set" where
  "HashSet_copy F other =
     (let this = AllocateStorage F (num_buckets other)
        \<lparr>num_elements = num_elements other, num_buckets = 0,
         elements_until_expand = elements_until_expand other, owns_data = False, slots = [],
         min_load_factor = min_load_factor other, max_load_factor = max_load_factor other\<rparr>
      in this\<lparr>slots := map (\<lambda>i. slots other ! i) [0..<num_buckets this]\<rparr>)"

text \<open>The new set and what is left of the moved-from one.\<close>

definition HashSet_move :: "'t hash_set \<Rightarrow> 't hash_set \<times> 't hash_set" where
  "HashSet_move other =
     (other, other\<lparr>num_elements := 0, num_buckets := 0, elements_until_expand := 0,
                   owns_data := False, slots := []\<rparr>)"

definition HashSet_swap :: "'t hash_set \<times> 't hash_set \<Rightarrow> 't hash_set \<times> 't hash_set" where
  "HashSet_swap p = (case p of (this, other) \<Rightarrow>
     (this\<lparr>slots := slots other, num_buckets := num_buckets other, num_elements := num_elements other,
           elements_until_expand := elements_until_expand other, min_load_factor := min_load_factor other,
           max_load_factor := max_load_factor other, owns_data := owns_data other\<rparr>,
      other\<lparr>slots := slots this, num_buckets := num_buckets this, num_elements := num_elements this,
           elements_until_expand := elements_until_expand this, min_load_factor := min_load_factor this,
           max_load_factor := max_load_factor this, owns_data := owns_data this\<rparr>))"

subsection \<open>Growth\<close>

fun Resize_loop :: "'t hs_fns \<Rightarrow> 't list \<Rightarrow> 't hash_set \<Rightarrow> 't hash_set option" where
  "Resize_loop F [] s = Some s"
| "Resize_loop F (element # old_data) s =
     (if \<not> IsEmpty F element then do {
        i \<leftarrow> FirstAvailableSlot F s (IndexForHash s (hashfn F element));
        Resize_loop F old_data (s\<lparr>slots := (slots s)[i := element]\<rparr>)
      } else Resize_loop F old_data s)"

definition Resize :: "'t hs_fns \<Rightarrow> nat \<Rightarrow> 't hash_set \<Rightarrow> 't hash_set option" where
  "Resize F new_size s =
     (let new_size = (if new_size < kMinBuckets then kMinBuckets else new_size);
          old_data = slots s;
          old_num_buckets = num_buckets s
      in do {
        s \<leftarrow> Resize_loop F (take old_num_buckets old_data) (AllocateStorage F new_size s);
        Some (s\<lparr>elements_until_expand := nat_of_dbl (dbl_mult (dbl_of_nat (num_buckets s)) (max_load_factor s))\<rparr>)
      })"

definition Expand :: "'t hs_fns \<Rightarrow> 't hash_set \<Rightarrow> 't hash_set option" where
  "Expand F s = Resize F (nat_of_dbl (dbl_div (dbl_of_nat (num_elements s)) (min_load_factor s))) s"

definition ShrinkToMaximumLoad :: "'t hs_fns \<Rightarrow> 't hash_set \<Rightarrow> 't hash_set option" where
  "ShrinkToMaximumLoad F s =
     Resize F (nat_of_dbl (dbl_div (dbl_of_nat (num_elements s)) (max_load_factor s))) s"

text \<open>
  \<^verbatim>\<open>reserve\<close> takes its size from the caller, so its \<^verbatim>\<open>size_t\<close> arithmetic wraps around here, and the
  conversion of a double that does not fit \<^verbatim>\<open>size_t\<close> is undefined.
\<close>

definition size_of_dbl :: "rat \<Rightarrow> nat option" where
  "size_of_dbl x = (if x < 2 ^ 64 then Some (nat_of_dbl x) else None)"

partial_function (option) reserve_loop :: "rat \<Rightarrow> nat \<Rightarrow> nat \<Rightarrow> nat option" where
  "reserve_loop max_lf n buckets = do {
     limit \<leftarrow> size_of_dbl (dbl_mult (dbl_of_nat buckets) max_lf);
     if limit \<le> (n + 1) mod 2 ^ 64 then reserve_loop max_lf n ((buckets + 1) mod 2 ^ 64) else Some buckets
   }"

definition HashSet_reserve :: "'t hs_fns \<Rightarrow> nat \<Rightarrow> 't hash_set \<Rightarrow> 't hash_set option" where
  "HashSet_reserve F n s = do {
     buckets \<leftarrow> size_of_dbl (dbl_div (dbl_of_nat n) (max_load_factor s));
     buckets \<leftarrow> reserve_loop (max_load_factor s) n buckets;
     if buckets > num_buckets s then Resize F buckets s else Some s
   }"

text \<open>
  \<^verbatim>\<open>None\<close> stands for the quotients by zero: not a number for an empty set, infinity otherwise.
\<close>

definition CalculateLoadFactor :: "'t hash_set \<Rightarrow> rat option" where
  "CalculateLoadFactor s =
     (if num_buckets s = 0 then None
      else Some (dbl_div (dbl_of_nat (num_elements s)) (dbl_of_nat (num_buckets s))))"

definition SetLoadFactor :: "'t hs_fns \<Rightarrow> rat \<Rightarrow> rat \<Rightarrow> 't hash_set \<Rightarrow> 't hash_set option" where
  "SetLoadFactor F min_lf max_lf s =
     (let s = s\<lparr>min_load_factor := min_lf, max_load_factor := max_lf,
                elements_until_expand := nat_of_dbl (dbl_mult (dbl_of_nat (num_buckets s)) max_lf)\<rparr>;
          exceeds = (case CalculateLoadFactor s of None \<Rightarrow> num_elements s > 0 | Some lf \<Rightarrow> lf > max_lf)
      in if exceeds
         then Resize F (nat_of_dbl (dbl_div (dbl_of_nat (num_elements s))
                (dbl_mult (dbl (min_lf + max_lf)) (1 / 2)))) s
         else Some s)"

subsection \<open>Insertion and removal\<close>

definition InsertWithHash ::
    "'t hs_fns \<Rightarrow> 't hash_set \<Rightarrow> 't \<Rightarrow> nat \<Rightarrow> (nat \<times> bool \<times> 't hash_set) option" where
  "InsertWithHash F s element hash = do {
     s \<leftarrow> (if num_elements s \<ge> elements_until_expand s then Expand F s else Some s);
     (index, find_failed) \<leftarrow> FindIndexImpl F True s (\<lambda>slot. pred_fn F slot element) hash;
     Some (index, find_failed,
       if find_failed then s\<lparr>slots := (slots s)[index := element], num_elements := num_elements s + 1\<rparr> else s)
   }"

definition HashSet_insert :: "'t hs_fns \<Rightarrow> 't hash_set \<Rightarrow> 't \<Rightarrow> (nat \<times> bool \<times> 't hash_set) option" where
  "HashSet_insert F s element = InsertWithHash F s element (hashfn F element)"

definition PutWithHash :: "'t hs_fns \<Rightarrow> 't hash_set \<Rightarrow> 't \<Rightarrow> nat \<Rightarrow> 't hash_set option" where
  "PutWithHash F s element hash = do {
     s \<leftarrow> (if num_elements s \<ge> elements_until_expand s then Expand F s else Some s);
     (index, _) \<leftarrow> FindIndexImpl F False s (\<lambda>slot. pred_fn F slot element) hash;
     Some (s\<lparr>slots := (slots s)[index := element], num_elements := num_elements s + 1\<rparr>)
   }"

definition HashSet_Put :: "'t hs_fns \<Rightarrow> 't hash_set \<Rightarrow> 't \<Rightarrow> 't hash_set option" where
  "HashSet_Put F s element = PutWithHash F s element (hashfn F element)"

partial_function (option) erase_loop ::
    "'t hs_fns \<Rightarrow> 't hash_set \<Rightarrow> nat \<Rightarrow> nat \<Rightarrow> bool \<Rightarrow> ('t hash_set \<times> bool) option" where
  "erase_loop F s empty_index next_index filled = (
     let next_index = NextIndex s next_index in do {
       next_element \<leftarrow> ElementForIndex s next_index;
       if IsEmpty F next_element then Some (s\<lparr>slots := (slots s)[empty_index := MakeEmpty F]\<rparr>, filled)
       else
         let next_ideal_index = IndexForHash s (hashfn F next_element);
             unwrapped_next_index = (if next_index < empty_index then next_index + num_buckets s else next_index);
             unwrapped_next_ideal_index =
               (if next_ideal_index < empty_index then next_ideal_index + num_buckets s else next_ideal_index)
         in if unwrapped_next_ideal_index \<le> empty_index \<or> unwrapped_next_ideal_index > unwrapped_next_index
            then erase_loop F
              (s\<lparr>slots := (slots s)[empty_index := next_element, next_index := moved F next_element]\<rparr>)
              next_index next_index True
            else erase_loop F s empty_index next_index filled
     })"

definition HashSet_erase :: "'t hs_fns \<Rightarrow> 't hash_set \<Rightarrow> nat \<Rightarrow> (nat \<times> 't hash_set) option" where
  "HashSet_erase F s it = do {
     (s, filled) \<leftarrow> erase_loop F s it it False;
     let s = s\<lparr>num_elements := num_elements s - 1\<rparr>;
     it \<leftarrow> (if filled then Some it else NextNonEmptySlot F s it);
     Some (it, s)
   }"

subsection \<open>Self-checks\<close>

definition TotalProbeDistance :: "'t hs_fns \<Rightarrow> 't hash_set \<Rightarrow> nat" where
  "TotalProbeDistance F s = sum_list (map (\<lambda>i.
     let element = slots s ! i; ideal_location = IndexForHash s (hashfn F element) in
     if IsEmpty F element then 0
     else if ideal_location > i then i + num_buckets s - ideal_location
     else i - ideal_location) [0..<num_buckets s])"

fun Verify_loop :: "'t hs_fns \<Rightarrow> 't hash_set \<Rightarrow> nat list \<Rightarrow> nat \<Rightarrow> nat option" where
  "Verify_loop F s [] errors = Some errors"
| "Verify_loop F s (i # is) errors =
     (let temp = slots s ! i in
      if \<not> IsEmpty F temp then do {
        first_slot \<leftarrow> FirstAvailableSlot F (s\<lparr>slots := (slots s)[i := MakeEmpty F]\<rparr>)
          (IndexForHash s (hashfn F temp));
        Verify_loop F s is (if i \<noteq> first_slot then errors + 1 else errors)
      } else Verify_loop F s is errors)"

definition HashSet_Verify :: "'t hs_fns \<Rightarrow> 't hash_set \<Rightarrow> nat option" where
  "HashSet_Verify F s = Verify_loop F s [0..<num_buckets s] 0"

subsection \<open>The serialised form\<close>

text \<open>
  Memory holds typed cells at byte offsets: a write of a value is visible to a read of the same type
  at the same offset.  A null target only counts the bytes.
\<close>

datatype 't cell = CellU64 nat | CellDouble rat | CellElem 't

type_synonym 't cells = "nat \<rightharpoonup> 't cell"

definition WriteToBytes :: "'t cells option \<Rightarrow> nat \<Rightarrow> nat \<Rightarrow> 't cell \<Rightarrow> 't cells option \<times> nat" where
  "WriteToBytes ptr offset size_of n =
     (case ptr of None \<Rightarrow> None | Some m \<Rightarrow> Some (m(offset \<mapsto> n)), offset + size_of)"

fun WriteElements :: "nat \<Rightarrow> 't list \<Rightarrow> 't cells option \<times> nat \<Rightarrow> 't cells option \<times> nat" where
  "WriteElements size_of [] p = p"
| "WriteElements size_of (x # xs) (ptr, offset) =
     WriteElements size_of xs (WriteToBytes ptr offset size_of (CellElem x))"

definition WriteToMemory :: "nat \<Rightarrow> 't hash_set \<Rightarrow> 't cells option \<Rightarrow> 't cells option \<times> nat" where
  "WriteToMemory size_of s ptr =
     (let (ptr, offset) = WriteToBytes ptr 0 8 (CellU64 (num_elements s));
          (ptr, offset) = WriteToBytes ptr offset 8 (CellU64 (num_buckets s));
          (ptr, offset) = WriteToBytes ptr offset 8 (CellU64 (elements_until_expand s));
          (ptr, offset) = WriteToBytes ptr offset 8 (CellDouble (min_load_factor s));
          (ptr, offset) = WriteToBytes ptr offset 8 (CellDouble (max_load_factor s))
      in WriteElements size_of (take (num_buckets s) (slots s)) (ptr, offset))"

definition ReadU64 :: "'t cells \<Rightarrow> nat \<Rightarrow> (nat \<times> nat) option" where
  "ReadU64 ptr offset = (case ptr offset of Some (CellU64 n) \<Rightarrow> Some (n, offset + 8) | _ \<Rightarrow> None)"

definition ReadDouble :: "'t cells \<Rightarrow> nat \<Rightarrow> (rat \<times> nat) option" where
  "ReadDouble ptr offset = (case ptr offset of Some (CellDouble d) \<Rightarrow> Some (d, offset + 8) | _ \<Rightarrow> None)"

fun ReadElements :: "'t cells \<Rightarrow> nat \<Rightarrow> nat \<Rightarrow> nat \<Rightarrow> ('t list \<times> nat) option" where
  "ReadElements ptr size_of 0 offset = Some ([], offset)"
| "ReadElements ptr size_of (Suc n) offset =
     (case ptr offset of
        Some (CellElem x) \<Rightarrow> do {
          (xs, offset) \<leftarrow> ReadElements ptr size_of n (offset + size_of);
          Some (x # xs, offset)
        }
      | _ \<Rightarrow> None)"

text \<open>The result holds the set and \<^verbatim>\<open>*read_count\<close>; a failed \<^verbatim>\<open>CHECK_LE\<close> is \<^verbatim>\<open>None\<close>.\<close>

definition HashSet_from_memory :: "nat \<Rightarrow> 't cells \<Rightarrow> bool \<Rightarrow> ('t hash_set \<times> nat) option" where
  "HashSet_from_memory size_of ptr make_copy_of_data = do {
     (elements, offset) \<leftarrow> ReadU64 ptr 0;
     (buckets, offset) \<leftarrow> ReadU64 ptr offset;
     if elements \<le> buckets then do {
       (until_expand, offset) \<leftarrow> ReadU64 ptr offset;
       (min_lf, offset) \<leftarrow> ReadDouble ptr offset;
       (max_lf, offset) \<leftarrow> ReadDouble ptr offset;
       (xs, offset) \<leftarrow> ReadElements ptr size_of buckets offset;
       Some (\<lparr>num_elements = elements, num_buckets = buckets, elements_until_expand = until_expand,
              owns_data = make_copy_of_data, slots = xs,
              min_load_factor = min_lf, max_load_factor = max_lf\<rparr>, offset)
     } else None
   }"

subsection \<open>Sets of strings\<close>

text \<open>The default arguments for \<^verbatim>\<open>HashSet<std::string>\<close>; a moved-from string is empty or unchanged.\<close>

definition string_fns :: "u8 list hs_fns" where
  "string_fns = \<lparr>hashfn = (\<lambda>s. unat (DataHash_container s)), IsEmpty = (\<lambda>item. item = []),
     MakeEmpty = [], pred_fn = (\<lambda>lhs rhs. lhs = rhs), moved = (\<lambda>x. [])\<rparr>"

end
