(* ===== verification/Hash_Set_Correct.thy ===== *)
theory Hash_Set_Correct
  imports Hash_Set
begin

text \<open>
  Correctness of \<^verbatim>\<open>HashSet\<close>.  The invariant says that no free slot lies between the slot an element
  hashes to and the slot it is stored in, that no two elements are equal, and that the load factors
  leave a free slot, so that every probing loop ends.  All operations keep it; a sequence of
  operations observes exactly what a mathematical set would answer.
\<close>

subsection \<open>Circular distance\<close>

definition cdist :: "nat \<Rightarrow> nat \<Rightarrow> nat \<Rightarrow> nat" where
  "cdist n a b = (if a \<le> b then b - a else b + n - a)"

definition nxt :: "nat \<Rightarrow> nat \<Rightarrow> nat" where
  "nxt n i = (if i + 1 \<ge> n then 0 else i + 1)"

lemma nxt_less [simp]: "i < n \<Longrightarrow> nxt n i < n"
  by (auto simp: nxt_def)

lemma cdist_self [simp]: "cdist n a a = 0"
  by (simp add: cdist_def)

lemma cdist_0_iff: "a < n \<Longrightarrow> b < n \<Longrightarrow> cdist n a b = 0 \<longleftrightarrow> a = b"
  by (auto simp: cdist_def)

lemma cdist_less: "a < n \<Longrightarrow> b < n \<Longrightarrow> cdist n a b < n"
  by (auto simp: cdist_def)

lemma cdist_nxt: "a < n \<Longrightarrow> b < n \<Longrightarrow> a \<noteq> b \<Longrightarrow> cdist n a b = Suc (cdist n (nxt n a) b)"
  by (auto simp: cdist_def nxt_def)

lemma cdist_nxt_right: "a < n \<Longrightarrow> b < n \<Longrightarrow> nxt n b \<noteq> a \<Longrightarrow> cdist n a (nxt n b) = Suc (cdist n a b)"
  by (auto simp: cdist_def nxt_def)

lemma cdist_before:
  assumes "cur < n" "i < n" "k < n" "i \<noteq> cur" "cdist n cur k < cdist n cur i"
  shows "k = cur \<or> cdist n (nxt n cur) k < cdist n (nxt n cur) i"
  using assms cdist_nxt [of cur n i] cdist_nxt [of cur n k] by (cases "k = cur") simp_all

lemma cdist_inj: "a < n \<Longrightarrow> b < n \<Longrightarrow> c < n \<Longrightarrow> cdist n a b = cdist n a c \<longleftrightarrow> b = c"
  by (auto simp: cdist_def)

lemma cdist_split:
  "a < n \<Longrightarrow> b < n \<Longrightarrow> c < n \<Longrightarrow> cdist n a b \<le> cdist n a c \<Longrightarrow> cdist n a c = cdist n a b + cdist n b c"
  by (auto simp: cdist_def split: if_splits)

subsection \<open>The probing invariant\<close>

definition ideal :: "'t hs_fns \<Rightarrow> nat \<Rightarrow> 't \<Rightarrow> nat" where
  "ideal F n x = hashfn F x mod n"

definition path_ok :: "'t hs_fns \<Rightarrow> 't list \<Rightarrow> nat \<Rightarrow> nat \<Rightarrow> bool" where
  "path_ok F xs h j \<longleftrightarrow>
     (\<forall>i < length xs. cdist (length xs) h i < cdist (length xs) h j \<longrightarrow> \<not> IsEmpty F (xs ! i))"

definition probe_ok :: "'t hs_fns \<Rightarrow> 't list \<Rightarrow> bool" where
  "probe_ok F xs \<longleftrightarrow>
     (\<forall>j < length xs. \<not> IsEmpty F (xs ! j) \<longrightarrow> path_ok F xs (ideal F (length xs) (xs ! j)) j)"

definition content :: "'t hs_fns \<Rightarrow> 't hash_set \<Rightarrow> 't multiset" where
  "content F s = filter_mset (\<lambda>x. \<not> IsEmpty F x) (mset (slots s))"

abbreviation shape_ok :: "'t hash_set \<Rightarrow> bool" where
  "shape_ok s \<equiv> num_buckets s = length (slots s)"

lemma path_okD:
  "path_ok F xs h j \<Longrightarrow> i < length xs \<Longrightarrow> cdist (length xs) h i < cdist (length xs) h j \<Longrightarrow> \<not> IsEmpty F (xs ! i)"
  by (simp add: path_ok_def)

lemma probe_okD:
  "probe_ok F xs \<Longrightarrow> j < length xs \<Longrightarrow> \<not> IsEmpty F (xs ! j) \<Longrightarrow> path_ok F xs (ideal F (length xs) (xs ! j)) j"
  by (simp add: probe_ok_def)

lemma NextIndex_nxt: "shape_ok s \<Longrightarrow> NextIndex s i = nxt (length (slots s)) i"
  by (simp add: NextIndex_def nxt_def)

lemma IndexForHash_ideal: "shape_ok s \<Longrightarrow> slots s \<noteq> [] \<Longrightarrow> IndexForHash s (hashfn F x) = ideal F (length (slots s)) x"
  by (simp add: IndexForHash_def ideal_def)

lemma ideal_less [simp]: "0 < n \<Longrightarrow> ideal F n x < n"
  by (simp add: ideal_def)

lemma free_slot_exists:
  assumes "size (content F s) < length (slots s)"
  shows "\<exists>f < length (slots s). IsEmpty F (slots s ! f)"
proof (rule ccontr)
  assume "\<not> ?thesis"
  then have "\<forall>x \<in># mset (slots s). \<not> IsEmpty F x" by (auto simp: in_set_conv_nth)
  then have "content F s = mset (slots s)" by (simp add: content_def filter_mset_eq_conv)
  with assms show False by simp
qed

lemma content_update:
  assumes "i < length (slots s)"
  shows "content F (s\<lparr>slots := (slots s)[i := e]\<rparr>) =
    filter_mset (\<lambda>x. \<not> IsEmpty F x) (add_mset e (mset (slots s) - {#slots s ! i#}))"
  using assms by (simp add: content_def mset_update)

lemma content_place:
  assumes "i < length (slots s)" "IsEmpty F (slots s ! i)" "\<not> IsEmpty F e"
  shows "content F (s\<lparr>slots := (slots s)[i := e]\<rparr>) = add_mset e (content F s)"
  using assms by (simp add: content_update) (simp add: content_def)

lemma content_remove:
  assumes "i < length (slots s)" "\<not> IsEmpty F (slots s ! i)" "IsEmpty F e"
  shows "content F (s\<lparr>slots := (slots s)[i := e]\<rparr>) = content F s - {#slots s ! i#}"
  using assms by (simp add: content_update) (simp add: content_def)

subsection \<open>The probing loops end and find the first free slot\<close>

lemma FindIndexImpl_loop_ends:
  assumes "shape_ok s" "f < length (slots s)" "IsEmpty F (slots s ! f)" "cur < length (slots s)"
  shows "\<exists>i failed. FindIndexImpl_loop F c s p cur = Some (i, failed) \<and> i < length (slots s) \<and>
     path_ok F (slots s) cur i \<and>
     (if failed then IsEmpty F (slots s ! i) \<and>
        (\<forall>k < length (slots s). c \<longrightarrow> cdist (length (slots s)) cur k < cdist (length (slots s)) cur i \<longrightarrow> \<not> p (slots s ! k))
      else c \<and> \<not> IsEmpty F (slots s ! i) \<and> p (slots s ! i))"
  using assms(4)
proof (induction "cdist (length (slots s)) cur f" arbitrary: cur rule: less_induct)
  case less
  let ?n = "length (slots s)"
  have e: "ElementForIndex s cur = Some (slots s ! cur)" using less.prems by (simp add: ElementForIndex_def)
  show ?case
  proof (cases "IsEmpty F (slots s ! cur) \<or> c \<and> p (slots s ! cur)")
    case True
    then show ?thesis using less.prems
      by (subst FindIndexImpl_loop.simps) (auto simp: e path_ok_def)
  next
    case False
    with assms(3) have ne: "cur \<noteq> f" by auto
    have "cdist ?n (nxt ?n cur) f < cdist ?n cur f"
      using cdist_nxt [OF less.prems assms(2) ne] by simp
    from less.hyps [OF this] less.prems obtain i failed where
      l: "FindIndexImpl_loop F c s p (nxt ?n cur) = Some (i, failed)" and i: "i < ?n"
      and po: "path_ok F (slots s) (nxt ?n cur) i" and
      r: "if failed then IsEmpty F (slots s ! i) \<and>
            (\<forall>k < ?n. c \<longrightarrow> cdist ?n (nxt ?n cur) k < cdist ?n (nxt ?n cur) i \<longrightarrow> \<not> p (slots s ! k))
          else c \<and> \<not> IsEmpty F (slots s ! i) \<and> p (slots s ! i)"
      by auto
    have res: "FindIndexImpl_loop F c s p cur = Some (i, failed)"
      using False l assms(1) by (subst FindIndexImpl_loop.simps) (auto simp: e NextIndex_nxt)
    have "i \<noteq> cur" using r False by (auto split: if_splits)
    then have d: "k = cur \<or> cdist ?n (nxt ?n cur) k < cdist ?n (nxt ?n cur) i"
      if "k < ?n" "cdist ?n cur k < cdist ?n cur i" for k
      using that less.prems i by (intro cdist_before) auto
    have "path_ok F (slots s) cur i" using d po False by (auto simp: path_ok_def)
    moreover have "\<not> p (slots s ! k)" if "failed" "c" "k < ?n" "cdist ?n cur k < cdist ?n cur i" for k
      using d [of k] that r False by auto
    ultimately show ?thesis using i r res by auto
  qed
qed

lemma FirstAvailableSlot_ends:
  assumes "shape_ok s" "f < length (slots s)" "IsEmpty F (slots s ! f)" "cur < length (slots s)"
  shows "\<exists>i. FirstAvailableSlot F s cur = Some i \<and> i < length (slots s) \<and>
     path_ok F (slots s) cur i \<and> IsEmpty F (slots s ! i)"
  using assms(4)
proof (induction "cdist (length (slots s)) cur f" arbitrary: cur rule: less_induct)
  case less
  let ?n = "length (slots s)"
  have e: "ElementForIndex s cur = Some (slots s ! cur)" using less.prems by (simp add: ElementForIndex_def)
  show ?case
  proof (cases "IsEmpty F (slots s ! cur)")
    case True
    then show ?thesis using less.prems
      by (subst FirstAvailableSlot.simps) (auto simp: e path_ok_def)
  next
    case False
    with assms(3) have ne: "cur \<noteq> f" by auto
    have "cdist ?n (nxt ?n cur) f < cdist ?n cur f"
      using cdist_nxt [OF less.prems assms(2) ne] by simp
    from less.hyps [OF this] less.prems obtain i where
      l: "FirstAvailableSlot F s (nxt ?n cur) = Some i" and i: "i < ?n" "IsEmpty F (slots s ! i)"
      and po: "path_ok F (slots s) (nxt ?n cur) i" by auto
    have "FirstAvailableSlot F s cur = Some i"
      using False l assms(1) by (subst FirstAvailableSlot.simps) (auto simp: e NextIndex_nxt)
    moreover have "i \<noteq> cur" using i False by auto
    then have d: "k = cur \<or> cdist ?n (nxt ?n cur) k < cdist ?n (nxt ?n cur) i"
      if "k < ?n" "cdist ?n cur k < cdist ?n cur i" for k
      using that less.prems i by (intro cdist_before) auto
    ultimately show ?thesis using False i po d by (auto simp: path_ok_def)
  qed
qed

lemma probe_ok_place:
  assumes "probe_ok F xs" "i < length xs" "IsEmpty F (xs ! i)" "\<not> IsEmpty F e"
    "path_ok F xs (ideal F (length xs) e) i"
  shows "probe_ok F (xs[i := e])"
proof -
  have ext: "path_ok F (xs[i := e]) h j" if "path_ok F xs h j" for h j
    using that assms(2,4) by (simp add: path_ok_def nth_list_update)
  show ?thesis unfolding probe_ok_def length_list_update
  proof (intro allI impI)
    fix j assume "j < length xs" "\<not> IsEmpty F (xs[i := e] ! j)"
    with assms show "path_ok F (xs[i := e]) (ideal F (length xs) (xs[i := e] ! j)) j"
      by (cases "j = i") (simp_all add: ext probe_okD)
  qed
qed

subsection \<open>The contract of the template arguments and the class invariant\<close>

text \<open>
  What \<^verbatim>\<open>HashSet\<close> relies on: \<^verbatim>\<open>MakeEmpty\<close> yields an empty item, the predicate is an equivalence, and
  items it equates have the same hash.
\<close>

locale hash_fns =
  fixes F :: "'t hs_fns"
  assumes MakeEmpty_IsEmpty: "IsEmpty F (MakeEmpty F)"
    and pred_hash: "pred_fn F x y \<Longrightarrow> hashfn F x = hashfn F y"
    and pred_refl: "pred_fn F x x"
    and pred_sym: "pred_fn F x y \<Longrightarrow> pred_fn F y x"
    and pred_trans: "pred_fn F x y \<Longrightarrow> pred_fn F y z \<Longrightarrow> pred_fn F x z"

definition uniq :: "'t hs_fns \<Rightarrow> 't multiset \<Rightarrow> bool" where
  "uniq F M \<longleftrightarrow> (\<forall>x \<in># M. \<forall>y \<in># M - {#x#}. \<not> pred_fn F x y)"

definition load_ok :: "rat \<Rightarrow> rat \<Rightarrow> bool" where
  "load_ok mn mx \<longleftrightarrow> 0 < mn \<and> mn + 1 / 100 \<le> mx \<and> mx \<le> 99 / 100"

definition expand_limit :: "rat \<Rightarrow> nat \<Rightarrow> nat" where
  "expand_limit mx n = nat_of_dbl (dbl_mult (dbl_of_nat n) mx)"

definition hs_inv :: "'t hs_fns \<Rightarrow> 't hash_set \<Rightarrow> bool" where
  "hs_inv F s \<longleftrightarrow> num_buckets s = length (slots s) \<and> num_elements s = size (content F s) \<and>
     probe_ok F (slots s) \<and> uniq F (content F s) \<and>
     load_ok (min_load_factor s) (max_load_factor s) \<and>
     elements_until_expand s = expand_limit (max_load_factor s) (num_buckets s) \<and>
     (num_buckets s = 0 \<or> num_elements s < num_buckets s)"

lemma hs_invD:
  assumes "hs_inv F s"
  shows "num_buckets s = length (slots s)" "num_elements s = size (content F s)" "probe_ok F (slots s)"
    "uniq F (content F s)" "load_ok (min_load_factor s) (max_load_factor s)"
    "elements_until_expand s = expand_limit (max_load_factor s) (num_buckets s)"
    "num_buckets s = 0 \<or> num_elements s < num_buckets s"
  using assms unfolding hs_inv_def by blast+

subsection \<open>Load factors leave room\<close>

lemma expand_limit_less:
  assumes "0 \<le> mx" "mx \<le> 99 / 100" "0 < n"
  shows "expand_limit mx n < n"
proof -
  have "of_nat n * mx \<le> of_nat n * (99 / 100)" using assms by (intro mult_left_mono) auto
  moreover have "0 < (of_nat n :: rat)" using assms by simp
  ultimately have "of_nat n * mx * (1001 / 1000) < of_nat n" by linarith
  then have "dbl_mult (dbl_of_nat n) mx < of_nat n"
    using dbl_mult_of_nat_bounds(2) [OF assms(1), of n] by linarith
  moreover have "0 \<le> dbl_mult (dbl_of_nat n) mx" by (simp add: dbl_mult_def)
  ultimately have "(of_nat (expand_limit mx n) :: rat) < of_nat n"
    using nat_of_dbl_bounds(1) unfolding expand_limit_def by (meson le_less_trans)
  then show ?thesis by simp
qed

lemma expand_limit_0 [simp]: "expand_limit mx 0 = 0"
  by (simp add: expand_limit_def dbl_of_nat_def dbl_mult_def nat_of_dbl_def)

lemma expand_limit_mono: "m \<le> n \<Longrightarrow> 0 \<le> mx \<Longrightarrow> expand_limit mx m \<le> expand_limit mx n"
  unfolding expand_limit_def by (intro nat_of_dbl_mono dbl_mult_of_nat_mono)

lemma quotient_bound:
  assumes "0 < x" "nat_of_dbl (dbl_div (dbl_of_nat n) x) \<le> N"
  shows "of_nat n * (999 / 1000) \<le> (of_nat N + 1) * x"
proof -
  have "(of_nat (nat_of_dbl (dbl_div (dbl_of_nat n) x)) :: rat) \<le> of_nat N" using assms(2) by simp
  then have "of_nat n / x * (999 / 1000) < of_nat N + 1"
    using dbl_div_of_nat_lower [OF assms(1), of n] nat_of_dbl_bounds(2) [of "dbl_div (dbl_of_nat n) x"]
    by linarith
  then show ?thesis using assms(1) by (simp add: field_simps)
qed

lemma resize_leaves_room:
  assumes "0 < x" "x \<le> 99 / 100" "nat_of_dbl (dbl_div (dbl_of_nat n) x) \<le> N" "1000 \<le> N"
  shows "n < N"
proof -
  have N: "(1000 :: rat) \<le> of_nat N" using assms(4) by (metis of_nat_le_iff of_nat_numeral)
  have "(of_nat N + 1) * x \<le> (of_nat N + 1) * (99 / 100)" using assms(2) by (intro mult_left_mono) auto
  with quotient_bound [OF assms(1,3)] N have "(of_nat n :: rat) < of_nat N" by (simp add: field_simps)
  then show ?thesis by simp
qed

lemma expand_leaves_room:
  assumes "load_ok mn mx" "nat_of_dbl (dbl_div (dbl_of_nat n) mn) \<le> N" "1000 \<le> N"
  shows "n < expand_limit mx N"
proof -
  let ?N = "of_nat N :: rat"
  have mn: "0 < mn" "mn \<le> 98 / 100" "mn + 1 / 100 \<le> mx" using assms(1) by (auto simp: load_ok_def)
  have N: "1000 \<le> ?N" using assms(3) by (metis of_nat_le_iff of_nat_numeral)
  have n: "of_nat n * (999 / 1000) \<le> (?N + 1) * mn" by (rule quotient_bound [OF mn(1) assms(2)])
  have "?N * (mn + 1 / 100) \<le> ?N * mx" using mn N by (intro mult_left_mono) auto
  then have m1: "?N * mn + ?N / 100 \<le> ?N * mx" by (simp add: algebra_simps)
  have m2: "?N * mn \<le> ?N * (98 / 100)" using mn N by (intro mult_left_mono) auto
  have "?N * mx * (999 / 1000) \<le> dbl_mult (dbl_of_nat N) mx"
    using dbl_mult_of_nat_bounds(1) [of mx N] mn by simp
  then have "?N * mx * (999 / 1000) < of_nat (expand_limit mx N) + 1"
    unfolding expand_limit_def using nat_of_dbl_bounds(2) [of "dbl_mult (dbl_of_nat N) mx"] by linarith
  moreover have "of_nat n \<le> ?N * mx * (999 / 1000) - 1"
  proof -
    have "of_nat n * 999 \<le> (?N * mn) * 1000 + mn * 1000" using n by (simp add: field_simps)
    then show ?thesis using m1 m2 N mn(2) by linarith
  qed
  ultimately have "(of_nat n :: rat) < of_nat (expand_limit mx N)" by linarith
  then show ?thesis by simp
qed

subsection \<open>Reinserting the elements\<close>

lemma Resize_loop_ok:
  assumes "shape_ok s" "probe_ok F (slots s)"
    "size (content F s) + size (filter_mset (\<lambda>x. \<not> IsEmpty F x) (mset els)) \<le> length (slots s)"
  shows "\<exists>xs. Resize_loop F els s = Some (s\<lparr>slots := xs\<rparr>) \<and> length xs = length (slots s) \<and> probe_ok F xs \<and>
     filter_mset (\<lambda>x. \<not> IsEmpty F x) (mset xs) = content F s + filter_mset (\<lambda>x. \<not> IsEmpty F x) (mset els)"
  using assms
proof (induction els arbitrary: s)
  case Nil
  then show ?case by (auto simp: content_def intro!: exI [of _ "slots s"])
next
  case (Cons e els)
  show ?case
  proof (cases "IsEmpty F e")
    case True with Cons show ?thesis by simp
  next
    case False
    let ?n = "length (slots s)"
    from False Cons.prems have sz: "size (content F s) < ?n" by simp
    then obtain f where f: "f < ?n" "IsEmpty F (slots s ! f)" using free_slot_exists by blast
    then have n: "slots s \<noteq> []" "ideal F ?n e < ?n" by (auto intro: ideal_less gr_zeroI)
    from FirstAvailableSlot_ends [OF Cons.prems(1) f n(2)] obtain i where
      i: "FirstAvailableSlot F s (ideal F ?n e) = Some i" "i < ?n" "path_ok F (slots s) (ideal F ?n e) i"
        "IsEmpty F (slots s ! i)" by blast
    let ?s = "s\<lparr>slots := (slots s)[i := e]\<rparr>"
    have "shape_ok ?s" "probe_ok F (slots ?s)" using Cons.prems i False by (simp_all add: probe_ok_place)
    moreover have c: "content F ?s = add_mset e (content F s)" using i False by (intro content_place)
    ultimately obtain xs where "Resize_loop F els ?s = Some (?s\<lparr>slots := xs\<rparr>)" "length xs = ?n" "probe_ok F xs"
      "filter_mset (\<lambda>x. \<not> IsEmpty F x) (mset xs) = content F ?s + filter_mset (\<lambda>x. \<not> IsEmpty F x) (mset els)"
      using Cons.IH [of ?s] Cons.prems(3) False by auto
    then show ?thesis using i n c False Cons.prems(1)
      by (auto simp: IndexForHash_ideal intro!: exI [of _ xs])
  qed
qed

context hash_fns
begin

lemma content_Allocate: "content F (AllocateStorage F n s) = {#}"
  by (simp add: content_def AllocateStorage_def MakeEmpty_IsEmpty)

lemma probe_ok_Allocate: "probe_ok F (replicate n (MakeEmpty F))"
  by (simp add: probe_ok_def MakeEmpty_IsEmpty)

lemma Resize_ok:
  assumes "shape_ok s" "size (content F s) \<le> max m kMinBuckets"
  shows "\<exists>s'. Resize F m s = Some s' \<and> shape_ok s' \<and> num_buckets s' = max m kMinBuckets \<and>
     probe_ok F (slots s') \<and> content F s' = content F s \<and> num_elements s' = num_elements s \<and>
     min_load_factor s' = min_load_factor s \<and> max_load_factor s' = max_load_factor s \<and>
     elements_until_expand s' = expand_limit (max_load_factor s) (num_buckets s')"
proof -
  define N where "N = max m kMinBuckets"
  let ?a = "AllocateStorage F N s"
  have "shape_ok ?a" "probe_ok F (slots ?a)" "length (slots ?a) = N"
    using probe_ok_Allocate by (simp_all add: AllocateStorage_def)
  with assms obtain xs where "Resize_loop F (slots s) ?a = Some (?a\<lparr>slots := xs\<rparr>)" "length xs = N" "probe_ok F xs"
    "filter_mset (\<lambda>x. \<not> IsEmpty F x) (mset xs) = content F s"
    using Resize_loop_ok [of ?a F "slots s"]
    by (auto simp: content_Allocate N_def content_def [of F s, symmetric])
  moreover have "(if m < kMinBuckets then kMinBuckets else m) = N" by (simp add: N_def)
  ultimately show ?thesis using assms(1)
    by (auto simp: Resize_def Let_def AllocateStorage_def content_def expand_limit_def N_def)
qed

lemma Resize_inv:
  assumes "hs_inv F s" "num_elements s < max m kMinBuckets"
  shows "\<exists>s'. Resize F m s = Some s' \<and> hs_inv F s' \<and> num_buckets s' = max m kMinBuckets \<and>
     content F s' = content F s \<and> num_elements s' = num_elements s \<and>
     min_load_factor s' = min_load_factor s \<and> max_load_factor s' = max_load_factor s"
  using Resize_ok [of s m] hs_invD [OF assms(1)] assms(2) by (auto simp: hs_inv_def)

lemma Expand_inv:
  assumes "hs_inv F s"
  shows "\<exists>s'. Expand F s = Some s' \<and> hs_inv F s' \<and> content F s' = content F s \<and>
     num_elements s' = num_elements s \<and> num_elements s' < elements_until_expand s' \<and>
     elements_until_expand s' < num_buckets s'"
proof -
  let ?m = "nat_of_dbl (dbl_div (dbl_of_nat (num_elements s)) (min_load_factor s))"
  have l: "load_ok (min_load_factor s) (max_load_factor s)" using assms by (rule hs_invD)
  then have x: "0 < min_load_factor s" "min_load_factor s \<le> 99 / 100" "0 \<le> max_load_factor s" "max_load_factor s \<le> 99 / 100"
    by (auto simp: load_ok_def)
  have N: "?m \<le> max ?m kMinBuckets" "1000 \<le> max ?m kMinBuckets" by (simp_all add: kMinBuckets_def)
  from Resize_inv [OF assms resize_leaves_room [OF x(1,2) N]] obtain s' where
    s': "Expand F s = Some s'" "hs_inv F s'" "num_buckets s' = max ?m kMinBuckets" "content F s' = content F s"
      "num_elements s' = num_elements s" "max_load_factor s' = max_load_factor s"
    unfolding Expand_def by blast
  moreover have "num_elements s' < elements_until_expand s'"
    using expand_leaves_room [OF l N] hs_invD(6) [OF s'(2)] s' by simp
  moreover have "elements_until_expand s' < num_buckets s'"
    using expand_limit_less [OF x(3,4), of "num_buckets s'"] hs_invD(6) [OF s'(2)] s' by (simp add: kMinBuckets_def)
  ultimately show ?thesis by blast
qed

text \<open>The first lines of both insertion routines leave room for one more element.\<close>

lemma make_room:
  assumes "hs_inv F s"
  shows "\<exists>s'. (if num_elements s \<ge> elements_until_expand s then Expand F s else Some s) = Some s' \<and>
     hs_inv F s' \<and> content F s' = content F s \<and> num_elements s' + 1 < num_buckets s'"
proof (cases "num_elements s \<ge> elements_until_expand s")
  case True
  with Expand_inv [OF assms] show ?thesis by fastforce
next
  case False
  then have "num_buckets s \<noteq> 0"
    using hs_invD(6) [OF assms] by (metis expand_limit_0 zero_le)
  then have "elements_until_expand s < num_buckets s"
    using expand_limit_less [of "max_load_factor s" "num_buckets s"] hs_invD(5,6) [OF assms]
    by (auto simp: load_ok_def simp flip: neq0_conv)
  with False assms show ?thesis by auto
qed

lemma find_loop_sound:
  assumes "hs_inv F s" "num_buckets s \<noteq> 0" "\<And>x. matches x \<Longrightarrow> hashfn F x = hash"
  shows "\<exists>i failed. FindIndexImpl F True s matches hash = Some (i, failed) \<and> i < num_buckets s \<and>
     path_ok F (slots s) (hash mod num_buckets s) i \<and>
     (if failed then IsEmpty F (slots s ! i) \<and> (\<forall>x \<in># content F s. \<not> matches x)
      else \<not> IsEmpty F (slots s ! i) \<and> matches (slots s ! i))"
proof -
  let ?n = "length (slots s)" and ?h = "hash mod length (slots s)"
  note inv = hs_invD [OF assms(1)]
  have n: "0 < ?n" "?h < ?n" using assms(2) inv(1) by auto
  have "size (content F s) < ?n" using inv(1,2,7) assms(2) by simp
  then obtain f where f: "f < ?n" "IsEmpty F (slots s ! f)" using free_slot_exists by blast
  from FindIndexImpl_loop_ends [OF inv(1) f n(2), of True matches] obtain i failed where
    r: "FindIndexImpl_loop F True s matches ?h = Some (i, failed)" "i < ?n" "path_ok F (slots s) ?h i"
    and q: "if failed then IsEmpty F (slots s ! i) \<and>
        (\<forall>k < ?n. cdist ?n ?h k < cdist ?n ?h i \<longrightarrow> \<not> matches (slots s ! k))
      else \<not> IsEmpty F (slots s ! i) \<and> matches (slots s ! i)" by auto
  have "\<not> matches x" if failed: "failed" and x: "x \<in># content F s" for x
  proof
    assume m: "matches x"
    from x obtain j where j: "j < ?n" "slots s ! j = x" "\<not> IsEmpty F x"
      by (auto simp: content_def in_set_conv_nth)
    have p: "path_ok F (slots s) ?h j"
      using probe_okD [OF inv(3) j(1)] j assms(3) [OF m] by (simp add: ideal_def)
    have "\<not> cdist ?n ?h j < cdist ?n ?h i" using q failed j m by auto
    moreover have "\<not> cdist ?n ?h i < cdist ?n ?h j" using q failed path_okD [OF p r(2)] by auto
    ultimately have "i = j" using cdist_inj [OF n(2) r(2) j(1)] by simp
    with q failed j show False by simp
  qed
  with r q show ?thesis using inv(1) assms(2) by (auto simp: FindIndexImpl_def IndexForHash_def)
qed

lemma content_no_buckets: "hs_inv F s \<Longrightarrow> num_buckets s = 0 \<Longrightarrow> content F s = {#}"
  by (auto simp: hs_inv_def content_def)

lemma find_ok:
  assumes "hs_inv F s" "\<And>x. matches x \<Longrightarrow> hashfn F x = hash"
  shows "\<exists>i. FindWithHash F s matches hash = Some i \<and>
     (if \<exists>x \<in># content F s. matches x
      then i < num_buckets s \<and> \<not> IsEmpty F (slots s ! i) \<and> matches (slots s ! i) else i = HashSet_end s)"
proof (cases "num_buckets s = 0")
  case True
  then show ?thesis using content_no_buckets [OF assms(1)]
    by (simp add: FindWithHash_def FindIndex_def HashSet_end_def)
next
  case False
  from find_loop_sound [OF assms(1) False assms(2)] obtain i failed where
    r: "FindIndexImpl F True s matches hash = Some (i, failed)" "i < num_buckets s"
     "if failed then IsEmpty F (slots s ! i) \<and> (\<forall>x \<in># content F s. \<not> matches x)
      else \<not> IsEmpty F (slots s ! i) \<and> matches (slots s ! i)" by blast
  then have "\<not> failed \<Longrightarrow> slots s ! i \<in># content F s"
    using hs_invD(1) [OF assms(1)] by (auto simp: content_def)
  with r False show ?thesis
    by (cases failed) (auto simp: FindWithHash_def FindIndex_def HashSet_end_def)
qed

end

lemma uniq_diff: "uniq F M \<Longrightarrow> uniq F (M - N)"
  unfolding uniq_def by (metis in_diffD diff_right_commute)

context hash_fns
begin

lemma uniq_add:
  assumes "uniq F M" "\<And>x. x \<in># M \<Longrightarrow> \<not> pred_fn F x e"
  shows "uniq F (add_mset e M)"
proof -
  have "\<not> pred_fn F x y" if "x \<in># add_mset e M" "y \<in># add_mset e M - {#x#}" for x y
  proof (cases "x = e")
    case True
    with that assms(2) [of y] show ?thesis using pred_sym by auto
  next
    case False
    with that have "x \<in># M" "y = e \<or> y \<in># M - {#x#}" by (auto simp: add_mset_remove_trivial_If split: if_splits)
    with assms show ?thesis by (auto simp: uniq_def)
  qed
  then show ?thesis by (simp add: uniq_def)
qed

lemma place_inv:
  assumes "hs_inv F s" "num_elements s + 1 < num_buckets s" "\<not> IsEmpty F e"
    "\<And>x. x \<in># content F s \<Longrightarrow> \<not> pred_fn F x e"
    "i < num_buckets s" "IsEmpty F (slots s ! i)" "path_ok F (slots s) (hashfn F e mod num_buckets s) i"
  defines "s' \<equiv> s\<lparr>slots := (slots s)[i := e], num_elements := num_elements s + 1\<rparr>"
  shows "hs_inv F s'" "content F s' = add_mset e (content F s)"
proof -
  note inv = hs_invD [OF assms(1)]
  have i: "i < length (slots s)" using assms(5) inv(1) by simp
  have "content F s' = content F (s\<lparr>slots := (slots s)[i := e]\<rparr>)" by (simp add: s'_def content_def)
  then show c: "content F s' = add_mset e (content F s)"
    using content_place [OF i assms(6,3)] by simp
  have "probe_ok F (slots s')"
    using probe_ok_place [OF inv(3) i assms(6,3)] assms(7) inv(1) by (simp add: s'_def ideal_def)
  then show "hs_inv F s'"
    using inv assms(2) uniq_add [OF inv(4) assms(4)] c by (simp add: hs_inv_def s'_def)
qed

lemma InsertWithHash_ok:
  assumes "hs_inv F s" "\<not> IsEmpty F e"
  shows "\<exists>i is_new s'. HashSet_insert F s e = Some (i, is_new, s') \<and> hs_inv F s' \<and>
     i < num_buckets s' \<and> pred_fn F (slots s' ! i) e \<and> \<not> IsEmpty F (slots s' ! i) \<and>
     is_new = (\<forall>x \<in># content F s. \<not> pred_fn F x e) \<and>
     content F s' = (if is_new then add_mset e (content F s) else content F s)"
proof -
  from make_room [OF assms(1)] obtain t where
    t: "(if num_elements s \<ge> elements_until_expand s then Expand F s else Some s) = Some t" "hs_inv F t"
      "content F t = content F s" "num_elements t + 1 < num_buckets t" by blast
  then have nb: "num_buckets t \<noteq> 0" by simp
  from find_loop_sound [OF t(2) nb, of "\<lambda>x. pred_fn F x e", OF pred_hash] obtain i failed where
    r: "FindIndexImpl F True t (\<lambda>x. pred_fn F x e) (hashfn F e) = Some (i, failed)" "i < num_buckets t"
     "path_ok F (slots t) (hashfn F e mod num_buckets t) i"
    and q: "if failed then IsEmpty F (slots t ! i) \<and> (\<forall>x \<in># content F t. \<not> pred_fn F x e)
      else \<not> IsEmpty F (slots t ! i) \<and> pred_fn F (slots t ! i) e" by blast
  have len: "i < length (slots t)" using r(2) hs_invD(1) [OF t(2)] by simp
  show ?thesis
  proof (cases failed)
    case True
    with q have q': "IsEmpty F (slots t ! i)" "\<And>x. x \<in># content F t \<Longrightarrow> \<not> pred_fn F x e" by simp_all
    from place_inv [OF t(2,4) assms(2) q'(2) r(2) q'(1) r(3)] t r(1,2) True q'(2) len show ?thesis
      using pred_refl assms(2) by (auto simp: HashSet_insert_def InsertWithHash_def)
  next
    case False
    with q len have "slots t ! i \<in># content F t" by (simp add: content_def)
    with False q t r(1,2) show ?thesis
      by (auto simp: HashSet_insert_def InsertWithHash_def)
  qed
qed

lemma PutWithHash_ok:
  assumes "hs_inv F s" "\<not> IsEmpty F e" "\<And>x. x \<in># content F s \<Longrightarrow> \<not> pred_fn F x e"
  shows "\<exists>s'. HashSet_Put F s e = Some s' \<and> hs_inv F s' \<and> content F s' = add_mset e (content F s)"
proof -
  from make_room [OF assms(1)] obtain t where
    t: "(if num_elements s \<ge> elements_until_expand s then Expand F s else Some s) = Some t" "hs_inv F t"
      "content F t = content F s" "num_elements t + 1 < num_buckets t" by blast
  let ?n = "length (slots t)" and ?p = "\<lambda>x. pred_fn F x e"
  note inv = hs_invD [OF t(2)]
  have "0 < ?n" using t(4) inv(1) by linarith
  then have n: "hashfn F e mod ?n < ?n" by (rule mod_less_divisor)
  have "size (content F t) < ?n" using inv(1,2) t(4) by simp
  then obtain f where f: "f < ?n" "IsEmpty F (slots t ! f)" using free_slot_exists by blast
  from FindIndexImpl_loop_ends [OF inv(1) f n, of False ?p] obtain i where
    r: "FindIndexImpl_loop F False t ?p (hashfn F e mod ?n) = Some (i, True)" "i < ?n"
      "path_ok F (slots t) (hashfn F e mod ?n) i" "IsEmpty F (slots t ! i)" by (auto split: if_splits)
  have "i < num_buckets t" "path_ok F (slots t) (hashfn F e mod num_buckets t) i" using r inv(1) by simp_all
  from place_inv [OF t(2,4) assms(2) _ this(1) r(4) this(2)] assms(3) t(3) show ?thesis
    using t(1,4) r(1) n inv(1)
    by (auto simp: HashSet_Put_def PutWithHash_def FindIndexImpl_def IndexForHash_def)
qed

end

subsection \<open>Erasing an element\<close>

text \<open>
  The loop invariant: slot \<open>e\<close> is the hole, every other element is reachable when the hole counts as
  occupied, the slots behind the hole up to \<open>j\<close> are occupied by elements whose ideal slot lies behind
  the hole, and the erased slot \<open>a\<close> is refilled as soon as the hole has moved on.
\<close>

definition hole_path :: "'t hs_fns \<Rightarrow> 't list \<Rightarrow> nat \<Rightarrow> nat \<Rightarrow> nat \<Rightarrow> bool" where
  "hole_path F xs e h j \<longleftrightarrow>
     (\<forall>i < length xs. cdist (length xs) h i < cdist (length xs) h j \<longrightarrow> i = e \<or> \<not> IsEmpty F (xs ! i))"

definition hole_inv :: "'t hs_fns \<Rightarrow> 't list \<Rightarrow> nat \<Rightarrow> nat \<Rightarrow> nat \<Rightarrow> nat \<Rightarrow> bool \<Rightarrow> bool" where
  "hole_inv F xs f a e j filled \<longleftrightarrow>
     a < length xs \<and> e < length xs \<and> j < length xs \<and> f < length xs \<and> IsEmpty F (xs ! f) \<and> f \<noteq> e \<and>
     cdist (length xs) a e \<le> cdist (length xs) a j \<and> cdist (length xs) a j < cdist (length xs) a f \<and>
     (\<forall>k < length xs. k \<noteq> e \<longrightarrow> \<not> IsEmpty F (xs ! k) \<longrightarrow> hole_path F xs e (ideal F (length xs) (xs ! k)) k) \<and>
     (\<forall>k < length xs. 0 < cdist (length xs) e k \<longrightarrow> cdist (length xs) e k \<le> cdist (length xs) e j \<longrightarrow>
        \<not> IsEmpty F (xs ! k) \<and> 0 < cdist (length xs) e (ideal F (length xs) (xs ! k)) \<and>
        cdist (length xs) e (ideal F (length xs) (xs ! k)) \<le> cdist (length xs) e k) \<and>
     (if filled then a \<noteq> e \<and> \<not> IsEmpty F (xs ! a) else a = e)"

lemma hole_invD:
  assumes "hole_inv F xs f a e j filled"
  shows "a < length xs" "e < length xs" "j < length xs" "f < length xs" "IsEmpty F (xs ! f)" "f \<noteq> e"
    "cdist (length xs) a e \<le> cdist (length xs) a j" "cdist (length xs) a j < cdist (length xs) a f"
    "\<And>k. k < length xs \<Longrightarrow> k \<noteq> e \<Longrightarrow> \<not> IsEmpty F (xs ! k) \<Longrightarrow> hole_path F xs e (ideal F (length xs) (xs ! k)) k"
    "\<And>k. k < length xs \<Longrightarrow> 0 < cdist (length xs) e k \<Longrightarrow> cdist (length xs) e k \<le> cdist (length xs) e j \<Longrightarrow>
        \<not> IsEmpty F (xs ! k) \<and> 0 < cdist (length xs) e (ideal F (length xs) (xs ! k)) \<and>
        cdist (length xs) e (ideal F (length xs) (xs ! k)) \<le> cdist (length xs) e k"
    "if filled then a \<noteq> e \<and> \<not> IsEmpty F (xs ! a) else a = e"
  using assms unfolding hole_inv_def by simp_all

text \<open>The next slot lies strictly between the hole and the free slot, or is the free slot.\<close>

lemma next_slot:
  assumes "a < n" "e < n" "j < n" "f < n" "cdist n a e \<le> cdist n a j" "cdist n a j < cdist n a f"
  shows "nxt n j \<noteq> e" "nxt n j \<noteq> a" "cdist n a (nxt n j) = Suc (cdist n a j)"
    "cdist n e (nxt n j) = Suc (cdist n e j)" "cdist n e (nxt n j) \<le> cdist n e f"
    "cdist n (nxt n j) f < cdist n j f"
  using assms by (auto simp: cdist_def nxt_def split: if_splits)

lemma cdist_inside:
  assumes "h < n" "e < n" "k < n" "0 < cdist n e h" "cdist n e h \<le> cdist n e k"
  shows "cdist n h k \<le> cdist n h e"
  using assms by (auto simp: cdist_def split: if_splits)

lemma cdist_triangle: "a < n \<Longrightarrow> b < n \<Longrightarrow> c < n \<Longrightarrow> cdist n a c \<le> cdist n a b + cdist n b c"
  by (auto simp: cdist_def split: if_splits)

text \<open>No path runs through the hole once the next slot is free.\<close>

lemma hole_closes:
  assumes "hole_inv F xs f a e j filled" "IsEmpty F (xs ! nxt (length xs) j)" "IsEmpty F x"
  shows "probe_ok F (xs[e := x])"
proof -
  let ?n = "length xs" and ?j = "nxt (length xs) j"
  note inv = hole_invD [OF assms(1)]
  note nx = next_slot [OF inv(1-4,7,8)]
  show ?thesis unfolding probe_ok_def length_list_update
  proof (intro allI impI)
    fix k assume k: "k < ?n" "\<not> IsEmpty F (xs[e := x] ! k)"
    then have ke: "k \<noteq> e" "\<not> IsEmpty F (xs ! k)"
      using assms(3) inv(2) by (auto simp: nth_list_update split: if_splits)
    let ?h = "ideal F ?n (xs ! k)"
    have h: "?h < ?n" using k(1) by (intro ideal_less) linarith
    have p: "hole_path F xs e ?h k" using inv(9) k(1) ke by blast
    have "\<not> cdist ?n ?h e < cdist ?n ?h k"
    proof
      assume c: "cdist ?n ?h e < cdist ?n ?h k"
      have "\<not> cdist ?n e k \<le> cdist ?n e j"
        using inv(10) [OF k(1)] ke(1) c cdist_inside [OF h inv(2) k(1)] cdist_0_iff [OF inv(2) k(1)] by auto
      moreover have "?j \<noteq> k" using assms(2) ke(2) by auto
      then have "cdist ?n e ?j \<noteq> cdist ?n e k" using cdist_inj [OF inv(2) nxt_less [OF inv(3)] k(1)] by simp
      ultimately have "cdist ?n e ?j < cdist ?n e k" using nx(4) by simp
      moreover have "cdist ?n ?h k = cdist ?n ?h e + cdist ?n e k" using c by (intro cdist_split h inv(2) k(1)) simp
      moreover have "cdist ?n ?h ?j \<le> cdist ?n ?h e + cdist ?n e ?j" by (intro cdist_triangle h inv(2) nxt_less inv(3))
      ultimately have "cdist ?n ?h ?j < cdist ?n ?h k" by linarith
      with p assms(2) nx(1) nxt_less [OF inv(3)] show False unfolding hole_path_def by blast
    qed
    then have "e \<noteq> i" if "cdist ?n ?h i < cdist ?n ?h k" for i using that by auto
    then show "path_ok F (xs[e := x]) (ideal F ?n (xs[e := x] ! k)) k"
      using p ke by (auto simp: path_ok_def hole_path_def)
  qed
qed

lemma hole_stays:
  assumes "hole_inv F xs f a e j filled" "\<not> IsEmpty F (xs ! nxt (length xs) j)"
    "0 < cdist (length xs) e (ideal F (length xs) (xs ! nxt (length xs) j))"
    "cdist (length xs) e (ideal F (length xs) (xs ! nxt (length xs) j)) \<le> cdist (length xs) e (nxt (length xs) j)"
  shows "hole_inv F xs f a e (nxt (length xs) j) filled"
proof -
  let ?n = "length xs" and ?j = "nxt (length xs) j"
  note inv = hole_invD [OF assms(1)]
  note nx = next_slot [OF inv(1-4,7,8)]
  have j: "?j < ?n" "?j \<noteq> f" using inv(3,5) assms(2) by auto
  then have "cdist ?n a ?j \<noteq> cdist ?n a f" using cdist_inj inv(1,4) by blast
  then have d: "cdist ?n a ?j < cdist ?n a f" "cdist ?n a e \<le> cdist ?n a ?j" using nx(3) inv(7,8) by simp_all
  have "\<not> IsEmpty F (xs ! k) \<and> 0 < cdist ?n e (ideal F ?n (xs ! k)) \<and> cdist ?n e (ideal F ?n (xs ! k)) \<le> cdist ?n e k"
    if k: "k < ?n" "0 < cdist ?n e k" "cdist ?n e k \<le> cdist ?n e ?j" for k
  proof (cases "cdist ?n e k \<le> cdist ?n e j")
    case False
    then have "k = ?j" using k(3) nx(4) cdist_inj [OF inv(2) k(1) j(1)] by simp
    then show ?thesis using assms(2-4) by simp
  qed (use inv(10) k in blast)
  then show ?thesis unfolding hole_inv_def using inv(1,2,4-6,9,11) j(1) d by simp
qed

lemma hole_moves:
  assumes "hole_inv F xs f a e j filled" "\<not> IsEmpty F (xs ! nxt (length xs) j)"
    "x = xs ! nxt (length xs) j"
    "cdist (length xs) e (ideal F (length xs) x) = 0 \<or>
     cdist (length xs) e (nxt (length xs) j) < cdist (length xs) e (ideal F (length xs) x)"
  shows "hole_inv F (xs[e := x, nxt (length xs) j := y]) f a (nxt (length xs) j) (nxt (length xs) j) True"
proof -
  let ?n = "length xs" and ?j = "nxt (length xs) j"
  let ?ys = "xs[e := x, ?j := y]"
  note inv = hole_invD [OF assms(1)]
  note nx = next_slot [OF inv(1-4,7,8)]
  have j: "?j < ?n" "?j \<noteq> f" using inv(3,5) assms(2) by auto
  then have "cdist ?n a ?j \<noteq> cdist ?n a f" using cdist_inj inv(1,4) by blast
  then have d: "cdist ?n a ?j < cdist ?n a f" using nx(3) inv(8) by simp
  have h: "ideal F ?n x < ?n" using inv(1) by (intro ideal_less) linarith
  have p: "hole_path F xs e (ideal F ?n x) ?j" using inv(9) [OF j(1)] nx(1) assms(2,3) by auto
  have ys: "?ys ! k = (if k = ?j then y else if k = e then x else xs ! k)" if "k < ?n" for k
    using that inv(2) j(1) by (simp add: nth_list_update)
  have "hole_path F ?ys ?j (ideal F ?n (?ys ! k)) k" if k: "k < ?n" "k \<noteq> ?j" "\<not> IsEmpty F (?ys ! k)" for k
  proof (cases "k = e")
    case True
    have "cdist ?n (ideal F ?n x) e \<le> cdist ?n (ideal F ?n x) ?j"
      using assms(4) h inv(2) j(1) by (auto simp: cdist_def split: if_splits)
    then show ?thesis using p k ys True by (auto simp: hole_path_def)
  next
    case False
    with k ys have "hole_path F xs e (ideal F ?n (xs ! k)) k" by (intro inv(9)) auto
    then show ?thesis using k ys False assms(2,3) by (auto simp: hole_path_def)
  qed
  moreover have "a \<noteq> ?j" "\<not> IsEmpty F (?ys ! a)" using nx(2) inv(1,11) ys assms(2,3) by (auto split: if_splits)
  ultimately show ?thesis
    unfolding hole_inv_def using inv(1,4,5,6) j d ys by simp
qed

lemma erase_condition:
  assumes "e < n" "j < n" "h < n" "j \<noteq> e"
  shows "((if h < e then h + n else h) \<le> e \<or> (if h < e then h + n else h) > (if j < e then j + n else j)) \<longleftrightarrow>
    cdist n e h = 0 \<or> cdist n e j < cdist n e h"
  using assms by (auto simp: cdist_def)

lemma mset_hole_moves:
  assumes "e < length xs" "j < length xs" "j \<noteq> e"
  shows "mset (xs[e := xs ! j, j := y, j := z]) = mset (xs[e := z])"
proof -
  have "xs[e := xs ! j, j := y, j := z] = (xs[e := z])[e := (xs[e := z]) ! j, j := (xs[e := z]) ! e]"
    using assms by (simp add: list_eq_iff_nth_eq nth_list_update)
  then show ?thesis using mset_swap [of j "xs[e := z]" e] assms by simp
qed

context hash_fns
begin

lemma erase_loop_ok:
  assumes "hole_inv F (slots s) f a e j filled" "shape_ok s"
  shows "\<exists>xs filled'. erase_loop F s e j filled = Some (s\<lparr>slots := xs\<rparr>, filled') \<and> length xs = length (slots s) \<and>
     probe_ok F xs \<and> filter_mset (\<lambda>x. \<not> IsEmpty F x) (mset xs) =
       filter_mset (\<lambda>x. \<not> IsEmpty F x) (mset ((slots s)[e := MakeEmpty F])) \<and>
     (filled' = (\<not> IsEmpty F (xs ! a)))"
  using assms
proof (induction "cdist (length (slots s)) j f" arbitrary: s e j filled rule: less_induct)
  case less
  let ?n = "length (slots s)" and ?j = "nxt (length (slots s)) j"
  let ?x = "slots s ! ?j"
  note inv = hole_invD [OF less.prems(1)]
  note nx = next_slot [OF inv(1-4,7,8)]
  have j: "?j < ?n" using inv(3) by simp
  have el: "ElementForIndex s ?j = Some ?x" using j by (simp add: ElementForIndex_def)
  have ne: "slots s \<noteq> []" using inv(1) by auto
  note unfold = erase_loop.simps [of F s e j filled] NextIndex_nxt [OF less.prems(2)] el Let_def
  show ?case
  proof (cases "IsEmpty F ?x")
    case True
    have "filled = (\<not> IsEmpty F ((slots s)[e := MakeEmpty F] ! a))"
      using inv(2,11) MakeEmpty_IsEmpty by (auto split: if_splits)
    moreover have "erase_loop F s e j filled = Some (s\<lparr>slots := (slots s)[e := MakeEmpty F]\<rparr>, filled)"
      using True by (simp add: unfold)
    ultimately show ?thesis using hole_closes [OF less.prems(1) True MakeEmpty_IsEmpty]
      by (intro exI [of _ "(slots s)[e := MakeEmpty F]"]) simp
  next
    case False
    let ?h = "ideal F ?n ?x"
    let ?moves = "cdist ?n e ?h = 0 \<or> cdist ?n e ?j < cdist ?n e ?h"
    let ?s = "s\<lparr>slots := (slots s)[e := ?x, ?j := moved F ?x]\<rparr>"
    have h: "?h < ?n" using inv(1) by (intro ideal_less) linarith
    have step: "erase_loop F s e j filled =
        (if ?moves then erase_loop F ?s ?j ?j True else erase_loop F s e ?j filled)"
      using False less.prems(2)
      by (simp only: unfold IndexForHash_ideal [OF less.prems(2) ne] Option.bind.simps if_False
          erase_condition [OF inv(2) j h nx(1)])
    show ?thesis
    proof (cases ?moves)
      case True
      have "hole_inv F (slots ?s) f a ?j ?j True"
        using hole_moves [OF less.prems(1) False refl True] by simp
      moreover have "shape_ok ?s" "cdist (length (slots ?s)) ?j f < cdist ?n j f"
        using less.prems(2) nx(6) by simp_all
      ultimately show ?thesis
        using less.hyps [of ?s ?j ?j True] step True mset_hole_moves [OF inv(2) j nx(1)] by simp
    next
      case m: False
      then have "hole_inv F (slots s) f a e ?j filled"
        using hole_stays [OF less.prems(1) False] by simp
      with less.hyps [of s ?j e filled] less.prems(2) nx(6) step m show ?thesis by simp
    qed
  qed
qed

end

subsection \<open>Iteration\<close>



lemma NextNonEmptySlot_loop_ok:
  assumes "shape_ok s" "i \<le> num_buckets s"
  shows "\<exists>k. NextNonEmptySlot_loop F s i = Some k \<and> i \<le> k \<and> k \<le> num_buckets s \<and>
     (\<forall>m. i \<le> m \<longrightarrow> m < k \<longrightarrow> IsEmpty F (slots s ! m)) \<and> (k < num_buckets s \<longrightarrow> \<not> IsEmpty F (slots s ! k))"
  using assms
proof (induction "num_buckets s - i" arbitrary: i rule: less_induct)
  case less
  show ?case
  proof (cases "i < num_buckets s \<and> IsEmpty F (slots s ! i)")
    case True
    then have "num_buckets s - (i + 1) < num_buckets s - i" "i + 1 \<le> num_buckets s" by linarith+
    with less.hyps [OF this(1)] less.prems(1) obtain k where
      k: "NextNonEmptySlot_loop F s (i + 1) = Some k" "i + 1 \<le> k" "k \<le> num_buckets s"
      "\<forall>m. i + 1 \<le> m \<longrightarrow> m < k \<longrightarrow> IsEmpty F (slots s ! m)" "k < num_buckets s \<longrightarrow> \<not> IsEmpty F (slots s ! k)"
      by blast
    then have "\<forall>m. i \<le> m \<longrightarrow> m < k \<longrightarrow> IsEmpty F (slots s ! m)"
      using True by (metis Suc_eq_plus1 Suc_leI le_neq_implies_less)
    with k True less.prems show ?thesis
      by (subst NextNonEmptySlot_loop.simps) (auto simp: IsFreeSlot_def ElementForIndex_def)
  next
    case False
    with less.prems show ?thesis
      by (subst NextNonEmptySlot_loop.simps) (auto simp: IsFreeSlot_def ElementForIndex_def)
  qed
qed

text \<open>A \<^verbatim>\<open>for\<close> loop over the set: the elements at the successive iterator positions.\<close>

partial_function (option) iterate :: "'t hs_fns \<Rightarrow> 't hash_set \<Rightarrow> nat \<Rightarrow> 't list option" where
  "iterate F s i =
     (if i = HashSet_end s then Some []
      else do {
        x \<leftarrow> ElementForIndex s i;
        k \<leftarrow> NextNonEmptySlot F s i;
        xs \<leftarrow> iterate F s k;
        Some (x # xs)
      })"

lemma filter_drop_skip:
  assumes "i \<le> k" "k \<le> length xs" "\<And>m. i \<le> m \<Longrightarrow> m < k \<Longrightarrow> \<not> P (xs ! m)"
  shows "filter P (drop i xs) = filter P (drop k xs)"
  using assms
proof (induction "k - i" arbitrary: i)
  case (Suc d)
  then have "drop i xs = xs ! i # drop (Suc i) xs" by (simp add: Cons_nth_drop_Suc)
  with Suc.hyps(1) [of "Suc i"] Suc.hyps(2) Suc.prems show ?case by simp
qed simp

lemma iterate_ok:
  assumes "shape_ok s" "i \<le> num_buckets s" "i < num_buckets s \<Longrightarrow> \<not> IsEmpty F (slots s ! i)"
  shows "iterate F s i = Some (filter (\<lambda>x. \<not> IsEmpty F x) (drop i (slots s)))"
  using assms
proof (induction "num_buckets s - i" arbitrary: i rule: less_induct)
  case less
  show ?case
  proof (cases "i = num_buckets s")
    case True
    with less.prems show ?thesis by (subst iterate.simps) (simp add: HashSet_end_def)
  next
    case False
    then have i: "i < length (slots s)" "\<not> IsEmpty F (slots s ! i)" using less.prems by auto
    from NextNonEmptySlot_loop_ok [OF less.prems(1), of "i + 1" F] i less.prems(1) obtain k where
      k: "NextNonEmptySlot F s i = Some k" "i < k" "k \<le> num_buckets s"
        "\<And>m. i < m \<Longrightarrow> m < k \<Longrightarrow> IsEmpty F (slots s ! m)" "k < num_buckets s \<Longrightarrow> \<not> IsEmpty F (slots s ! k)"
      by (auto simp: NextNonEmptySlot_def Suc_le_eq)
    have "iterate F s k = Some (filter (\<lambda>x. \<not> IsEmpty F x) (drop k (slots s)))"
      using less.hyps [of k] less.prems(1) k i by auto
    moreover have "filter (\<lambda>x. \<not> IsEmpty F x) (drop (Suc i) (slots s)) = filter (\<lambda>x. \<not> IsEmpty F x) (drop k (slots s))"
      using k less.prems(1) by (intro filter_drop_skip) auto
    moreover have "drop i (slots s) = slots s ! i # drop (Suc i) (slots s)" using i by (simp add: Cons_nth_drop_Suc)
    ultimately show ?thesis using i k(1) less.prems(1) False
      by (subst iterate.simps) (simp add: HashSet_end_def ElementForIndex_def)
  qed
qed

lemma begin_ok:
  assumes "shape_ok s"
  shows "\<exists>i. HashSet_begin F s = Some i \<and> i \<le> num_buckets s \<and>
     (i < num_buckets s \<longrightarrow> \<not> IsEmpty F (slots s ! i)) \<and> (\<forall>m < i. IsEmpty F (slots s ! m))"
proof (cases "num_buckets s \<noteq> 0 \<and> IsEmpty F (slots s ! 0)")
  case True
  from NextNonEmptySlot_loop_ok [OF assms, of 1 F] True obtain k where
    "NextNonEmptySlot F s 0 = Some k" "1 \<le> k" "k \<le> num_buckets s"
    "\<forall>m. 1 \<le> m \<longrightarrow> m < k \<longrightarrow> IsEmpty F (slots s ! m)" "k < num_buckets s \<longrightarrow> \<not> IsEmpty F (slots s ! k)"
    by (auto simp: NextNonEmptySlot_def)
  then have "\<forall>m < k. IsEmpty F (slots s ! m)" using True by (metis One_nat_def Suc_leI neq0_conv)
  with True \<open>NextNonEmptySlot F s 0 = Some k\<close> \<open>k \<le> num_buckets s\<close> \<open>k < num_buckets s \<longrightarrow> _\<close> assms show ?thesis
    by (auto simp: HashSet_begin_def IsFreeSlot_def ElementForIndex_def)
next
  case False
  with assms show ?thesis by (auto simp: HashSet_begin_def IsFreeSlot_def ElementForIndex_def)
qed

lemma iterate_begin:
  assumes "shape_ok s"
  shows "\<exists>i. HashSet_begin F s = Some i \<and> iterate F s i = Some (filter (\<lambda>x. \<not> IsEmpty F x) (slots s))"
proof -
  from begin_ok [OF assms, of F] obtain i where i: "HashSet_begin F s = Some i" "i \<le> num_buckets s"
     "i < num_buckets s \<longrightarrow> \<not> IsEmpty F (slots s ! i)" "\<forall>m < i. IsEmpty F (slots s ! m)" by blast
  then have "filter (\<lambda>x. \<not> IsEmpty F x) (drop 0 (slots s)) = filter (\<lambda>x. \<not> IsEmpty F x) (drop i (slots s))"
    using assms by (intro filter_drop_skip) auto
  with i iterate_ok [OF assms i(2)] show ?thesis by auto
qed

subsection \<open>The remaining operations\<close>

text \<open>
  The sizes \<^verbatim>\<open>reserve\<close> can serve: \<open>2 ^ 60\<close> buckets hold them at the maximum load, so nothing in the
  search for the number of buckets wraps around or leaves the range of \<^verbatim>\<open>size_t\<close>.
\<close>

definition reservable :: "rat \<Rightarrow> nat \<Rightarrow> bool" where
  "reservable mx n \<longleftrightarrow> of_nat n + 3 \<le> 2 ^ 60 * mx"

lemma reserve_limit:
  assumes "0 < mx" "mx \<le> 99 / 100" "k \<le> 2 ^ 61"
  shows "size_of_dbl (dbl_mult (dbl_of_nat k) mx) = Some (expand_limit mx k)"
proof -
  have "dbl_mult (dbl_of_nat k) mx \<le> of_nat k * mx * (1001 / 1000)" using assms by (intro dbl_mult_of_nat_bounds) simp
  also have "\<dots> \<le> of_nat (2 ^ 61) * 1 * (1001 / 1000)"
    using assms of_nat_mono [OF assms(3), where 'a = rat] by (intro mult_right_mono mult_mono) simp_all
  finally show ?thesis by (simp add: size_of_dbl_def expand_limit_def)
qed

lemma reserve_start:
  assumes "0 < mx" "reservable mx n"
  obtains k where "size_of_dbl (dbl_div (dbl_of_nat n) mx) = Some k" "k \<le> 2 ^ 61"
proof -
  have "dbl_div (dbl_of_nat n) mx \<le> of_nat n / mx * (1001 / 1000)"
    using dbl_mult_of_nat_bounds(2) [of "1 / mx" n] assms by (simp add: dbl_mult_def dbl_div_def)
  also have "\<dots> \<le> 2 ^ 60 * (1001 / 1000)"
    using assms by (intro mult_right_mono) (simp_all add: reservable_def divide_le_eq)
  finally have d: "dbl_div (dbl_of_nat n) mx \<le> 2 ^ 60 * (1001 / 1000)" .
  have "of_nat (nat_of_dbl (dbl_div (dbl_of_nat n) mx)) \<le> dbl_div (dbl_of_nat n) mx"
    by (rule nat_of_dbl_bounds) (simp add: dbl_div_def)
  then have "(of_nat (nat_of_dbl (dbl_div (dbl_of_nat n) mx)) :: rat) \<le> of_nat (2 ^ 61)" using d by simp
  then have "nat_of_dbl (dbl_div (dbl_of_nat n) mx) \<le> 2 ^ 61" by (simp only: of_nat_le_iff)
  then show ?thesis using that d by (simp add: size_of_dbl_def)
qed

lemma reserve_loop_ends:
  assumes "0 < mx" "mx \<le> 99 / 100" "reservable mx n" "k \<le> 2 ^ 61"
  shows "\<exists>b. reserve_loop mx n k = Some b \<and> k \<le> b \<and> n + 1 < expand_limit mx b"
proof -
  have n: "(n + 1) mod 2 ^ 64 = n + 1"
  proof -
    have "(of_nat n :: rat) < of_nat (2 ^ 60)" using assms(1-3) by (simp add: reservable_def)
    then have "n < 2 ^ 60" by (simp only: of_nat_less_iff)
    then show ?thesis by simp
  qed
  have "(of_nat n + 3 :: rat) \<le> of_nat (2 ^ 61) * mx * (999 / 1000)" using assms(1,3) by (simp add: reservable_def)
  also have "\<dots> \<le> dbl_mult (dbl_of_nat (2 ^ 61)) mx" using assms by (intro dbl_mult_of_nat_bounds) simp
  also have "\<dots> < of_nat (expand_limit mx (2 ^ 61)) + 1" unfolding expand_limit_def by (rule nat_of_dbl_bounds)
  finally have "(of_nat (n + 2) :: rat) < of_nat (expand_limit mx (2 ^ 61))" by simp
  then have big: "n + 1 < expand_limit mx (2 ^ 61)" by (simp only: of_nat_less_iff)
  show ?thesis
    using assms(4)
  proof (induction "2 ^ 61 - k" arbitrary: k rule: less_induct)
    case less
    note l = reserve_limit [OF assms(1,2) less.prems]
    show ?case
    proof (cases "n + 1 < expand_limit mx k")
      case True
      then show ?thesis by (subst reserve_loop.simps) (simp add: l n [simplified])
    next
      case False
      then have k: "k < 2 ^ 61" using big less.prems by (metis le_neq_implies_less)
      then have "2 ^ 61 - (k + 1) < 2 ^ 61 - k" "k + 1 \<le> 2 ^ 61" "(k + 1) mod 2 ^ 64 = k + 1" by simp_all
      with less.hyps [of "k + 1"] obtain b where
        "reserve_loop mx n ((k + 1) mod 2 ^ 64) = Some b" "k + 1 \<le> b" "n + 1 < expand_limit mx b" by auto
      with False show ?thesis by (subst reserve_loop.simps) (auto simp: l n [simplified] not_less)
    qed
  qed
qed

lemma hs_inv_clear: "hs_inv F s \<Longrightarrow> hs_inv F (HashSet_clear s) \<and> content F (HashSet_clear s) = {#}"
  by (auto simp: hs_inv_def HashSet_clear_def DeallocateStorage_def content_def probe_ok_def uniq_def)

lemma hs_inv_new: "load_ok mn mx \<Longrightarrow> hs_inv F (HashSet_new mn mx) \<and> content F (HashSet_new mn mx) = {#}"
  by (auto simp: hs_inv_def HashSet_new_def content_def probe_ok_def uniq_def)

lemma default_load_ok: "load_ok kDefaultMinLoadFactor kDefaultMaxLoadFactor"
  using dbl_error [of "4 / 10"] dbl_error [of "7 / 10"]
  unfolding load_ok_def kDefaultMinLoadFactor_def kDefaultMaxLoadFactor_def abs_le_iff by (simp; linarith)

lemma HashSet_copy_slots:
  "shape_ok s \<Longrightarrow> HashSet_copy F s = s\<lparr>owns_data := True\<rparr>"
  by (simp add: HashSet_copy_def AllocateStorage_def Let_def map_nth)

context hash_fns
begin

lemma hs_inv_buffer:
  "load_ok mn mx \<Longrightarrow> hs_inv F (HashSet_buffer F mn mx buf) \<and> content F (HashSet_buffer F mn mx buf) = {#}"
  by (auto simp: hs_inv_def HashSet_buffer_def content_def probe_ok_def uniq_def MakeEmpty_IsEmpty expand_limit_def)

lemma ShrinkToMaximumLoad_ok:
  assumes "hs_inv F s"
  shows "\<exists>s'. ShrinkToMaximumLoad F s = Some s' \<and> hs_inv F s' \<and> content F s' = content F s"
proof -
  let ?m = "nat_of_dbl (dbl_div (dbl_of_nat (num_elements s)) (max_load_factor s))"
  have "0 < max_load_factor s" "max_load_factor s \<le> 99 / 100" using hs_invD(5) [OF assms] by (auto simp: load_ok_def)
  from resize_leaves_room [OF this, of "num_elements s" "max ?m kMinBuckets"]
  have "num_elements s < max ?m kMinBuckets" by (simp add: kMinBuckets_def)
  from Resize_inv [OF assms this] show ?thesis by (auto simp: ShrinkToMaximumLoad_def)
qed

lemma HashSet_reserve_ok:
  assumes "hs_inv F s" "reservable (max_load_factor s) n"
  shows "\<exists>s'. HashSet_reserve F n s = Some s' \<and> hs_inv F s' \<and> content F s' = content F s \<and>
     n + 1 < elements_until_expand s' \<and> num_buckets s \<le> num_buckets s'"
proof -
  note inv = hs_invD [OF assms(1)]
  have mx: "0 < max_load_factor s" "max_load_factor s \<le> 99 / 100" using inv(5) by (auto simp: load_ok_def)
  obtain k where k: "size_of_dbl (dbl_div (dbl_of_nat n) (max_load_factor s)) = Some k" "k \<le> 2 ^ 61"
    by (rule reserve_start [OF mx(1) assms(2)])
  from reserve_loop_ends [OF mx assms(2) k(2)] obtain b where
    b: "reserve_loop (max_load_factor s) n k = Some b" "n + 1 < expand_limit (max_load_factor s) b" by blast
  show ?thesis
  proof (cases "b > num_buckets s")
    case True
    then have "num_elements s < max b kMinBuckets" using inv(1,2,7) by (auto simp: content_def)
    from Resize_inv [OF assms(1) this] obtain s' where s': "Resize F b s = Some s'" "hs_inv F s'"
      "num_buckets s' = max b kMinBuckets" "content F s' = content F s" "max_load_factor s' = max_load_factor s" by blast
    have "expand_limit (max_load_factor s) b \<le> elements_until_expand s'"
      using hs_invD(6) [OF s'(2)] s' mx by (simp add: expand_limit_mono)
    with b k(1) s' True show ?thesis by (auto simp: HashSet_reserve_def)
  next
    case False
    then have "expand_limit (max_load_factor s) b \<le> elements_until_expand s"
      using inv(6) mx by (simp add: expand_limit_mono)
    with b k(1) False assms(1) show ?thesis by (auto simp: HashSet_reserve_def)
  qed
qed

lemma SetLoadFactor_ok:
  assumes "hs_inv F s" "load_ok mn mx"
  shows "\<exists>s'. SetLoadFactor F mn mx s = Some s' \<and> hs_inv F s' \<and> content F s' = content F s \<and>
     min_load_factor s' = mn \<and> max_load_factor s' = mx"
proof -
  let ?s = "s\<lparr>min_load_factor := mn, max_load_factor := mx,
     elements_until_expand := nat_of_dbl (dbl_mult (dbl_of_nat (num_buckets s)) mx)\<rparr>"
  let ?x = "dbl_mult (dbl (mn + mx)) (1 / 2)"
  let ?m = "nat_of_dbl (dbl_div (dbl_of_nat (num_elements s)) ?x)"
  have l: "0 < mn" "mn \<le> 98 / 100" "mx \<le> 99 / 100" "0 < mx" using assms(2) by (auto simp: load_ok_def)
  have inv: "hs_inv F ?s" "content F ?s = content F s"
    using assms by (auto simp: hs_inv_def content_def expand_limit_def)
  have "0 < dbl (mn + mx)" "dbl (mn + mx) \<le> (mn + mx) * (10001 / 10000)"
    using dbl_lower [of "mn + mx"] dbl_upper [of "mn + mx"] l by auto
  then have "0 < ?x" "?x \<le> 99 / 100"
    using dbl_lower [of "dbl (mn + mx) * (1 / 2)"] dbl_upper [of "dbl (mn + mx) * (1 / 2)"] l
    by (simp_all add: dbl_mult_def)
  from resize_leaves_room [OF this, of "num_elements s" "max ?m kMinBuckets"]
  have "num_elements ?s < max ?m kMinBuckets" by (simp add: kMinBuckets_def)
  from Resize_inv [OF inv(1) this] inv show ?thesis
    by (auto simp: SetLoadFactor_def Let_def)
qed

lemma Verify_loop_ok:
  assumes "probe_ok F (slots s)" "shape_ok s" "\<forall>i \<in> set is. i < num_buckets s"
  shows "Verify_loop F s is errors = Some errors"
  using assms(3)
proof (induction "is")
  case (Cons i "is")
  let ?n = "length (slots s)" and ?x = "slots s ! i"
  let ?t = "s\<lparr>slots := (slots s)[i := MakeEmpty F]\<rparr>"
  have i: "i < ?n" using Cons.prems assms(2) by simp
  then have ne: "slots s \<noteq> []" "ideal F ?n ?x < ?n" by (auto intro: ideal_less gr_zeroI)
  have "FirstAvailableSlot F ?t (ideal F ?n ?x) = Some i" if nonempty: "\<not> IsEmpty F ?x"
  proof -
    have p: "path_ok F (slots s) (ideal F ?n ?x) i" using probe_okD [OF assms(1) i nonempty] .
    from FirstAvailableSlot_ends [of ?t i F "ideal F ?n ?x"] i ne assms(2) MakeEmpty_IsEmpty obtain k where
      k: "FirstAvailableSlot F ?t (ideal F ?n ?x) = Some k" "k < ?n"
        "path_ok F (slots ?t) (ideal F ?n ?x) k" "IsEmpty F (slots ?t ! k)" by auto
    have "\<not> cdist ?n (ideal F ?n ?x) i < cdist ?n (ideal F ?n ?x) k"
      using path_okD [OF k(3), of i] i MakeEmpty_IsEmpty by auto
    moreover have "\<not> cdist ?n (ideal F ?n ?x) k < cdist ?n (ideal F ?n ?x) i"
      using path_okD [OF p k(2)] k(4) by (cases "k = i") auto
    ultimately have "k = i" using cdist_inj [OF ne(2) k(2) i] by simp
    with k show ?thesis by simp
  qed
  with Cons assms(2) ne show ?case by (simp add: Let_def IndexForHash_ideal)
qed simp

end

subsection \<open>The serialised form reads back\<close>

lemma WriteElements_ok:
  assumes "0 < size_of"
  shows "\<exists>m'. WriteElements size_of xs (Some m, off) = (Some m', off + size_of * length xs) \<and>
     ReadElements m' size_of (length xs) off = Some (xs, off + size_of * length xs) \<and> (\<forall>p < off. m' p = m p)"
proof (induction xs arbitrary: m off)
  case (Cons x xs)
  from Cons [of "m(off \<mapsto> CellElem x)" "off + size_of"] obtain m' where
    m': "WriteElements size_of xs (Some (m(off \<mapsto> CellElem x)), off + size_of) =
        (Some m', off + size_of + size_of * length xs)"
      "ReadElements m' size_of (length xs) (off + size_of) = Some (xs, off + size_of + size_of * length xs)"
      "\<forall>p < off + size_of. m' p = (m(off \<mapsto> CellElem x)) p" by blast
  then have "m' off = Some (CellElem x)" "\<forall>p < off. m' p = m p" using assms by simp_all
  with m' show ?case by (simp add: WriteToBytes_def algebra_simps)
qed simp

lemma WriteElements_null: "WriteElements size_of xs (None, off) = (None, off + size_of * length xs)"
  by (induction xs arbitrary: off) (simp_all add: WriteToBytes_def algebra_simps)

lemma memory_roundtrip:
  assumes "shape_ok s" "num_elements s \<le> num_buckets s" "0 < size_of"
  shows "\<exists>m' n. WriteToMemory size_of s (Some m) = (Some m', n) \<and> WriteToMemory size_of s None = (None, n) \<and>
     HashSet_from_memory size_of m' copy = Some (s\<lparr>owns_data := copy\<rparr>, n)"
proof -
  let ?m = "m(0 \<mapsto> CellU64 (num_elements s), 8 \<mapsto> CellU64 (num_buckets s),
    16 \<mapsto> CellU64 (elements_until_expand s), 24 \<mapsto> CellDouble (min_load_factor s),
    32 \<mapsto> CellDouble (max_load_factor s)) :: 'a cells"
  from WriteElements_ok [OF assms(3), of "slots s" ?m 40] obtain m' where
    m': "WriteElements size_of (slots s) (Some ?m, 40) = (Some m', 40 + size_of * length (slots s))"
      "ReadElements m' size_of (length (slots s)) 40 = Some (slots s, 40 + size_of * length (slots s))"
      "\<forall>p < 40. m' p = ?m p" by blast
  then have "m' 0 = Some (CellU64 (num_elements s))" "m' 8 = Some (CellU64 (num_buckets s))"
    "m' 16 = Some (CellU64 (elements_until_expand s))" "m' 24 = Some (CellDouble (min_load_factor s))"
    "m' 32 = Some (CellDouble (max_load_factor s))" by simp_all
  then have "HashSet_from_memory size_of m' copy = Some (s\<lparr>owns_data := copy\<rparr>, 40 + size_of * length (slots s))"
    using m'(2) assms(1,2) by (simp add: HashSet_from_memory_def ReadU64_def ReadDouble_def)
  then show ?thesis using m'(1) assms(1)
    by (simp add: WriteToMemory_def WriteToBytes_def WriteElements_null Let_def)
qed

context hash_fns
begin

lemma HashSet_erase_ok:
  assumes "hs_inv F s" "it < num_buckets s" "\<not> IsEmpty F (slots s ! it)"
  shows "\<exists>it' s'. HashSet_erase F s it = Some (it', s') \<and> hs_inv F s' \<and>
     content F s' = content F s - {#slots s ! it#} \<and> num_buckets s' = num_buckets s \<and>
     it \<le> it' \<and> it' \<le> num_buckets s' \<and> (it' < num_buckets s' \<longrightarrow> \<not> IsEmpty F (slots s' ! it'))"
proof -
  note inv = hs_invD [OF assms(1)]
  let ?n = "length (slots s)"
  have it: "it < ?n" using assms(2) inv(1) by simp
  have "size (content F s) < ?n" using inv(1,2,7) assms(2) by auto
  then obtain f where f: "f < ?n" "IsEmpty F (slots s ! f)" using free_slot_exists by blast
  then have "f \<noteq> it" using assms(3) by auto
  then have "0 < cdist ?n it f" using cdist_0_iff [OF it f(1)] by auto
  moreover have "hole_path F (slots s) it (ideal F ?n (slots s ! k)) k" if "k < ?n" "\<not> IsEmpty F (slots s ! k)" for k
    using probe_okD [OF inv(3) that] by (auto simp: path_ok_def hole_path_def)
  ultimately have "hole_inv F (slots s) f it it it False"
    using it f \<open>f \<noteq> it\<close> by (simp add: hole_inv_def)
  from erase_loop_ok [OF this inv(1)] obtain xs filled where
    l: "erase_loop F s it it False = Some (s\<lparr>slots := xs\<rparr>, filled)" "length xs = ?n" "probe_ok F xs"
      "filter_mset (\<lambda>x. \<not> IsEmpty F x) (mset xs) =
       filter_mset (\<lambda>x. \<not> IsEmpty F x) (mset ((slots s)[it := MakeEmpty F]))" "filled = (\<not> IsEmpty F (xs ! it))" by blast
  let ?s = "s\<lparr>slots := xs, num_elements := num_elements s - 1\<rparr>"
  have c: "content F ?s = content F s - {#slots s ! it#}"
    using l(4) content_remove [OF it assms(3) MakeEmpty_IsEmpty] by (simp add: content_def)
  moreover have "slots s ! it \<in># content F s" using it assms(3) by (simp add: content_def)
  ultimately have "hs_inv F ?s"
    using inv l(2,3) assms(2) uniq_diff [OF inv(4)] by (auto simp: hs_inv_def size_Diff_singleton)
  moreover have "\<exists>it'. (if filled then Some it else NextNonEmptySlot F ?s it) = Some it' \<and> it \<le> it' \<and>
      it' \<le> num_buckets ?s \<and> (it' < num_buckets ?s \<longrightarrow> \<not> IsEmpty F (slots ?s ! it'))"
    using NextNonEmptySlot_loop_ok [of ?s "it + 1" F] l(2,5) inv(1) it
    by (cases filled) (auto simp: NextNonEmptySlot_def)
  ultimately show ?thesis using l(1) c by (auto simp: HashSet_erase_def Let_def)
qed

end

subsection \<open>Refinement of an abstract set\<close>

text \<open>
  A client of the interface: insertion, removal of the element that \<^verbatim>\<open>find\<close> returns, and membership
  test, each with the Boolean that the client observes.
\<close>

datatype 't hs_op = OpInsert 't | OpErase 't | OpContains 't

fun hs_step :: "'t hs_fns \<Rightarrow> 't hs_op \<Rightarrow> 't hash_set \<Rightarrow> (bool \<times> 't hash_set) option" where
  "hs_step F (OpInsert e) s = do { (_, is_new, s) \<leftarrow> HashSet_insert F s e; Some (is_new, s) }"
| "hs_step F (OpErase e) s = do {
     it \<leftarrow> HashSet_find F s e;
     if it = HashSet_end s then Some (False, s)
     else do { (_, s) \<leftarrow> HashSet_erase F s it; Some (True, s) }
   }"
| "hs_step F (OpContains e) s = do { it \<leftarrow> HashSet_find F s e; Some (it \<noteq> HashSet_end s, s) }"

fun hs_run :: "'t hs_fns \<Rightarrow> 't hs_op list \<Rightarrow> 't hash_set \<Rightarrow> bool list option" where
  "hs_run F [] s = Some []"
| "hs_run F (op # ops) s = do { (b, s) \<leftarrow> hs_step F op s; bs \<leftarrow> hs_run F ops s; Some (b # bs) }"

fun set_step :: "'t hs_op \<Rightarrow> 't set \<Rightarrow> bool \<times> 't set" where
  "set_step (OpInsert e) A = (e \<notin> A, insert e A)"
| "set_step (OpErase e) A = (e \<in> A, A - {e})"
| "set_step (OpContains e) A = (e \<in> A, A)"

fun set_run :: "'t hs_op list \<Rightarrow> 't set \<Rightarrow> bool list" where
  "set_run [] A = []"
| "set_run (op # ops) A = (let (b, A) = set_step op A in b # set_run ops A)"

fun op_ok :: "'t hs_fns \<Rightarrow> 't hs_op \<Rightarrow> bool" where
  "op_ok F (OpInsert e) = (\<not> IsEmpty F e)"
| "op_ok F (OpErase e) = True"
| "op_ok F (OpContains e) = True"

locale hash_fns_eq = hash_fns +
  assumes pred_eq: "pred_fn F x y \<longleftrightarrow> x = y"
begin

lemma uniq_erase: "uniq F M \<Longrightarrow> x \<in># M \<Longrightarrow> set_mset (M - {#x#}) = set_mset M - {x}"
  by (auto simp: uniq_def pred_eq dest: in_diffD) (metis insert_DiffM insert_noteq_member)

lemma hs_step_refines:
  assumes "hs_inv F s" "op_ok F op"
  shows "\<exists>s'. hs_step F op s = Some (fst (set_step op (set_mset (content F s))), s') \<and> hs_inv F s' \<and>
     set_mset (content F s') = snd (set_step op (set_mset (content F s)))"
proof (cases op)
  case (OpInsert e)
  with InsertWithHash_ok [OF assms(1), of e] assms(2) show ?thesis by (auto simp: pred_eq)
next
  case (OpErase e)
  from find_ok [OF assms(1), of "\<lambda>x. pred_fn F x e" "hashfn F e", OF pred_hash, unfolded pred_eq] obtain i where
    i: "HashSet_find F s e = Some i"
      "if e \<in># content F s then i < num_buckets s \<and> \<not> IsEmpty F (slots s ! i) \<and> slots s ! i = e else i = HashSet_end s"
    by (auto simp: pred_eq HashSet_find_def)
  show ?thesis
  proof (cases "e \<in># content F s")
    case True
    with i HashSet_erase_ok [OF assms(1), of i] OpErase uniq_erase [OF hs_invD(4) [OF assms(1)] True] show ?thesis
      by (auto simp: HashSet_end_def)
  next
    case False
    with i OpErase assms(1) show ?thesis by auto
  qed
next
  case (OpContains e)
  with find_ok [OF assms(1), of "\<lambda>x. pred_fn F x e" "hashfn F e", OF pred_hash] assms(1) show ?thesis
    by (auto simp: pred_eq HashSet_find_def HashSet_end_def split: if_splits)
qed

lemma hs_run_refines:
  "hs_inv F s \<Longrightarrow> list_all (op_ok F) ops \<Longrightarrow> hs_run F ops s = Some (set_run ops (set_mset (content F s)))"
proof (induction ops arbitrary: s)
  case (Cons op ops)
  then have "op_ok F op" by simp
  from hs_step_refines [OF Cons.prems(1) this] Cons show ?case
    by (fastforce simp: case_prod_beta Let_def)
qed simp

end

interpretation string_set: hash_fns_eq string_fns
  by unfold_locales (auto simp: string_fns_def)

subsection \<open>Properties\<close>

text \<open>
  C1: a client that inserts, erases and looks up elements of a set with plain equality observes, for
  every sequence of operations and every admissible pair of load factors, exactly the answers of a
  mathematical set; every operation returns.
\<close>

theorem HashSet_refines_set:
  assumes "hash_fns_eq F" "load_ok mn mx" "list_all (op_ok F) ops"
  shows "hs_run F ops (HashSet_new mn mx) = Some (set_run ops {})"
  using hash_fns_eq.hs_run_refines [OF assms(1) _ assms(3), of "HashSet_new mn mx"] hs_inv_new [OF assms(2), of F]
  by simp

theorem HashSet_refines_set_witness:
  "hs_run string_fns [OpInsert [1], OpInsert [2, 3], OpErase [1], OpContains [1], OpContains [2, 3]]
     (HashSet_new kDefaultMinLoadFactor kDefaultMaxLoadFactor) = Some [True, True, True, False, True]"
proof -
  have "list_all (op_ok string_fns)
      [OpInsert [1], OpInsert [2, 3], OpErase [1], OpContains [1], OpContains [2, 3]]"
    by (simp add: string_fns_def)
  from HashSet_refines_set [OF string_set.hash_fns_eq_axioms default_load_ok this] show ?thesis by simp
qed

text \<open>
  C8: \<^verbatim>\<open>FindWithHash\<close> ends, and returns the slot of a matching element if there is one and the end
  iterator otherwise, for every key predicate that only matches elements with the given hash.
\<close>

theorem FindWithHash_correct:
  assumes "hash_fns F" "hs_inv F s" "\<And>x. matches x \<Longrightarrow> hashfn F x = hash"
  shows "\<exists>i. FindWithHash F s matches hash = Some i \<and>
     (if \<exists>x. x \<in># content F s \<and> matches x
      then i < num_buckets s \<and> \<not> IsEmpty F (slots s ! i) \<and> matches (slots s ! i) else i = HashSet_end s)"
  using hash_fns.find_ok [OF assms] by (simp add: Bex_def)

theorem FindWithHash_correct_witness:
  "\<exists>i. FindWithHash string_fns HashSet_default (\<lambda>x. x = [7]) (hashfn string_fns [7]) = Some i \<and>
     i = HashSet_end (HashSet_default :: u8 list hash_set)"
proof -
  have inv: "hs_inv string_fns HashSet_default" "content string_fns HashSet_default = {#}"
    using hs_inv_new [OF default_load_ok, of string_fns] by (simp_all add: HashSet_default_def)
  have "\<And>x. x = [7] \<Longrightarrow> hashfn string_fns x = hashfn string_fns [7]" by simp
  from FindWithHash_correct [OF string_set.hash_fns_axioms inv(1) this] inv(2) show ?thesis by simp
qed

text \<open>
  C19: inserting a non-empty item ends and keeps the invariant, growing the table when the load factor
  demands it; the item is added exactly when no equal one was present, and the returned iterator
  points at an equal element.
\<close>

theorem HashSet_insert_correct:
  assumes "hash_fns F" "hs_inv F s" "\<not> IsEmpty F e"
  shows "\<exists>i is_new s'. HashSet_insert F s e = Some (i, is_new, s') \<and> hs_inv F s' \<and>
     i < num_buckets s' \<and> pred_fn F (slots s' ! i) e \<and> \<not> IsEmpty F (slots s' ! i) \<and>
     is_new = (\<not> (\<exists>x. x \<in># content F s \<and> pred_fn F x e)) \<and>
     content F s' = (if is_new then add_mset e (content F s) else content F s)"
  using hash_fns.InsertWithHash_ok [OF assms] by (simp add: Ball_def)

theorem HashSet_insert_correct_witness:
  "\<exists>i is_new s'. HashSet_insert string_fns HashSet_default [65] = Some (i, is_new, s') \<and>
     hs_inv string_fns s' \<and> content string_fns s' = {#[65]#}"
proof -
  have inv: "hs_inv string_fns HashSet_default" "content string_fns HashSet_default = {#}"
    using hs_inv_new [OF default_load_ok, of string_fns] by (simp_all add: HashSet_default_def)
  have "\<not> IsEmpty string_fns [65]" by (simp add: string_fns_def)
  from HashSet_insert_correct [OF string_set.hash_fns_axioms inv(1) this] inv(2) show ?thesis by fastforce
qed

text \<open>
  C2: erasing the element at an iterator ends, keeps the invariant, removes exactly that element
  although later elements may move, and returns an iterator at or behind the old position that is the
  end or points at an element.
\<close>

theorem HashSet_erase_correct:
  assumes "hash_fns F" "hs_inv F s" "it < num_buckets s" "\<not> IsEmpty F (slots s ! it)"
  shows "\<exists>it' s'. HashSet_erase F s it = Some (it', s') \<and> hs_inv F s' \<and>
     content F s' = content F s - {#slots s ! it#} \<and> it \<le> it' \<and>
     (it' = HashSet_end s' \<or> it' < num_buckets s' \<and> \<not> IsEmpty F (slots s' ! it'))"
  using hash_fns.HashSet_erase_ok [OF assms] by (fastforce simp: HashSet_end_def)

theorem HashSet_erase_correct_witness:
  "\<exists>i is_new s it s'. HashSet_insert string_fns HashSet_default [65] = Some (i, is_new, s) \<and>
     HashSet_erase string_fns s i = Some (it, s') \<and> hs_inv string_fns s' \<and> content string_fns s' = {#}"
proof -
  have inv: "hs_inv string_fns HashSet_default" "content string_fns HashSet_default = {#}"
    using hs_inv_new [OF default_load_ok, of string_fns] by (simp_all add: HashSet_default_def)
  have "\<not> IsEmpty string_fns [65]" by (simp add: string_fns_def)
  from string_set.InsertWithHash_ok [OF inv(1) this] inv(2) obtain i b s where
    s: "HashSet_insert string_fns HashSet_default [65] = Some (i, b, s)" "hs_inv string_fns s" "i < num_buckets s"
      "slots s ! i = [65]" "\<not> IsEmpty string_fns (slots s ! i)" "content string_fns s = {#[65]#}"
    by (auto simp: string_set.pred_eq)
  from HashSet_erase_correct [OF string_set.hash_fns_axioms s(2,3,5)] s show ?thesis by auto
qed

text \<open>
  C20: the operations that change only the capacity end, keep the invariant and all elements, and after
  \<^verbatim>\<open>reserve(n)\<close>, for an \<open>n\<close> that \<open>2 ^ 60\<close> buckets hold at the maximum load, the set takes \<open>n\<close> elements without
  growing and has lost no bucket.
\<close>

theorem HashSet_capacity_operations:
  assumes "hash_fns F" "hs_inv F s" "load_ok mn mx" "reservable (max_load_factor s) n"
  shows "(\<exists>s'. HashSet_reserve F n s = Some s' \<and> hs_inv F s' \<and> content F s' = content F s \<and>
       n < elements_until_expand s' \<and> num_buckets s \<le> num_buckets s') \<and>
     (\<exists>s'. ShrinkToMaximumLoad F s = Some s' \<and> hs_inv F s' \<and> content F s' = content F s) \<and>
     (\<exists>s'. SetLoadFactor F mn mx s = Some s' \<and> hs_inv F s' \<and> content F s' = content F s \<and>
       min_load_factor s' = mn \<and> max_load_factor s' = mx)"
  using hash_fns.HashSet_reserve_ok [OF assms(1,2,4)] hash_fns.ShrinkToMaximumLoad_ok [OF assms(1,2)]
    hash_fns.SetLoadFactor_ok [OF assms(1-3)] by fastforce

theorem HashSet_capacity_operations_witness:
  "\<exists>s'. HashSet_reserve string_fns 2000 HashSet_default = Some s' \<and> hs_inv string_fns s' \<and>
     2000 < elements_until_expand s'"
proof -
  have "hs_inv string_fns HashSet_default"
    using hs_inv_new [OF default_load_ok, of string_fns] by (simp add: HashSet_default_def)
  moreover have "reservable (max_load_factor (HashSet_default :: u8 list hash_set)) 2000"
    using dbl_lower [of "7 / 10"]
    by (simp add: reservable_def HashSet_default_def HashSet_new_def kDefaultMaxLoadFactor_def)
  ultimately show ?thesis
    using HashSet_capacity_operations [OF string_set.hash_fns_axioms _ default_load_ok, of HashSet_default 2000] by blast
qed

text \<open>
  C21: on a set that satisfies the invariant \<^verbatim>\<open>Verify\<close> reports no error, and iterating from \<^verbatim>\<open>begin\<close> to
  \<^verbatim>\<open>end\<close> visits each element exactly once.
\<close>

theorem HashSet_Verify_and_iterate:
  assumes "hash_fns F" "hs_inv F s"
  shows "HashSet_Verify F s = Some 0 \<and>
    (\<exists>i xs. HashSet_begin F s = Some i \<and> iterate F s i = Some xs \<and> mset xs = content F s)"
proof -
  note inv = hs_invD [OF assms(2)]
  have "HashSet_Verify F s = Some 0"
    unfolding HashSet_Verify_def by (intro hash_fns.Verify_loop_ok assms(1) inv(1,3)) simp
  with iterate_begin [OF inv(1), of F] show ?thesis by (auto simp: content_def)
qed

theorem HashSet_Verify_and_iterate_witness:
  "\<exists>i is_new s. HashSet_insert string_fns HashSet_default [65] = Some (i, is_new, s) \<and>
     HashSet_Verify string_fns s = Some 0"
proof -
  have inv: "hs_inv string_fns HashSet_default"
    using hs_inv_new [OF default_load_ok, of string_fns] by (simp add: HashSet_default_def)
  have "\<not> IsEmpty string_fns [65]" by (simp add: string_fns_def)
  from string_set.InsertWithHash_ok [OF inv this] obtain i b s where
    s: "HashSet_insert string_fns HashSet_default [65] = Some (i, b, s)" "hs_inv string_fns s" by blast
  from HashSet_Verify_and_iterate [OF string_set.hash_fns_axioms s(2)] s(1) show ?thesis by blast
qed

text \<open>
  C22: the constructor from memory reads back what \<^verbatim>\<open>WriteToMemory\<close> wrote, up to the ownership flag, and
  reports the size that \<^verbatim>\<open>WriteToMemory\<close> returned, which is also the size it returns for a null target.
\<close>

theorem HashSet_memory_roundtrip:
  assumes "hs_inv F s" "0 < size_of"
  shows "\<exists>m' n. WriteToMemory size_of s (Some m) = (Some m', n) \<and> WriteToMemory size_of s None = (None, n) \<and>
     HashSet_from_memory size_of m' copy = Some (s\<lparr>owns_data := copy\<rparr>, n)"
proof -
  have "num_elements s \<le> num_buckets s" using hs_invD(1,2,7) [OF assms(1)] by (auto simp: content_def)
  with hs_invD(1) [OF assms(1)] assms(2) show ?thesis by (intro memory_roundtrip)
qed

theorem HashSet_memory_roundtrip_witness:
  "\<exists>m' n. WriteToMemory 32 HashSet_default (Some Map.empty) = (Some m', n) \<and>
     WriteToMemory 32 HashSet_default None = (None :: u8 list cells option, n) \<and>
     HashSet_from_memory 32 m' True = Some (HashSet_default\<lparr>owns_data := True\<rparr> :: u8 list hash_set, n)"
proof -
  have "hs_inv string_fns HashSet_default"
    using hs_inv_new [OF default_load_ok, of string_fns] by (simp add: HashSet_default_def)
  from HashSet_memory_roundtrip [OF this, of 32 Map.empty True] show ?thesis by simp
qed

end
