(* ===== verification/Bit_Vector.thy ===== *)
theory Bit_Vector
  imports Bit_Utils "HOL-Library.Monad_Syntax"
begin

text \<open>
  \<^verbatim>\<open>BitVector\<close> of \<^verbatim>\<open>libartbase/base/bit_vector.h\<close>, \<^verbatim>\<open>bit_vector-inl.h\<close> and \<^verbatim>\<open>bit_vector.cc\<close>: a growing array
  of 32-bit words read as a set of indices, and the packed two-dimensional arrays on top of it.
  The storage is a list whose length is \<^verbatim>\<open>storage_size_\<close>.  Indices are natural numbers; \<^verbatim>\<open>u32\<close>
  arithmetic on them is reduced modulo \<open>2 ^ 32\<close> where the code computes sizes.

  Growing is where an operation can fail: \<^verbatim>\<open>EnsureSize\<close> asserts that the vector is expandable and that
  the size in words does grow.  Both assertions are modelled as an abort, the value \<open>None\<close>, and every
  operation that may grow its vector passes it on.  Fixed-size vectors are built over memory whose
  allocator is the \<^verbatim>\<open>NoopAllocator\<close> of \<^verbatim>\<open>allocator.cc\<close>, whose \<^verbatim>\<open>Alloc\<close> is a \<^verbatim>\<open>LOG(FATAL)\<close> in every build.
\<close>

unbundle bit_operations_syntax

subsection \<open>Representation\<close>

record bit_vector =
  storage :: "u32 list"
  expandable :: bool

abbreviation (input) kWordBits :: nat where "kWordBits \<equiv> 32"

definition wrap32 :: "nat \<Rightarrow> nat" where
  "wrap32 n = n mod 2 ^ 32"

text \<open>Conversion of an unsigned 32-bit value to \<^verbatim>\<open>int\<close>.\<close>

definition to_int32 :: "int \<Rightarrow> int" where
  "to_int32 n = (n + 2 ^ 31) mod 2 ^ 32 - 2 ^ 31"

definition BitSize :: "bit_vector \<Rightarrow> nat" where
  "BitSize bv = wrap32 (length (storage bv) * kWordBits)"

definition BitsToWords :: "nat \<Rightarrow> nat" where
  "BitsToWords bits = wrap32 (bits + kWordBits - 1) div kWordBits"

definition WordIndex :: "nat \<Rightarrow> nat" where
  "WordIndex idx = drop_bit 5 idx"

definition BitMask :: "nat \<Rightarrow> u32" where
  "BitMask idx = push_bit (idx mod 32) 1"

definition IsBitSet_storage :: "u32 list \<Rightarrow> nat \<Rightarrow> bool" where
  "IsBitSet_storage st idx \<longleftrightarrow> st ! WordIndex idx AND BitMask idx \<noteq> 0"

definition IsBitSet :: "bit_vector \<Rightarrow> nat \<Rightarrow> bool" where
  "IsBitSet bv idx \<longleftrightarrow> idx < BitSize bv \<and> IsBitSet_storage (storage bv) idx"

subsection \<open>Size and single bits\<close>

definition ClearAllBits :: "bit_vector \<Rightarrow> bit_vector" where
  "ClearAllBits bv = bv\<lparr>storage := replicate (length (storage bv)) 0\<rparr>"

definition BitVector_new :: "nat \<Rightarrow> bool \<Rightarrow> bit_vector" where
  "BitVector_new start_bits expand =
     ClearAllBits \<lparr>storage = replicate (BitsToWords start_bits) 0, expandable = expand\<rparr>"

definition EnsureSize :: "nat \<Rightarrow> bit_vector \<Rightarrow> bit_vector option" where
  "EnsureSize idx bv =
     (if idx \<ge> BitSize bv then
        if \<not> expandable bv then None
        else
          let new_size = BitsToWords (wrap32 (idx + 1)) in
          if new_size \<le> length (storage bv) then None
          else Some (bv\<lparr>storage := storage bv @ replicate (new_size - length (storage bv)) 0\<rparr>)
      else Some bv)"

definition SetBit :: "nat \<Rightarrow> bit_vector \<Rightarrow> bit_vector option" where
  "SetBit idx bv = do {
     bv \<leftarrow> (if idx \<ge> BitSize bv then EnsureSize idx bv else Some bv);
     Some (bv\<lparr>storage := (storage bv)[WordIndex idx := storage bv ! WordIndex idx OR BitMask idx]\<rparr>) }"

definition ClearBit :: "nat \<Rightarrow> bit_vector \<Rightarrow> bit_vector" where
  "ClearBit idx bv =
     (if idx < BitSize bv
      then bv\<lparr>storage := (storage bv)[WordIndex idx := storage bv ! WordIndex idx AND NOT (BitMask idx)]\<rparr>
      else bv)"

subsection \<open>Queries\<close>

fun GetHighestBitSet_loop :: "u32 list \<Rightarrow> nat \<Rightarrow> int" where
  "GetHighestBitSet_loop st 0 = - 1"
| "GetHighestBitSet_loop st (Suc idx) =
     (let v = st ! idx in
      if v \<noteq> 0 then to_int32 (31 - int (CLZ v) + int (idx * kWordBits)) else GetHighestBitSet_loop st idx)"

definition GetHighestBitSet :: "bit_vector \<Rightarrow> int" where
  "GetHighestBitSet bv = GetHighestBitSet_loop (storage bv) (length (storage bv))"

definition IsAnyBitSet :: "bit_vector \<Rightarrow> bool" where
  "IsAnyBitSet bv \<longleftrightarrow> GetHighestBitSet bv \<noteq> - 1"

definition GetNumberOfBits :: "bit_vector \<Rightarrow> nat" where
  "GetNumberOfBits bv = nat (GetHighestBitSet bv + 1)"

definition NumSetBits :: "bit_vector \<Rightarrow> nat" where
  "NumSetBits bv = wrap32 (sum_list (map POPCOUNT (storage bv)))"

definition NumSetBits_storage :: "u32 list \<Rightarrow> nat \<Rightarrow> nat" where
  "NumSetBits_storage st end_bit =
     (let word_end = WordIndex end_bit;
          partial_word_bits = end_bit mod 32;
          count = sum_list (map (\<lambda>word. POPCOUNT (st ! word)) [0..<word_end])
      in wrap32 (if partial_word_bits \<noteq> 0
                 then count + POPCOUNT (st ! word_end AND NOT (push_bit partial_word_bits 0xffffffff))
                 else count))"

definition NumSetBits_until :: "bit_vector \<Rightarrow> nat \<Rightarrow> nat" where
  "NumSetBits_until bv end_bit = NumSetBits_storage (storage bv) end_bit"

definition Equal :: "bit_vector \<Rightarrow> bit_vector \<Rightarrow> bool" where
  "Equal bv src \<longleftrightarrow> length (storage bv) = length (storage src) \<and> expandable bv = expandable src \<and>
     storage bv = storage src"

definition SameBitsSet :: "bit_vector \<Rightarrow> bit_vector \<Rightarrow> bool" where
  "SameBitsSet bv src =
     (let our_highest = GetHighestBitSet bv; src_highest = GetHighestBitSet src in
      if our_highest \<noteq> src_highest then False
      else if our_highest \<le> 0 then True
      else let our_highest_index = BitsToWords (nat our_highest) in
        take our_highest_index (storage bv) = take our_highest_index (storage src))"

definition IsSubsetOf :: "bit_vector \<Rightarrow> bit_vector \<Rightarrow> bool" where
  "IsSubsetOf bv other =
     (let this_highest = GetHighestBitSet bv; other_highest = GetHighestBitSet other in
      if this_highest < 0 then True
      else if this_highest > other_highest then False
      else let this_highest_index = BitsToWords (nat (this_highest + 1)) in
        list_all (\<lambda>i. storage bv ! i OR storage other ! i = storage other ! i) [0..<this_highest_index])"

subsection \<open>Set operations\<close>

definition Intersect :: "bit_vector \<Rightarrow> bit_vector \<Rightarrow> bit_vector" where
  "Intersect src bv =
     (let min_size = (if length (storage bv) < length (storage src) then length (storage bv) else length (storage src)) in
      bv\<lparr>storage := map (\<lambda>idx. if idx < min_size then storage bv ! idx AND storage src ! idx else 0)
           [0..<length (storage bv)]\<rparr>)"

text \<open>The loop shared by the unions: word \<open>idx\<close> becomes \<open>update idx\<close>, and a difference is recorded.\<close>

fun update_words :: "(nat \<Rightarrow> u32 \<Rightarrow> u32) \<Rightarrow> nat list \<Rightarrow> u32 list \<times> bool \<Rightarrow> u32 list \<times> bool" where
  "update_words update [] p = p"
| "update_words update (idx # is) (st, changed) =
     (let existing = st ! idx; new = update idx existing in
      if existing \<noteq> new then update_words update is (st[idx := new], True)
      else update_words update is (st, changed))"

definition Union :: "bit_vector \<Rightarrow> bit_vector \<Rightarrow> (bit_vector \<times> bool) option" where
  "Union src bv =
     (let highest_bit = GetHighestBitSet src in
      if highest_bit = - 1 then Some (bv, False)
      else
        let src_size = BitsToWords (nat (highest_bit + 1)); changed = length (storage bv) < src_size in
        do {
          bv \<leftarrow> (if changed then EnsureSize (nat highest_bit) bv else Some bv);
          let (st, changed) = update_words (\<lambda>idx existing. existing OR storage src ! idx) [0..<src_size] (storage bv, changed);
          Some (bv\<lparr>storage := st\<rparr>, changed)
        })"

definition UnionIfNotIn :: "bit_vector \<Rightarrow> bit_vector \<Rightarrow> bit_vector \<Rightarrow> (bit_vector \<times> bool) option" where
  "UnionIfNotIn union_with not_in bv =
     (let highest_bit = GetHighestBitSet union_with in
      if highest_bit = - 1 then Some (bv, False)
      else
        let union_with_size = BitsToWords (nat (highest_bit + 1)) in
        do {
          bv \<leftarrow> (if length (storage bv) < union_with_size then EnsureSize (nat highest_bit) bv else Some bv);
          let not_in_size = length (storage not_in);
          let m = min not_in_size union_with_size;
          let p = update_words (\<lambda>idx existing. existing OR (storage union_with ! idx AND NOT (storage not_in ! idx)))
            [0..<m] (storage bv, False);
          let (st, changed) = update_words (\<lambda>idx existing. existing OR storage union_with ! idx) [m..<union_with_size] p;
          Some (bv\<lparr>storage := st\<rparr>, changed)
        })"

definition Subtract :: "bit_vector \<Rightarrow> bit_vector \<Rightarrow> bit_vector" where
  "Subtract src bv =
     (let min_size = (if length (storage bv) > length (storage src) then length (storage src) else length (storage bv)) in
      bv\<lparr>storage := map (\<lambda>idx. if idx < min_size then storage bv ! idx AND NOT (storage src ! idx) else storage bv ! idx)
           [0..<length (storage bv)]\<rparr>)"

definition SetInitialBits :: "nat \<Rightarrow> bit_vector \<Rightarrow> bit_vector option" where
  "SetInitialBits num_bits bv =
     (if num_bits = 0 then Some (ClearAllBits bv)
      else do {
        bv \<leftarrow> SetBit (num_bits - 1) bv;
        let full = WordIndex num_bits;
        let rem_num_bits = num_bits mod 32;
        Some (bv\<lparr>storage := map (\<lambda>idx. if idx < full then 0xffffffff
          else if idx = full \<and> rem_num_bits \<noteq> 0 then push_bit rem_num_bits 1 - 1 else 0)
          [0..<length (storage bv)]\<rparr>)
      })"

definition Copy :: "bit_vector \<Rightarrow> bit_vector \<Rightarrow> bit_vector option" where
  "Copy src bv =
     (let highest_bit = GetHighestBitSet src in
      if highest_bit = - 1 then Some (ClearAllBits bv)
      else do {
        bv \<leftarrow> SetBit (nat highest_bit) bv;
        let size' = 1 + nat highest_bit div kWordBits;
        Some (bv\<lparr>storage := take size' (storage src) @ replicate (length (storage bv) - size') 0\<rparr>)
      })"

definition BitVector_copy :: "bit_vector \<Rightarrow> bool \<Rightarrow> bit_vector option" where
  "BitVector_copy src expand =
     Copy src \<lparr>storage = replicate (length (storage src)) 0, expandable = expand\<rparr>"

text \<open>The destination holds bytes; words are stored in little-endian order.\<close>

definition word_bytes :: "u32 \<Rightarrow> u8 list" where
  "word_bytes w = map (\<lambda>k. ucast (drop_bit (8 * k) w)) [0..<4]"

definition CopyTo :: "bit_vector \<Rightarrow> nat \<Rightarrow> u8 list" where
  "CopyTo bv len =
     (let bytes = concat (map word_bytes (storage bv)); vec_len = length (storage bv) * 4 in
      if vec_len < len then bytes @ replicate (len - vec_len) 0 else take len bytes)"

subsection \<open>Iteration over the set bits\<close>

function FindIndex_loop :: "bit_vector \<Rightarrow> u32 \<Rightarrow> nat \<Rightarrow> nat" where
  "FindIndex_loop bv word word_index =
     (if word = 0 then
        if word_index + 1 \<ge> length (storage bv) then BitSize bv
        else FindIndex_loop bv (storage bv ! (word_index + 1)) (word_index + 1)
      else word_index * 32 + CTZ word)"
  by pat_completeness auto

termination
  by (relation "measure (\<lambda>(bv, word, word_index). length (storage bv) - word_index)") auto

declare FindIndex_loop.simps [simp del]

definition FindIndex_from :: "bit_vector \<Rightarrow> nat \<Rightarrow> nat" where
  "FindIndex_from bv start_index =
     (let word_index = start_index div kWordBits in
      if word_index = length (storage bv) then start_index
      else FindIndex_loop bv (storage bv ! word_index AND push_bit (start_index mod 32) (- 1)) word_index)"

definition Indexes_begin :: "bit_vector \<Rightarrow> nat" where
  "Indexes_begin bv = FindIndex_from bv 0"

definition Indexes_next :: "bit_vector \<Rightarrow> nat \<Rightarrow> nat" where
  "Indexes_next bv bit_index = FindIndex_from bv (bit_index + 1)"

text \<open>The range-based \<^verbatim>\<open>for\<close> loop over \<^verbatim>\<open>Indexes()\<close>.\<close>

partial_function (option) Indexes_from :: "bit_vector \<Rightarrow> nat \<Rightarrow> nat list option" where
  "Indexes_from bv bit_index =
     (if bit_index = BitSize bv then Some []
      else do { rest \<leftarrow> Indexes_from bv (Indexes_next bv bit_index); Some (bit_index # rest) })"

subsection \<open>Packed rows\<close>

record bit_array =
  bits_data :: bit_vector
  num_columns :: nat
  num_rows :: nat

text \<open>\<^verbatim>\<open>RoundUp(cols, kWordBits)\<close> on \<^verbatim>\<open>size_t\<close>.\<close>

definition RoundUpColumns :: "nat \<Rightarrow> nat" where
  "RoundUpColumns cols = (cols + kWordBits - 1) mod 2 ^ 64 div kWordBits * kWordBits"

definition RequiredBitVectorSize :: "nat \<Rightarrow> nat \<Rightarrow> nat" where
  "RequiredBitVectorSize rows cols = (rows * RoundUpColumns cols) mod 2 ^ 64"

definition MaxRowsFor :: "bit_vector \<Rightarrow> nat \<Rightarrow> nat" where
  "MaxRowsFor bv cols = (if cols \<noteq> 0 then BitSize bv div RoundUpColumns cols else 0)"

text \<open>Sizes and indices of the rows are \<^verbatim>\<open>size_t\<close> values that the calls convert to \<^verbatim>\<open>uint32_t\<close>.\<close>

definition BitVectorArray_new :: "nat \<Rightarrow> nat \<Rightarrow> bool \<Rightarrow> bit_array" where
  "BitVectorArray_new rows cols expand =
     \<lparr>bits_data = BitVector_new (wrap32 (RequiredBitVectorSize rows cols)) expand,
      num_columns = RoundUpColumns cols, num_rows = rows\<rparr>"

definition Array_SetBit :: "nat \<Rightarrow> nat \<Rightarrow> bit_array \<Rightarrow> bit_array option" where
  "Array_SetBit row col a = do {
     bv \<leftarrow> SetBit (wrap32 (row * num_columns a + col)) (bits_data a);
     Some (a\<lparr>bits_data := bv\<rparr>) }"

definition Array_ClearBit :: "nat \<Rightarrow> nat \<Rightarrow> bit_array \<Rightarrow> bit_array" where
  "Array_ClearBit row col a = a\<lparr>bits_data := ClearBit (wrap32 (row * num_columns a + col)) (bits_data a)\<rparr>"

definition Array_IsBitSet :: "bit_array \<Rightarrow> nat \<Rightarrow> nat \<Rightarrow> bool" where
  "Array_IsBitSet a row col = IsBitSet (bits_data a) (wrap32 (row * num_columns a + col))"

definition Array_Clear :: "bit_array \<Rightarrow> bit_array" where
  "Array_Clear a = a\<lparr>bits_data := ClearAllBits (bits_data a)\<rparr>"

definition Array_Resize :: "nat \<Rightarrow> nat \<Rightarrow> bool \<Rightarrow> bit_array \<Rightarrow> bit_array option" where
  "Array_Resize rows cols clear a =
     (if \<not> expandable (bits_data a) then None
      else do {
        let a = (if clear then Array_Clear a else a);
        let a = a\<lparr>num_columns := RoundUpColumns cols, num_rows := rows\<rparr>;
        let last_bit = wrap32 (nat ((int (rows * num_columns a) - 1) mod 2 ^ 64));
        bv \<leftarrow> SetBit last_bit (bits_data a);
        Some (a\<lparr>bits_data := ClearBit last_bit bv\<rparr>)
      })"

definition Array_UnionRows :: "nat \<Rightarrow> nat \<Rightarrow> bit_array \<Rightarrow> bit_array" where
  "Array_UnionRows dest_row other a =
     (let block_words = num_columns a div kWordBits;
          dest = dest_row * num_columns a div kWordBits;
          source = other * num_columns a div kWordBits;
          st = foldl (\<lambda>st i. st[dest + i := st ! (dest + i) OR st ! (source + i)])
                 (storage (bits_data a)) [0..<block_words]
      in a\<lparr>bits_data := (bits_data a)\<lparr>storage := st\<rparr>\<rparr>)"

end
