(* ===== verification/Bit_Vector_Correct.thy ===== *)
theory Bit_Vector_Correct
  imports Bit_Vector
begin

text \<open>
  Correctness of \<^verbatim>\<open>BitVector\<close>.  \<open>bits\<close> is the set of indices a vector holds; the operations are shown to
  compute the set operations on it, the queries to answer for it, the iterator to enumerate it in
  order, and the packed arrays to be a family of such sets.  \<open>bv_ok\<close> bounds the size by \<open>2 ^ 31\<close> bits,
  the range of the \<^verbatim>\<open>int\<close> that \<^verbatim>\<open>GetHighestBitSet\<close> returns.
\<close>

subsection \<open>The set of bits\<close>

definition bits_st :: "u32 list \<Rightarrow> nat set" where
  "bits_st st = {i. i div 32 < length st \<and> bit (st ! (i div 32)) (i mod 32)}"

definition bits :: "bit_vector \<Rightarrow> nat set" where
  "bits bv = bits_st (storage bv)"

definition bv_ok :: "bit_vector \<Rightarrow> bool" where
  "bv_ok bv \<longleftrightarrow> length (storage bv) * 32 \<le> 2 ^ 31"

lemma wrap32_id [simp]: "n < 2 ^ 32 \<Longrightarrow> wrap32 n = n"
  by (simp add: wrap32_def)

lemma to_int32_id [simp]: "0 \<le> n \<Longrightarrow> n < 2 ^ 31 \<Longrightarrow> to_int32 n = n"
  by (simp add: to_int32_def)

lemma BitSize_ok: "bv_ok bv \<Longrightarrow> BitSize bv = length (storage bv) * 32"
  by (simp add: BitSize_def bv_ok_def)

lemma BitsToWords_ok: "n + 31 < 2 ^ 32 \<Longrightarrow> BitsToWords n = (n + 31) div 32"
  by (simp add: BitsToWords_def)

lemma WordIndex_div: "WordIndex idx = idx div 32"
  by (simp add: WordIndex_def drop_bit_eq_div)

lemma and_BitMask: "w AND BitMask idx \<noteq> 0 \<longleftrightarrow> bit w (idx mod 32)"
  by (simp add: BitMask_def and_exp_eq_0_iff_not_bit)

lemma bit_BitMask: "n < 32 \<Longrightarrow> bit (BitMask idx) n \<longleftrightarrow> n = idx mod 32"
  by (auto simp: BitMask_def bit_simps)

lemma IsBitSet_storage_bit: "IsBitSet_storage st idx \<longleftrightarrow> bit (st ! (idx div 32)) (idx mod 32)"
  by (simp add: IsBitSet_storage_def and_BitMask WordIndex_div)

lemma IsBitSet_iff: "bv_ok bv \<Longrightarrow> IsBitSet bv idx \<longleftrightarrow> idx \<in> bits bv"
  by (auto simp: IsBitSet_def BitSize_ok IsBitSet_storage_bit bits_def bits_st_def div_less_iff_less_mult)

lemma bits_st_less: "i \<in> bits_st st \<Longrightarrow> i < length st * 32"
  by (auto simp: bits_st_def div_less_iff_less_mult)

lemma finite_bits_st [simp]: "finite (bits_st st)"
  using bits_st_less by (auto intro: finite_subset [of _ "{..<length st * 32}"])

lemma finite_bits [simp]: "finite (bits bv)"
  by (simp add: bits_def)

lemma bits_st_Nil [simp]: "bits_st [] = {}"
  by (simp add: bits_st_def)

lemma bits_st_zeros [simp]: "bits_st (replicate n 0) = {}"
  by (auto simp: bits_st_def)

lemma bits_st_eqI:
  assumes "\<And>i. i div 32 < length st \<Longrightarrow> bit (st ! (i div 32)) (i mod 32) \<longleftrightarrow> i \<in> A"
    "\<And>i. i \<in> A \<Longrightarrow> i div 32 < length st"
  shows "bits_st st = A"
  using assms by (auto simp: bits_st_def)

lemma bits_st_append_zeros [simp]: "bits_st (st @ replicate n 0) = bits_st st"
proof (rule bits_st_eqI)
  fix i assume "i div 32 < length (st @ replicate n (0 :: u32))"
  then show "bit ((st @ replicate n 0) ! (i div 32)) (i mod 32) = (i \<in> bits_st st)"
    by (cases "i div 32 < length st") (simp_all add: nth_append bits_st_def)
qed (simp add: bits_st_def)

lemma bits_st_update:
  "k < length st \<Longrightarrow> bits_st (st[k := w]) = {i. if i div 32 = k then bit w (i mod 32) else i \<in> bits_st st}"
  by (auto simp: bits_st_def nth_list_update)

lemma word_eq_iff_bits_st:
  "k < length st \<Longrightarrow> k < length st' \<Longrightarrow>
   st ! k = st' ! k \<longleftrightarrow> (\<forall>j < 32. 32 * k + j \<in> bits_st st \<longleftrightarrow> 32 * k + j \<in> bits_st st')"
  by (auto simp: bits_st_def intro: bit_word_eqI)

lemma bits_st_snoc: "bits_st (st @ [w]) = bits_st st \<union> (\<lambda>j. length st * 32 + j) ` {j. bit w j}"
proof (rule bits_st_eqI)
  fix i assume i: "i div 32 < length (st @ [w])"
  show "bit ((st @ [w]) ! (i div 32)) (i mod 32) = (i \<in> bits_st st \<union> (\<lambda>j. length st * 32 + j) ` {j. bit w j})"
  proof (cases "i div 32 < length st")
    case True
    then have "i < length st * 32" by (simp add: div_less_iff_less_mult)
    then show ?thesis using True by (auto simp: nth_append bits_st_def)
  next
    case False
    then have l: "i div 32 = length st" using i by simp
    then have e: "i = length st * 32 + i mod 32" by (metis div_mult_mod_eq)
    have "i mod 32 = j" if "i = length st * 32 + j" for j using that e by simp
    then show ?thesis using l e by (auto simp: nth_append bits_st_def)
  qed
next
  fix i assume "i \<in> bits_st st \<union> (\<lambda>j. length st * 32 + j) ` {j. bit w j}"
  then show "i div 32 < length (st @ [w])"
    by (auto simp: bits_st_def dest: bit_imp_le_length)
qed

lemma card_bits_st: "card (bits_st st) = sum_list (map POPCOUNT st)"
proof (induction st rule: rev_induct)
  case (snoc w st)
  have "bits_st st \<inter> (\<lambda>j. length st * 32 + j) ` {j. bit w j} = {}" using bits_st_less [of _ st] by fastforce
  moreover have "finite {j. bit w j}" by (rule finite_subset [of _ "{..<32}"]) (auto dest: bit_imp_le_length)
  moreover have "card ((\<lambda>j. length st * 32 + j) ` {j. bit w j}) = card {j. bit w j}" by (rule card_image) simp
  ultimately show ?case using snoc by (simp add: bits_st_snoc card_Un_disjoint POPCOUNT_card)
qed simp

subsection \<open>Growing and single bits\<close>

definition index_ok :: "nat \<Rightarrow> bool" where
  "index_ok idx \<longleftrightarrow> idx < 2 ^ 31"

text \<open>A vector takes an index when it may grow or already reaches it; otherwise the operation aborts.\<close>

definition room :: "bit_vector \<Rightarrow> nat \<Rightarrow> bool" where
  "room bv idx \<longleftrightarrow> expandable bv \<or> idx < BitSize bv"

definition yields_bits :: "bit_vector option \<Rightarrow> bool \<Rightarrow> nat set \<Rightarrow> bool" where
  "yields_bits r fits A \<longleftrightarrow>
     (if fits then \<exists>b. r = Some b \<and> bits b = A \<and> bv_ok b else r = None)"

lemma new_size_ok: "index_ok idx \<Longrightarrow> BitsToWords (wrap32 (idx + 1)) = idx div 32 + 1"
  by (simp add: index_ok_def BitsToWords_ok)

lemma BitSize_le_iff: "bv_ok bv \<Longrightarrow> BitSize bv \<le> idx \<longleftrightarrow> length (storage bv) \<le> idx div 32"
  by (simp add: BitSize_ok less_eq_div_iff_mult_less_eq)

lemma EnsureSize_eq:
  assumes "bv_ok bv" "index_ok idx"
  shows "EnsureSize idx bv = (if room bv idx
     then Some (bv\<lparr>storage := storage bv @ replicate (idx div 32 + 1 - length (storage bv)) 0\<rparr>) else None)"
  using BitSize_le_iff [OF assms(1), of idx] new_size_ok [OF assms(2)]
  by (auto simp: EnsureSize_def room_def Let_def)

lemma EnsureSize_ok:
  assumes "bv_ok bv" "index_ok idx" "EnsureSize idx bv = Some b"
  shows "bits b = bits bv" "bv_ok b" "length (storage b) = max (length (storage bv)) (idx div 32 + 1)"
    "expandable b = expandable bv"
proof -
  have b: "b = bv\<lparr>storage := storage bv @ replicate (idx div 32 + 1 - length (storage bv)) 0\<rparr>"
    using assms(3) unfolding EnsureSize_eq [OF assms(1,2)] by (simp split: if_splits)
  show l: "length (storage b) = max (length (storage bv)) (idx div 32 + 1)" by (simp add: b)
  have "idx div 32 < 2 ^ 26" using assms(2) unfolding index_ok_def by (simp add: div_less_iff_less_mult)
  then have "(idx div 32 + 1) * 32 \<le> 2 ^ 31" by simp
  then show "bv_ok b" using assms(1) unfolding bv_ok_def l by (auto simp only: max_def split: if_splits)
  show "bits b = bits bv" "expandable b = expandable bv" by (simp_all add: b bits_def)
qed

lemma SetBit_eq:
  assumes "bv_ok bv" "index_ok idx"
  shows "SetBit idx bv = map_option (\<lambda>b. b\<lparr>storage := (storage b)[idx div 32 := storage b ! (idx div 32) OR BitMask idx]\<rparr>)
    (EnsureSize idx bv)"
proof -
  have "(if idx \<ge> BitSize bv then EnsureSize idx bv else Some bv) = EnsureSize idx bv" by (simp add: EnsureSize_def)
  then show ?thesis by (simp add: SetBit_def WordIndex_div map_conv_bind_option comp_def)
qed

lemma SetBit_None: "bv_ok bv \<Longrightarrow> index_ok idx \<Longrightarrow> SetBit idx bv = None \<longleftrightarrow> \<not> room bv idx"
  by (simp add: SetBit_eq EnsureSize_eq)

lemma SetBit_ok:
  assumes "bv_ok bv" "index_ok idx" "SetBit idx bv = Some b"
  shows "bits b = insert idx (bits bv)" "bv_ok b" "length (storage b) = max (length (storage bv)) (idx div 32 + 1)"
    "expandable b = expandable bv"
proof -
  obtain c where c: "EnsureSize idx bv = Some c"
    "b = c\<lparr>storage := (storage c)[idx div 32 := storage c ! (idx div 32) OR BitMask idx]\<rparr>"
    using assms(3) unfolding SetBit_eq [OF assms(1,2)] by auto
  note e = EnsureSize_ok [OF assms(1,2) c(1)]
  let ?st = "storage c" and ?k = "idx div 32"
  have k: "?k < length ?st" using e(3) by simp
  have "i = idx" if "i div 32 = ?k" "i mod 32 = idx mod 32" for i using that by (metis div_mult_mod_eq)
  then have "bits_st (?st[?k := ?st ! ?k OR BitMask idx]) = insert idx (bits_st ?st)"
    unfolding bits_st_update [OF k] using k by (auto simp: bits_st_def bit_or_iff bit_BitMask)
  then show "bits b = insert idx (bits bv)" using e(1) by (simp add: c(2) bits_def)
  show "bv_ok b" "length (storage b) = max (length (storage bv)) (idx div 32 + 1)" "expandable b = expandable bv"
    using e by (simp_all add: c(2) bv_ok_def)
qed

lemma SetBit_yields:
  assumes "bv_ok bv" "index_ok idx"
  shows "yields_bits (SetBit idx bv) (room bv idx) (insert idx (bits bv))"
proof (cases "SetBit idx bv")
  case None then show ?thesis using SetBit_None [OF assms] by (simp add: yields_bits_def)
next
  case (Some b)
  then have "room bv idx" using SetBit_None [OF assms] by fastforce
  then show ?thesis using SetBit_ok(1,2) [OF assms Some] Some by (simp add: yields_bits_def)
qed

lemma ClearBit_ok:
  assumes "bv_ok bv"
  shows "bits (ClearBit idx bv) = bits bv - {idx}" "bv_ok (ClearBit idx bv)"
    "length (storage (ClearBit idx bv)) = length (storage bv)"
proof -
  have "i = idx" if "i div 32 = idx div 32" "i mod 32 = idx mod 32" for i using that by (metis div_mult_mod_eq)
  then have "bits_st ((storage bv)[idx div 32 := storage bv ! (idx div 32) AND NOT (BitMask idx)]) = bits_st (storage bv) - {idx}"
    if k: "idx div 32 < length (storage bv)"
    unfolding bits_st_update [OF k] using k by (auto simp: bits_st_def bit_and_iff bit_not_iff bit_BitMask)
  moreover have "idx < BitSize bv \<longleftrightarrow> idx div 32 < length (storage bv)"
    using assms by (simp add: BitSize_ok div_less_iff_less_mult)
  moreover have "\<not> idx div 32 < length (storage bv) \<Longrightarrow> idx \<notin> bits bv" by (auto simp: bits_def bits_st_def)
  ultimately show "bits (ClearBit idx bv) = bits bv - {idx}"
    by (auto simp: ClearBit_def bits_def WordIndex_div)
  show "bv_ok (ClearBit idx bv)" "length (storage (ClearBit idx bv)) = length (storage bv)"
    using assms by (simp_all add: ClearBit_def bv_ok_def)
qed

lemma ClearAllBits_ok: "bits (ClearAllBits bv) = {}" "bv_ok bv \<Longrightarrow> bv_ok (ClearAllBits bv)"
  by (simp_all add: ClearAllBits_def bits_def bv_ok_def)

subsection \<open>Queries\<close>

lemma GetHighestBitSet_loop_ok:
  "n \<le> length st \<Longrightarrow> length st * 32 \<le> 2 ^ 31 \<Longrightarrow> (\<exists>m. GetHighestBitSet_loop st n = int m \<and> m \<in> bits_st st \<and> m div 32 < n \<and>
      (\<forall>i \<in> bits_st st. i div 32 < n \<longrightarrow> i \<le> m)) \<or>
    GetHighestBitSet_loop st n = - 1 \<and> (\<forall>i \<in> bits_st st. \<not> i div 32 < n)"
proof (induction n)
  case (Suc n)
  show ?case
  proof (cases "st ! n = 0")
    case True
    then have "i div 32 < Suc n \<longleftrightarrow> i div 32 < n" if "i \<in> bits_st st" for i
      using that by (auto simp: bits_st_def less_Suc_eq)
    with Suc True show ?thesis by (auto simp: less_Suc_eq)
  next
    case False
    note c = CLZ_spec [OF False]
    define r where "r = 31 - CLZ (st ! n)"
    define m where "m = n * 32 + r"
    have "r < 32" by (simp add: r_def)
    then have m: "m div 32 = n" "m mod 32 = 31 - CLZ (st ! n)" by (simp_all add: m_def r_def [symmetric])
    have "m < 2 ^ 31" using Suc.prems \<open>r < 32\<close> unfolding m_def by linarith
    then have "to_int32 (int m) = int m" by simp
    moreover have "31 - int (CLZ (st ! n)) + int (n * 32) = int m" using c(1) by (simp add: m_def r_def)
    ultimately have "GetHighestBitSet_loop st (Suc n) = int m" using False by (simp add: Let_def)
    moreover have "m \<in> bits_st st" using m c(2) Suc.prems by (simp add: bits_st_def)
    moreover have "i \<le> m" if i: "i \<in> bits_st st" "i div 32 < Suc n" for i
    proof (cases "i div 32 = n")
      case True
      then have "bit (st ! n) (i mod 32)" using i by (auto simp: bits_st_def)
      then have "i mod 32 \<le> 31 - CLZ (st ! n)" using c(3) [of "i mod 32"] by (auto simp: not_less intro: leI)
      then show ?thesis using True m by (metis div_mult_mod_eq add_le_mono le_refl)
    next
      case False
      then have "i div 32 < n" using i(2) by simp
      then have "i < n * 32" by (simp add: div_less_iff_less_mult)
      then show ?thesis by (simp add: m_def)
    qed
    ultimately show ?thesis using m(1) by (intro disjI1 exI [of _ m]) simp
  qed
qed simp

lemma GetHighestBitSet_Max:
  assumes "bv_ok bv"
  shows "GetHighestBitSet bv = (if bits bv = {} then - 1 else int (Max (bits bv)))"
proof -
  have l: "i div 32 < length (storage bv)" if "i \<in> bits bv" for i using that by (simp add: bits_def bits_st_def)
  from GetHighestBitSet_loop_ok [of "length (storage bv)" "storage bv"] assms consider
    m where "GetHighestBitSet bv = int m" "m \<in> bits bv" "\<forall>i \<in> bits bv. i \<le> m"
    | "GetHighestBitSet bv = - 1" "bits bv = {}"
    using l by (auto simp: GetHighestBitSet_def bits_def bv_ok_def)
  then show ?thesis
  proof cases
    case 1
    then have "Max (bits bv) = m" by (intro Max_eqI) auto
    with 1 show ?thesis by auto
  qed simp
qed

lemma highest_word:
  assumes "bv_ok bv" "bits bv \<noteq> {}"
  shows "Max (bits bv) div 32 < length (storage bv)" "Max (bits bv) < length (storage bv) * 32"
proof -
  have m: "Max (bits bv) \<in> bits bv" using assms(2) by simp
  then show "Max (bits bv) div 32 < length (storage bv)" by (simp add: bits_def bits_st_def)
  then show "Max (bits bv) < length (storage bv) * 32" by (simp add: div_less_iff_less_mult)
qed

lemma max_index_ok:
  assumes "bv_ok bv" "bits bv \<noteq> {}"
  shows "index_ok (Max (bits bv))"
proof -
  have "length (storage bv) * 32 \<le> 2 ^ 31" using assms(1) unfolding bv_ok_def .
  then show ?thesis using highest_word(2) [OF assms] unfolding index_ok_def by linarith
qed

lemma IsAnyBitSet_iff: "bv_ok bv \<Longrightarrow> IsAnyBitSet bv \<longleftrightarrow> bits bv \<noteq> {}"
  by (simp add: IsAnyBitSet_def GetHighestBitSet_Max)

lemma card_bits_less: "bv_ok bv \<Longrightarrow> card (bits bv) < 2 ^ 32"
proof -
  assume "bv_ok bv"
  have "bits bv \<subseteq> {..<length (storage bv) * 32}" using bits_st_less by (auto simp: bits_def)
  then have "card (bits bv) \<le> length (storage bv) * 32" by (metis card_lessThan card_mono finite_lessThan)
  then show ?thesis using \<open>bv_ok bv\<close> unfolding bv_ok_def by simp
qed

lemma NumSetBits_card: "bv_ok bv \<Longrightarrow> NumSetBits bv = card (bits bv)"
  using card_bits_less [of bv] unfolding NumSetBits_def bits_def card_bits_st [symmetric] by simp

lemma NumSetBits_until_card:
  assumes "bv_ok bv" "e \<le> length (storage bv) * 32"
  shows "NumSetBits_until bv e = card {i \<in> bits bv. i < e}"
proof -
  let ?st = "storage bv" and ?k = "e div 32" and ?r = "e mod 32"
  let ?w = "?st ! ?k AND NOT (push_bit ?r 0xffffffff)"
  define st' where "st' = take ?k ?st @ (if ?r \<noteq> 0 then [?w] else [])"
  have e: "e = ?k * 32 + ?r" by simp
  have k: "?k \<le> length ?st" "?r \<noteq> 0 \<Longrightarrow> ?k < length ?st" using assms(2) e by linarith+
  have w: "bit ?w j \<longleftrightarrow> bit (?st ! ?k) j \<and> j < ?r" if "j < 32" for j
  proof -
    have "(0xffffffff :: u32) = - 1" by simp
    then have "bit (0xffffffff :: u32) i" if "i < 32" for i
      using that by (simp only: bit_minus_1_iff) simp
    then show ?thesis using that by (auto simp: bit_and_iff bit_not_iff bit_push_bit_iff)
  qed
  have "bits_st st' = {i \<in> bits bv. i < e}"
  proof (rule bits_st_eqI)
    fix i assume i: "i div 32 < length st'"
    have l: "i div 32 < length ?st" using i k by (auto simp: st'_def min_def split: if_splits)
    show "bit (st' ! (i div 32)) (i mod 32) = (i \<in> {i \<in> bits bv. i < e})"
    proof (cases "i div 32 < ?k")
      case True
      then have "i < ?k * 32" by (simp add: div_less_iff_less_mult)
      with True k l e show ?thesis by (auto simp: st'_def nth_append bits_def bits_st_def)
    next
      case False
      then have r: "?r \<noteq> 0" "i div 32 = ?k" using i k by (auto simp: st'_def min_def split: if_splits)
      then have "i < e \<longleftrightarrow> i mod 32 < ?r" using e by (metis div_mult_mod_eq nat_add_left_cancel_less)
      with r k l w [of "i mod 32"] show ?thesis by (auto simp: st'_def nth_append bits_def bits_st_def min_def)
    qed
  next
    fix i assume "i \<in> {i \<in> bits bv. i < e}"
    then have "i < e" by simp
    then have "i div 32 < ?k \<or> i div 32 = ?k \<and> ?r \<noteq> 0"
      by (metis div_le_mono div_mult_mod_eq le_neq_implies_less less_imp_le add.right_neutral nat_add_left_cancel_less not_less_zero)
    then show "i div 32 < length st'" using k by (auto simp: st'_def)
  qed
  then have "card {i \<in> bits bv. i < e} = sum_list (map POPCOUNT st')" using card_bits_st [of st'] by simp
  also have "sum_list (map POPCOUNT st') =
      sum_list (map (\<lambda>word. POPCOUNT (?st ! word)) [0..<?k]) + (if ?r \<noteq> 0 then POPCOUNT ?w else 0)"
  proof -
    have "take ?k ?st = map ((!) ?st) [0..<?k]" using k(1) by (simp add: take_map map_nth [symmetric] list_eq_iff_nth_eq)
    then show ?thesis by (simp add: st'_def comp_def)
  qed
  finally have s: "card {i \<in> bits bv. i < e} =
      (if ?r \<noteq> 0 then sum_list (map (\<lambda>word. POPCOUNT (?st ! word)) [0..<?k]) + POPCOUNT ?w
       else sum_list (map (\<lambda>word. POPCOUNT (?st ! word)) [0..<?k]))" by simp
  have "card {i \<in> bits bv. i < e} \<le> card (bits bv)" by (intro card_mono) auto
  then have "card {i \<in> bits bv. i < e} < 2 ^ 32" using card_bits_less [OF assms(1)] by linarith
  then show ?thesis unfolding NumSetBits_until_def NumSetBits_storage_def Let_def WordIndex_div s [symmetric] by simp
qed

lemma nat_highest: "bv_ok bv \<Longrightarrow> bits bv \<noteq> {} \<Longrightarrow> nat (GetHighestBitSet bv) = Max (bits bv)"
  by (simp add: GetHighestBitSet_Max)

lemma SameBitsSet_iff:
  assumes "bv_ok bv" "bv_ok src"
  shows "SameBitsSet bv src \<longleftrightarrow> bits bv = bits src"
proof (cases "bits bv = {} \<or> bits src = {}")
  case True then show ?thesis by (auto simp: SameBitsSet_def GetHighestBitSet_Max [OF assms(1)] GetHighestBitSet_Max [OF assms(2)] Let_def)
next
  case False
  then have ne: "bits bv \<noteq> {}" "bits src \<noteq> {}" by auto
  let ?m = "Max (bits bv)" and ?a = "storage bv" and ?b = "storage src"
  have mem: "?m \<in> bits bv" "Max (bits src) \<in> bits src" using ne by simp_all
  have le: "i \<in> bits bv \<Longrightarrow> i \<le> ?m" "i \<in> bits src \<Longrightarrow> i \<le> Max (bits src)" for i by simp_all
  show ?thesis
  proof (cases "Max (bits src) = ?m")
    case False
    then show ?thesis using ne by (auto simp: SameBitsSet_def GetHighestBitSet_Max [OF assms(1)] GetHighestBitSet_Max [OF assms(2)] Let_def)
  next
    case eq: True
    let ?k = "(?m + 31) div 32"
    have k: "BitsToWords ?m = ?k" using max_index_ok [OF assms(1) ne(1)] by (intro BitsToWords_ok) (simp add: index_ok_def)
    have "?k \<le> ?m div 32 + 1" by simp
    then have kl: "?k \<le> length ?a" "?k \<le> length ?b"
      using highest_word(1) [OF assms(1) ne(1)] highest_word(1) [OF assms(2) ne(2)] eq by linarith+
    have "take ?k ?a = take ?k ?b \<longleftrightarrow> bits bv = bits src"
    proof
      assume t: "take ?k ?a = take ?k ?b"
      have w: "?a ! j = ?b ! j" if "j < ?k" for j using t that by (metis nth_take)
      have "i \<in> bits bv \<longleftrightarrow> i \<in> bits src" for i
      proof (cases "i div 32 < ?k")
        case True
        then show ?thesis using w [OF True] kl by (auto simp: bits_def bits_st_def)
      next
        case False
        then have "?k * 32 \<le> i" by (simp add: div_less_iff_less_mult)
        moreover have "?m \<le> ?k * 32" by simp
        ultimately have "?m \<le> i" by linarith
        then show ?thesis using le mem eq by (metis le_antisym)
      qed
      then show "bits bv = bits src" by blast
    next
      assume "bits bv = bits src"
      then have "?a ! j = ?b ! j" if "j < ?k" for j
        using that kl word_eq_iff_bits_st [of j ?a ?b] by (simp add: bits_def)
      then show "take ?k ?a = take ?k ?b" using kl by (simp add: list_eq_iff_nth_eq)
    qed
    moreover have "?m = 0 \<Longrightarrow> bits bv = bits src"
      using le mem eq by (metis le_zero_eq subset_antisym subsetI)
    ultimately show ?thesis using ne eq k by (auto simp: SameBitsSet_def GetHighestBitSet_Max [OF assms(1)] GetHighestBitSet_Max [OF assms(2)] Let_def)
  qed
qed

lemma or_eq_iff_bits: "a OR b = b \<longleftrightarrow> (\<forall>j < 32. bit a j \<longrightarrow> bit (b :: u32) j)"
  by (auto simp: bit_eq_iff bit_or_iff)

lemma IsSubsetOf_iff:
  assumes "bv_ok bv" "bv_ok other"
  shows "IsSubsetOf bv other \<longleftrightarrow> bits bv \<subseteq> bits other"
proof (cases "bits bv = {}")
  case True then show ?thesis by (simp add: IsSubsetOf_def GetHighestBitSet_Max [OF assms(1)] GetHighestBitSet_Max [OF assms(2)] Let_def)
next
  case ne: False
  let ?m = "Max (bits bv)" and ?a = "storage bv" and ?b = "storage other"
  have mem: "?m \<in> bits bv" using ne by simp
  show ?thesis
  proof (cases "bits other = {} \<or> Max (bits other) < ?m")
    case True
    then have "\<not> bits bv \<subseteq> bits other" using mem by (metis Max_ge empty_iff finite_bits linorder_not_less subsetD)
    with True ne show ?thesis by (cases "bits other = {}") (simp_all add: IsSubsetOf_def GetHighestBitSet_Max [OF assms(1)] GetHighestBitSet_Max [OF assms(2)] Let_def)
  next
    case False
    then have o: "bits other \<noteq> {}" "?m \<le> Max (bits other)" by auto
    let ?k = "?m div 32 + 1"
    have k: "BitsToWords (nat (int ?m + 1)) = ?k"
      using max_index_ok [OF assms(1) ne] by (simp add: nat_add_distrib BitsToWords_ok index_ok_def)
    have kl: "?k \<le> length ?a" "?k \<le> length ?b"
      using highest_word(1) [OF assms(1) ne] highest_word(1) [OF assms(2) o(1)] div_le_mono [OF o(2), of 32] by linarith+
    have "list_all (\<lambda>i. ?a ! i OR ?b ! i = ?b ! i) [0..<?k] \<longleftrightarrow> bits bv \<subseteq> bits other"
    proof
      assume l: "list_all (\<lambda>i. ?a ! i OR ?b ! i = ?b ! i) [0..<?k]"
      show "bits bv \<subseteq> bits other"
      proof
        fix i assume i: "i \<in> bits bv"
        then have "i \<le> ?m" by simp
        then have j: "i div 32 < ?k" using div_le_mono by fastforce
        with l have "?a ! (i div 32) OR ?b ! (i div 32) = ?b ! (i div 32)"
          unfolding list_all_iff set_upt by (meson atLeastLessThan_iff zero_le)
        with i j kl show "i \<in> bits other" by (auto simp: bits_def bits_st_def or_eq_iff_bits)
      qed
    next
      assume s: "bits bv \<subseteq> bits other"
      have "?a ! j OR ?b ! j = ?b ! j" if j: "j < ?k" for j
        unfolding or_eq_iff_bits
      proof (intro allI impI)
        fix n :: nat assume n: "n < 32" "bit (?a ! j) n"
        then have "j * 32 + n \<in> bits bv" using j kl by (simp add: bits_def bits_st_def)
        with s have "j * 32 + n \<in> bits other" by blast
        then show "bit (?b ! j) n" using n by (simp add: bits_def bits_st_def)
      qed
      then show "list_all (\<lambda>i. ?a ! i OR ?b ! i = ?b ! i) [0..<?k]" by (simp add: list_all_iff)
    qed
    moreover have "GetHighestBitSet bv = int ?m" "GetHighestBitSet other = int (Max (bits other))"
      using ne o(1) by (simp_all add: GetHighestBitSet_Max [OF assms(1)] GetHighestBitSet_Max [OF assms(2)])
    moreover have "\<not> int (Max (bits other)) < int ?m" using o(2) by linarith
    ultimately show ?thesis using k by (simp only: IsSubsetOf_def Let_def) simp
  qed
qed

subsection \<open>Set operations\<close>

lemma Intersect_ok:
  "bits (Intersect src bv) = bits bv \<inter> bits src" "bv_ok bv \<Longrightarrow> bv_ok (Intersect src bv)"
proof -
  show "bits (Intersect src bv) = bits bv \<inter> bits src"
    unfolding bits_def Intersect_def Let_def by (auto simp: bits_st_def bit_and_iff split: if_splits)
qed (simp add: bv_ok_def Intersect_def Let_def)

lemma Subtract_ok:
  "bits (Subtract src bv) = bits bv - bits src" "bv_ok bv \<Longrightarrow> bv_ok (Subtract src bv)"
proof -
  show "bits (Subtract src bv) = bits bv - bits src"
    unfolding bits_def Subtract_def Let_def by (auto simp: bits_st_def bit_and_iff bit_not_iff split: if_splits)
qed (simp add: bv_ok_def Subtract_def Let_def)

lemma update_words_ok:
  assumes "distinct is" "\<forall>i \<in> set is. i < length st"
  shows "length (fst (update_words f is (st, c))) = length st \<and>
    (\<forall>k. fst (update_words f is (st, c)) ! k = (if k \<in> set is then f k (st ! k) else st ! k)) \<and>
    (snd (update_words f is (st, c)) \<longleftrightarrow> c \<or> (\<exists>i \<in> set is. f i (st ! i) \<noteq> st ! i))"
  using assms
proof (induction "is" arbitrary: st c)
  case (Cons i "is")
  have ne: "i \<notin> set is" "i < length st" using Cons.prems by simp_all
  have "(\<exists>j \<in> set is. f j (st[i := x] ! j) \<noteq> st[i := x] ! j) \<longleftrightarrow> (\<exists>j \<in> set is. f j (st ! j) \<noteq> st ! j)" for x
    using ne by (metis nth_list_update_neq)
  then show ?case using Cons.IH [of "st[i := f i (st ! i)]" True] Cons.IH [of st c] Cons.prems ne
    by (cases "st ! i = f i (st ! i)") (auto simp: Let_def nth_list_update)
qed simp

lemma word_neq_bit: "a \<noteq> (b :: u32) \<Longrightarrow> \<exists>j < 32. bit a j \<noteq> bit b j"
  using bit_word_eqI [of a b] by auto

lemma bits_word_iff: "j < 32 \<Longrightarrow> i * 32 + j \<in> bits bv \<longleftrightarrow> i < length (storage bv) \<and> bit (storage bv ! i) j"
  by (simp add: bits_def bits_st_def)

text \<open>What the loops of the unions do to the set of bits.\<close>

lemma update_words_bits:
  assumes "distinct is" "\<forall>i \<in> set is. i < length st"
    "\<And>i j. i \<in> set is \<Longrightarrow> j < 32 \<Longrightarrow> bit (f i (st ! i)) j \<longleftrightarrow> bit (st ! i) j \<or> i * 32 + j \<in> A"
    "\<And>i. i \<in> A \<Longrightarrow> i div 32 \<in> set is"
  shows "bits_st (fst (update_words f is (st, c))) = bits_st st \<union> A"
    "snd (update_words f is (st, c)) \<longleftrightarrow> c \<or> \<not> A \<subseteq> bits_st st"
    "length (fst (update_words f is (st, c))) = length st"
proof -
  note u = update_words_ok [OF assms(1,2), of f c]
  show l: "length (fst (update_words f is (st, c))) = length st" using u by blast
  show "bits_st (fst (update_words f is (st, c))) = bits_st st \<union> A"
  proof (rule bits_st_eqI)
    fix i assume i: "i div 32 < length (fst (update_words f is (st, c)))"
    then show "bit (fst (update_words f is (st, c)) ! (i div 32)) (i mod 32) = (i \<in> bits_st st \<union> A)"
      using u l assms(3) [of "i div 32" "i mod 32"] assms(4) [of i] by (auto simp: bits_st_def)
  qed (use assms(2,4) l in \<open>auto simp: bits_st_def\<close>)
  have "(\<exists>i \<in> set is. f i (st ! i) \<noteq> st ! i) \<longleftrightarrow> \<not> A \<subseteq> bits_st st"
  proof
    assume "\<exists>i \<in> set is. f i (st ! i) \<noteq> st ! i"
    then obtain i j where ij: "i \<in> set is" "j < 32" "bit (f i (st ! i)) j \<noteq> bit (st ! i) j"
      using word_neq_bit by blast
    then have "i * 32 + j \<in> A" "i * 32 + j \<notin> bits_st st" using assms(3) [OF ij(1,2)] by (auto simp: bits_st_def)
    then show "\<not> A \<subseteq> bits_st st" by blast
  next
    assume "\<not> A \<subseteq> bits_st st"
    then obtain a where a: "a \<in> A" "a \<notin> bits_st st" by blast
    then have "a div 32 \<in> set is" using assms(4) by blast
    with a assms(2) have "\<not> bit (st ! (a div 32)) (a mod 32)" by (auto simp: bits_st_def)
    moreover have "bit (f (a div 32) (st ! (a div 32))) (a mod 32)"
      using assms(3) [OF \<open>a div 32 \<in> set is\<close>, of "a mod 32"] a by simp
    ultimately show "\<exists>i \<in> set is. f i (st ! i) \<noteq> st ! i" using \<open>a div 32 \<in> set is\<close> by metis
  qed
  with u show "snd (update_words f is (st, c)) \<longleftrightarrow> c \<or> \<not> A \<subseteq> bits_st st" by blast
qed

lemma words_of_bits:
  assumes "bv_ok src" "bits src \<noteq> {}"
  shows "BitsToWords (nat (GetHighestBitSet src + 1)) = Max (bits src) div 32 + 1"
    "\<And>i. i \<in> bits src \<Longrightarrow> i div 32 < Max (bits src) div 32 + 1"
    "Max (bits src) div 32 + 1 \<le> length (storage src)"
proof -
  have "BitsToWords (m + 1) = m div 32 + 1" if "index_ok m" for m
    using that by (simp add: BitsToWords_ok index_ok_def)
  from this [OF max_index_ok [OF assms]]
  show "BitsToWords (nat (GetHighestBitSet src + 1)) = Max (bits src) div 32 + 1"
    using assms(2) by (simp add: GetHighestBitSet_Max [OF assms(1)] nat_add_distrib)
  show "i div 32 < Max (bits src) div 32 + 1" if "i \<in> bits src" for i
    using div_le_mono [of i "Max (bits src)" 32] that by (simp add: less_Suc_eq_le)
  show "Max (bits src) div 32 + 1 \<le> length (storage src)" using highest_word(1) [OF assms] by simp
qed

text \<open>A union needs room for the largest index it adds.\<close>

definition room_for :: "bit_vector \<Rightarrow> nat set \<Rightarrow> bool" where
  "room_for bv A \<longleftrightarrow> A = {} \<or> room bv (Max A)"

lemma grown_vector:
  assumes "bv_ok bv" "bv_ok src" "bits src \<noteq> {}"
  shows "(if length (storage bv) < Max (bits src) div 32 + 1 then EnsureSize (Max (bits src)) bv else Some bv)
    = EnsureSize (Max (bits src)) bv"
  using BitSize_le_iff [OF assms(1)] by (simp add: EnsureSize_def not_less_eq Suc_le_eq flip: not_le)

lemma EnsureSize_room:
  assumes "bv_ok bv" "bv_ok src" "bits src \<noteq> {}"
  shows "EnsureSize (Max (bits src)) bv = None \<longleftrightarrow> \<not> room_for bv (bits src)"
  using assms by (simp add: EnsureSize_eq max_index_ok room_for_def)

lemma Union_eq:
  assumes "bv_ok bv" "bv_ok src" "bits src \<noteq> {}"
  shows "Union src bv = do {
      b \<leftarrow> EnsureSize (Max (bits src)) bv;
      Some (let (st, c) = update_words (\<lambda>idx existing. existing OR storage src ! idx) [0..<Max (bits src) div 32 + 1]
        (storage b, length (storage bv) < Max (bits src) div 32 + 1) in (b\<lparr>storage := st\<rparr>, c)) }"
proof -
  have "EnsureSize (Max (bits src)) bv = Some bv" if "\<not> length (storage bv) < Max (bits src) div 32 + 1"
    using grown_vector [OF assms] that by simp
  then show ?thesis
    using assms(3) words_of_bits(1) [OF assms(2,3)]
    by (simp add: Union_def GetHighestBitSet_Max [OF assms(2)] nat_highest [OF assms(2)] Let_def case_prod_beta del: upt_Suc)
qed

lemma Union_None: "bv_ok bv \<Longrightarrow> bv_ok src \<Longrightarrow> Union src bv = None \<longleftrightarrow> \<not> room_for bv (bits src)"
proof (cases "bits src = {}")
  case True
  assume "bv_ok src"
  then show ?thesis using True by (simp add: Union_def GetHighestBitSet_Max Let_def room_for_def)
next
  case False
  assume "bv_ok bv" "bv_ok src"
  then show ?thesis using False by (simp add: Union_eq bind_eq_None_conv EnsureSize_room del: upt_Suc)
qed

lemma Union_ok:
  assumes "bv_ok bv" "bv_ok src" "Union src bv = Some (bv', changed)"
  shows "bits bv' = bits bv \<union> bits src" "changed \<longleftrightarrow> \<not> bits src \<subseteq> bits bv" "bv_ok bv'"
proof -
  have "bits bv' = bits bv \<union> bits src \<and> (changed \<longleftrightarrow> \<not> bits src \<subseteq> bits bv) \<and> bv_ok bv'"
  proof (cases "bits src = {}")
    case True
    then show ?thesis using assms by (simp add: Union_def GetHighestBitSet_Max [OF assms(2)] Let_def)
  next
    case False
    note w = words_of_bits [OF assms(2) False]
    let ?m = "Max (bits src)" and ?n = "Max (bits src) div 32 + 1"
    let ?grow = "length (storage bv) < ?n"
    let ?f = "\<lambda>idx existing. existing OR storage src ! idx"
    obtain b where b0: "EnsureSize ?m bv = Some b"
      "(bv', changed) = (let (st, c) = update_words ?f [0..<?n] (storage b, ?grow) in (b\<lparr>storage := st\<rparr>, c))"
      using assms(3) unfolding Union_eq [OF assms(1,2) False] by (auto simp: bind_eq_Some_conv simp del: upt_Suc)
    note e = EnsureSize_ok [OF assms(1) max_index_ok [OF assms(2) False] b0(1)]
    have b: "bits b = bits bv" "bv_ok b" "?n \<le> length (storage b)" using e by auto
    have r: "bits_st (fst (update_words ?f [0..<?n] (storage b, ?grow))) = bits_st (storage b) \<union> bits src"
      "snd (update_words ?f [0..<?n] (storage b, ?grow)) \<longleftrightarrow> ?grow \<or> \<not> bits src \<subseteq> bits_st (storage b)"
      "length (fst (update_words ?f [0..<?n] (storage b, ?grow))) = length (storage b)"
      by (rule update_words_bits [where A = "bits src"]; use less_le_trans [OF _ b(3)] less_le_trans [OF _ w(3)] w(2) in \<open>auto simp: bit_or_iff bits_word_iff simp del: upt_Suc\<close>)+
    moreover have "?grow \<Longrightarrow> \<not> bits src \<subseteq> bits bv"
    proof -
      assume ?grow
      then have "?m \<notin> bits bv" by (auto simp: bits_def bits_st_def)
      then show ?thesis using False by (metis Max_in finite_bits subsetD)
    qed
    ultimately show ?thesis using b0(2) b(1,2) by (auto simp: bits_def bv_ok_def case_prod_beta Let_def)
  qed
  then show "bits bv' = bits bv \<union> bits src" "changed \<longleftrightarrow> \<not> bits src \<subseteq> bits bv" "bv_ok bv'" by blast+
qed

lemma UnionIfNotIn_eq:
  assumes "bv_ok bv" "bv_ok uw" "bits uw \<noteq> {}"
  shows "UnionIfNotIn uw ni bv = do {
      b \<leftarrow> EnsureSize (Max (bits uw)) bv;
      Some (let (st, c) = update_words (\<lambda>idx existing. existing OR storage uw ! idx)
            [min (length (storage ni)) (Max (bits uw) div 32 + 1)..<Max (bits uw) div 32 + 1]
            (update_words (\<lambda>idx existing. existing OR (storage uw ! idx AND NOT (storage ni ! idx)))
              [0..<min (length (storage ni)) (Max (bits uw) div 32 + 1)] (storage b, False))
        in (b\<lparr>storage := st\<rparr>, c)) }"
proof -
  have "EnsureSize (Max (bits uw)) bv = Some bv" if "\<not> length (storage bv) < Max (bits uw) div 32 + 1"
    using grown_vector [OF assms] that by simp
  then show ?thesis
    using assms(3) words_of_bits(1) [OF assms(2,3)]
    by (simp add: UnionIfNotIn_def GetHighestBitSet_Max [OF assms(2)] nat_highest [OF assms(2)] Let_def case_prod_beta del: upt_Suc)
qed

lemma UnionIfNotIn_None:
  "bv_ok bv \<Longrightarrow> bv_ok uw \<Longrightarrow> UnionIfNotIn uw ni bv = None \<longleftrightarrow> \<not> room_for bv (bits uw)"
proof (cases "bits uw = {}")
  case True
  assume "bv_ok uw"
  then show ?thesis using True by (simp add: UnionIfNotIn_def GetHighestBitSet_Max Let_def room_for_def)
next
  case False
  assume "bv_ok bv" "bv_ok uw"
  then show ?thesis using False by (simp add: UnionIfNotIn_eq bind_eq_None_conv EnsureSize_room del: upt_Suc)
qed

lemma UnionIfNotIn_ok:
  assumes "bv_ok bv" "bv_ok uw" "UnionIfNotIn uw ni bv = Some (bv', changed)"
  shows "bits bv' = bits bv \<union> (bits uw - bits ni)" "changed \<longleftrightarrow> \<not> bits uw - bits ni \<subseteq> bits bv" "bv_ok bv'"
proof -
  have "bits bv' = bits bv \<union> (bits uw - bits ni) \<and> (changed \<longleftrightarrow> \<not> bits uw - bits ni \<subseteq> bits bv) \<and> bv_ok bv'"
  proof (cases "bits uw = {}")
    case True
    then show ?thesis using assms by (simp add: UnionIfNotIn_def GetHighestBitSet_Max [OF assms(2)] Let_def)
  next
    case False
    note w = words_of_bits [OF assms(2) False]
    let ?m = "Max (bits uw)" and ?n = "Max (bits uw) div 32 + 1"
    let ?k = "min (length (storage ni)) ?n"
    let ?f = "\<lambda>idx existing. existing OR (storage uw ! idx AND NOT (storage ni ! idx))"
    let ?g = "\<lambda>idx existing. existing OR storage uw ! idx"
    let ?A = "{i \<in> bits uw - bits ni. i div 32 < ?k}" and ?B = "{i \<in> bits uw. ?k \<le> i div 32}"
    obtain b where b0: "EnsureSize ?m bv = Some b" "(bv', changed) = (let (st, c) = update_words ?g [?k..<?n]
        (update_words ?f [0..<?k] (storage b, False)) in (b\<lparr>storage := st\<rparr>, c))"
      using assms(3) unfolding UnionIfNotIn_eq [OF assms(1,2) False] by (auto simp: bind_eq_Some_conv simp del: upt_Suc)
    note e = EnsureSize_ok [OF assms(1) max_index_ok [OF assms(2) False] b0(1)]
    have b: "bits b = bits bv" "bv_ok b" "?n \<le> length (storage b)" using e by auto
    define p where "p = update_words ?f [0..<?k] (storage b, False)"
    define q where "q = update_words ?g [?k..<?n] (fst p, snd p)"
    have p: "bits_st (fst p) = bits_st (storage b) \<union> ?A" "snd p \<longleftrightarrow> False \<or> \<not> ?A \<subseteq> bits_st (storage b)"
      "length (fst p) = length (storage b)"
      unfolding p_def by (rule update_words_bits [where A = ?A]; use less_le_trans [OF _ b(3)] less_le_trans [OF _ w(3)] in
          \<open>auto simp: bit_or_iff bit_and_iff bit_not_iff bits_word_iff simp del: upt_Suc\<close>)+
    have q: "bits_st (fst q) = bits_st (fst p) \<union> ?B" "snd q \<longleftrightarrow> snd p \<or> \<not> ?B \<subseteq> bits_st (fst p)"
      "length (fst q) = length (fst p)"
      unfolding q_def by (rule update_words_bits [where A = ?B]; use less_le_trans [OF _ b(3)] less_le_trans [OF _ w(3)] w(2) p(3) in
          \<open>auto simp: bit_or_iff bits_word_iff simp del: upt_Suc\<close>)+
    have ni: "x \<in> bits ni \<Longrightarrow> x div 32 < length (storage ni)" for x by (simp add: bits_def bits_st_def)
    have "x \<in> ?A \<union> ?B \<longleftrightarrow> x \<in> bits uw - bits ni" for x
    proof -
      have "x div 32 < ?k" if "x \<in> bits uw" "x \<in> bits ni" using w(2) [OF that(1)] ni [OF that(2)] by simp
      then show ?thesis by (cases "x div 32 < ?k") (auto simp only: Un_iff Diff_iff mem_Collect_eq not_less not_le)
    qed
    then have AB: "?A \<union> ?B = bits uw - bits ni" by blast
    have bv': "bv' = b\<lparr>storage := fst q\<rparr>" "changed = snd q"
      using b0(2) unfolding q_def prod.collapse p_def [symmetric] by (simp_all add: case_prod_beta Let_def del: upt_Suc)
    have "bits bv' = bits bv \<union> (?A \<union> ?B)" using b(1) p(1) q(1) unfolding bv' bits_def by simp blast
    moreover have "changed \<longleftrightarrow> \<not> ?A \<union> ?B \<subseteq> bits bv" using b(1) p(1,2) q(2) unfolding bv' bits_def by blast
    moreover have "bv_ok bv'" using b(2) p(3) q(3) unfolding bv' bv_ok_def by simp
    ultimately show ?thesis unfolding AB by blast
  qed
  then show "bits bv' = bits bv \<union> (bits uw - bits ni)" "changed \<longleftrightarrow> \<not> bits uw - bits ni \<subseteq> bits bv" "bv_ok bv'"
    by blast+
qed

text \<open>What a union returns: the vector with the new set, and whether the set grew.\<close>

definition yields_union :: "(bit_vector \<times> bool) option \<Rightarrow> bool \<Rightarrow> bit_vector \<Rightarrow> nat set \<Rightarrow> bool" where
  "yields_union r fits bv A \<longleftrightarrow>
     (if fits then \<exists>b. r = Some (b, \<not> A \<subseteq> bits bv) \<and> bits b = bits bv \<union> A \<and> bv_ok b else r = None)"

lemma Union_yields:
  assumes "bv_ok bv" "bv_ok src"
  shows "yields_union (Union src bv) (room_for bv (bits src)) bv (bits src)"
proof (cases "Union src bv")
  case None then show ?thesis using Union_None [OF assms] by (simp add: yields_union_def)
next
  case (Some r)
  then obtain b c where r: "Union src bv = Some (b, c)" by (cases r) simp
  then have "room_for bv (bits src)" using Union_None [OF assms] by fastforce
  then show ?thesis using Union_ok [OF assms r] r by (simp add: yields_union_def)
qed

lemma UnionIfNotIn_yields:
  assumes "bv_ok bv" "bv_ok src"
  shows "yields_union (UnionIfNotIn src ni bv) (room_for bv (bits src)) bv (bits src - bits ni)"
proof (cases "UnionIfNotIn src ni bv")
  case None then show ?thesis using UnionIfNotIn_None [OF assms] by (simp add: yields_union_def)
next
  case (Some r)
  then obtain b c where r: "UnionIfNotIn src ni bv = Some (b, c)" by (cases r) simp
  then have "room_for bv (bits src)" using UnionIfNotIn_None [OF assms, of ni] by fastforce
  then show ?thesis using UnionIfNotIn_ok [OF assms r] r by (simp add: yields_union_def)
qed

lemma initial_words:
  assumes "0 < n" "(n - 1) div 32 < l"
  shows "bits_st (map (\<lambda>idx. if idx < n div 32 then 0xffffffff else if idx = n div 32 \<and> n mod 32 \<noteq> 0
    then push_bit (n mod 32) 1 - 1 else (0 :: u32)) [0..<l]) = {..<n}" (is "bits_st (map ?w _) = _")
proof (rule bits_st_eqI)
  have n: "n = n div 32 * 32 + n mod 32" by simp
  fix i assume "i div 32 < length (map ?w [0..<l])"
  then have l: "map ?w [0..<l] ! (i div 32) = ?w (i div 32)" by simp
  have "bit (0xffffffff :: u32) (i mod 32)" "push_bit (n mod 32) 1 - 1 = (mask (n mod 32) :: u32)"
    using bit_mask_iff [of 32 "i mod 32", where 'a = "32 word"] by (simp_all add: mask_eq_exp_minus_1)
  moreover have "i div 32 < n div 32 \<Longrightarrow> i < n" by (metis div_le_mono not_less)
  moreover have "i div 32 = n div 32 \<Longrightarrow> i < n \<longleftrightarrow> i mod 32 < n mod 32"
    using n by (metis div_mult_mod_eq nat_add_left_cancel_less)
  moreover have "\<not> i div 32 < n div 32 \<Longrightarrow> i div 32 \<noteq> n div 32 \<Longrightarrow> \<not> i < n"
    by (metis div_le_mono le_neq_implies_less less_imp_le)
  ultimately show "bit (map ?w [0..<l] ! (i div 32)) (i mod 32) = (i \<in> {..<n})"
    unfolding l by (auto simp: bit_mask_iff)
next
  fix i assume "i \<in> {..<n}"
  then have "i div 32 \<le> (n - 1) div 32" by (intro div_le_mono) auto
  then show "i div 32 < length (map ?w [0..<l])" using assms(2) by simp
qed

lemma SetInitialBits_yields:
  assumes "bv_ok bv" "index_ok idx"
  shows "yields_bits (SetInitialBits (idx + 1) bv) (room bv idx) {0..idx}"
proof (cases "SetBit idx bv")
  case None
  then show ?thesis using SetBit_None [OF assms] by (simp add: SetInitialBits_def yields_bits_def)
next
  case (Some b)
  note s = SetBit_ok [OF assms Some]
  have r: "room bv idx" using SetBit_None [OF assms] Some by fastforce
  have "{0..idx} = {..<idx + 1}" by auto
  then show ?thesis
    using initial_words [of "idx + 1" "length (storage b)", unfolded Suc_eq_plus1 [symmetric]] s(2,3) r Some
    by (simp add: SetInitialBits_def yields_bits_def WordIndex_div bits_def bv_ok_def Let_def)
qed

lemma Copy_yields:
  assumes "bv_ok bv" "bv_ok src"
  shows "yields_bits (Copy src bv) (room_for bv (bits src)) (bits src)"
proof (cases "bits src = {}")
  case True
  then show ?thesis using assms
    by (simp add: Copy_def GetHighestBitSet_Max [OF assms(2)] ClearAllBits_def bits_def bv_ok_def Let_def yields_bits_def room_for_def)
next
  case False
  let ?m = "Max (bits src)" and ?n = "Max (bits src) div 32 + 1"
  note i = max_index_ok [OF assms(2) False] and w = words_of_bits [OF assms(2) False]
  have c: "Copy src bv = SetBit ?m bv \<bind> (\<lambda>b. Some (b\<lparr>storage := take ?n (storage src) @ replicate (length (storage b) - ?n) 0\<rparr>))"
    using False by (simp add: Copy_def GetHighestBitSet_Max [OF assms(2)] Let_def)
  show ?thesis
  proof (cases "SetBit ?m bv")
    case None then show ?thesis using c SetBit_None [OF assms(1) i] False by (simp add: yields_bits_def room_for_def)
  next
    case (Some b)
    note s = SetBit_ok [OF assms(1) i Some]
    have "room bv ?m" using SetBit_None [OF assms(1) i] Some by fastforce
    moreover have "bits_st (take ?n (storage src)) = bits src"
    proof (rule bits_st_eqI)
      fix i assume "i div 32 < length (take ?n (storage src))"
      then show "bit (take ?n (storage src) ! (i div 32)) (i mod 32) = (i \<in> bits src)"
        by (simp add: bits_def bits_st_def)
    qed (use w(2,3) in simp)
    moreover have "length (take ?n (storage src) @ replicate (length (storage b) - ?n) 0) = length (storage b)"
      using w(3) s(3) by simp
    ultimately show ?thesis using s(2) c Some by (simp add: yields_bits_def room_for_def bits_def bv_ok_def del: length_append)
  qed
qed

lemma BitVector_copy_yields:
  assumes "bv_ok src"
  shows "yields_bits (BitVector_copy src expand) True (bits src)"
proof -
  let ?b = "\<lparr>storage = replicate (length (storage src)) 0, expandable = expand\<rparr>"
  have b: "bv_ok ?b" "BitSize ?b = length (storage src) * 32" using assms by (simp_all add: bv_ok_def BitSize_def)
  have "Max (bits src) < length (storage src) * 32" if "bits src \<noteq> {}"
    using bits_st_less Max_in [OF finite_bits that] unfolding bits_def by blast
  then have "room_for ?b (bits src)" using b(2) unfolding room_for_def room_def by metis
  then show ?thesis using Copy_yields [OF b(1) assms] by (simp add: BitVector_copy_def)
qed

subsection \<open>Iteration over the set bits\<close>

lemma CTZ_word:
  fixes w :: u32
  assumes "w \<noteq> 0"
  shows "CTZ w < 32" "bit w (CTZ w)" "\<And>j. j < CTZ w \<Longrightarrow> \<not> bit w j"
  using CTZ_spec [OF assms] by auto

lemma FindIndex_loop_spec:
  assumes "bv_ok bv" "k < length (storage bv)" "\<And>j. bit w j \<Longrightarrow> bit (storage bv ! k) j"
    "\<And>i. i \<in> bits bv \<Longrightarrow> lo \<le> i \<longleftrightarrow> k < i div 32 \<or> (i div 32 = k \<and> bit w (i mod 32))"
  shows "FindIndex_loop bv w k = (if \<exists>i \<in> bits bv. lo \<le> i then LEAST i. i \<in> bits bv \<and> lo \<le> i else BitSize bv)"
  using assms
proof (induction bv w k arbitrary: rule: FindIndex_loop.induct)
  case (1 bv w k)
  show ?case
  proof (cases "w = 0")
    case True
    have len: "i div 32 < length (storage bv)" if "i \<in> bits bv" for i using that by (simp add: bits_def bits_st_def)
    show ?thesis
    proof (cases "k + 1 \<ge> length (storage bv)")
      case True
      have "\<not> lo \<le> i" if "i \<in> bits bv" for i using that True len [OF that] 1(5) [OF that] \<open>w = 0\<close> by auto
      then show ?thesis using True \<open>w = 0\<close> by (subst FindIndex_loop.simps) auto
    next
      case False
      have "lo \<le> i \<longleftrightarrow> k + 1 < i div 32 \<or> (i div 32 = k + 1 \<and> bit (storage bv ! (k + 1)) (i mod 32))"
        if "i \<in> bits bv" for i
      proof -
        have "bit (storage bv ! (i div 32)) (i mod 32)" using that by (simp add: bits_def bits_st_def)
        then show ?thesis using 1(5) [OF that] True by (cases "i div 32 = k + 1") auto
      qed
      then have "FindIndex_loop bv (storage bv ! (k + 1)) (k + 1)
        = (if \<exists>i \<in> bits bv. lo \<le> i then LEAST i. i \<in> bits bv \<and> lo \<le> i else BitSize bv)"
        using False True by (intro 1(1)) (auto simp: 1(2))
      then show ?thesis using False True by (subst FindIndex_loop.simps) simp
    qed
  next
    case False
    note c = CTZ_word [OF False]
    let ?i = "k * 32 + CTZ w"
    have i: "?i div 32 = k" "?i mod 32 = CTZ w" using c(1) by simp_all
    have m: "?i \<in> bits bv" using 1(3,4) c by (simp add: bits_def bits_st_def)
    moreover have "lo \<le> ?i" using 1(5) [OF m] i c(2) by simp
    moreover have "?i \<le> j" if j: "j \<in> bits bv" "lo \<le> j" for j
    proof -
      have "k < j div 32 \<or> (j div 32 = k \<and> CTZ w \<le> j mod 32)"
        using 1(5) [OF j(1)] j(2) c(3) [of "j mod 32"] by (auto simp: not_le [symmetric])
      moreover have "j = j div 32 * 32 + j mod 32" by simp
      ultimately show ?thesis using c(1) by linarith
    qed
    ultimately have "(LEAST i. i \<in> bits bv \<and> lo \<le> i) = ?i" "\<exists>i \<in> bits bv. lo \<le> i"
      by (auto intro!: Least_equality)
    then show ?thesis using False by (subst FindIndex_loop.simps) simp
  qed
qed

lemma FindIndex_from_spec:
  assumes "bv_ok bv" "lo \<le> BitSize bv"
  shows "FindIndex_from bv lo = (if \<exists>i \<in> bits bv. lo \<le> i then LEAST i. i \<in> bits bv \<and> lo \<le> i else BitSize bv)"
proof (cases "lo div 32 = length (storage bv)")
  case True
  then have "lo = BitSize bv" using assms by (auto simp: BitSize_ok)
  moreover have "\<not> lo \<le> i" if "i \<in> bits bv" for i
    using bits_st_less that assms(1) \<open>lo = BitSize bv\<close> by (fastforce simp: bits_def BitSize_ok)
  ultimately show ?thesis using True by (auto simp: FindIndex_from_def Let_def)
next
  case False
  then have k: "lo div 32 < length (storage bv)"
    using assms div_le_mono [OF assms(2), of 32] by (simp add: BitSize_ok)
  let ?w = "storage bv ! (lo div 32) AND push_bit (lo mod 32) (- 1)"
  have w: "bit ?w j \<longleftrightarrow> bit (storage bv ! (lo div 32)) j \<and> lo mod 32 \<le> j" for j
    using bit_imp_le_length [of "storage bv ! (lo div 32)" j] by (auto simp: bit_simps)
  have "lo \<le> i \<longleftrightarrow> lo div 32 < i div 32 \<or> (i div 32 = lo div 32 \<and> bit ?w (i mod 32))" if "i \<in> bits bv" for i
  proof -
    have "lo = lo div 32 * 32 + lo mod 32" "i = i div 32 * 32 + i mod 32" "i mod 32 < 32" "lo mod 32 < 32" by simp_all
    then have "lo \<le> i \<longleftrightarrow> lo div 32 < i div 32 \<or> (i div 32 = lo div 32 \<and> lo mod 32 \<le> i mod 32)" by linarith
    then show ?thesis using that unfolding w by (auto simp: bits_def bits_st_def)
  qed
  then have "FindIndex_loop bv ?w (lo div 32)
    = (if \<exists>i \<in> bits bv. lo \<le> i then LEAST i. i \<in> bits bv \<and> lo \<le> i else BitSize bv)"
    by (intro FindIndex_loop_spec assms k) (simp_all only: w)
  then show ?thesis using False by (simp only: FindIndex_from_def Let_def if_False)
qed

definition from_list :: "nat set \<Rightarrow> nat \<Rightarrow> nat list" where
  "from_list A lo = sorted_list_of_set {i \<in> A. lo \<le> i}"

lemma from_list_Least:
  assumes "finite A" "\<exists>i \<in> A. lo \<le> i"
  defines "m \<equiv> LEAST i. i \<in> A \<and> lo \<le> i"
  shows "m \<in> A" "lo \<le> m" "from_list A lo = m # from_list A (m + 1)"
proof -
  have m: "m \<in> A \<and> lo \<le> m" unfolding m_def using assms(2) by (metis (mono_tags, lifting) LeastI)
  have l: "m \<le> i" if "i \<in> A" "lo \<le> i" for i unfolding m_def using that by (simp add: Least_le)
  have "{i \<in> A. lo \<le> i} = insert m {i \<in> A. m + 1 \<le> i}" using m l by (auto simp: Suc_le_eq order.strict_iff_order)
  moreover have "sorted_list_of_set (insert m {i \<in> A. m + 1 \<le> i}) = m # sorted_list_of_set {i \<in> A. m + 1 \<le> i}"
    using assms(1) by (subst sorted_list_of_set_insert_remove) (auto intro!: insort_is_Cons)
  ultimately show "m \<in> A" "lo \<le> m" "from_list A lo = m # from_list A (m + 1)"
    using m by (simp_all add: from_list_def)
qed

lemma Indexes_from_list:
  assumes "bv_ok bv" "lo \<le> BitSize bv"
  shows "Indexes_from bv (FindIndex_from bv lo) = Some (from_list (bits bv) lo)"
  using assms
proof (induction "BitSize bv - lo" arbitrary: lo rule: less_induct)
  case less
  show ?case
  proof (cases "\<exists>i \<in> bits bv. lo \<le> i")
    case True
    let ?m = "LEAST i. i \<in> bits bv \<and> lo \<le> i"
    note m = from_list_Least [OF finite_bits True]
    have b: "?m < BitSize bv" using m(1) bits_st_less less.prems(1) by (simp add: bits_def BitSize_ok)
    have "Indexes_from bv (FindIndex_from bv (?m + 1)) = Some (from_list (bits bv) (?m + 1))"
      by (rule less.hyps) (use b m(2) less.prems in auto)
    then show ?thesis
      using True b m(3) less.prems by (simp add: FindIndex_from_spec Indexes_from.simps [of bv ?m] Indexes_next_def)
  next
    case False
    then have "from_list (bits bv) lo = []" by (auto simp: from_list_def)
    then show ?thesis using False less.prems by (simp add: FindIndex_from_spec Indexes_from.simps)
  qed
qed

subsection \<open>Packed rows\<close>

definition row_bits :: "bit_array \<Rightarrow> nat \<Rightarrow> nat set" where
  "row_bits a r = {c. c < num_columns a \<and> r * num_columns a + c \<in> bits (bits_data a)}"

definition array_ok :: "bit_array \<Rightarrow> bool" where
  "array_ok a \<longleftrightarrow> bv_ok (bits_data a) \<and> 32 dvd num_columns a
     \<and> num_rows a * num_columns a \<le> length (storage (bits_data a)) * 32"

lemma RoundUpColumns_ok:
  "32 dvd RoundUpColumns c" "c \<le> 2 ^ 32 \<Longrightarrow> c \<le> RoundUpColumns c" "c \<le> 2 ^ 32 \<Longrightarrow> RoundUpColumns c < c + 32"
proof -
  have "c + 31 = (c + 31) div 32 * 32 + (c + 31) mod 32" "(c + 31) mod 32 < 32" by simp_all
  moreover have "RoundUpColumns c = (c + 31) div 32 * 32" if "c \<le> 2 ^ 32"
    using that by (simp add: RoundUpColumns_def)
  ultimately show "c \<le> 2 ^ 32 \<Longrightarrow> c \<le> RoundUpColumns c" "c \<le> 2 ^ 32 \<Longrightarrow> RoundUpColumns c < c + 32" by simp_all
qed (simp add: RoundUpColumns_def)

lemma union_fold:
  assumes "\<And>i. i < n \<Longrightarrow> d + i < length st" "\<And>i. i < n \<Longrightarrow> s + i < length st" "d = s \<or> d + n \<le> s \<or> s + n \<le> d"
  shows "foldl (\<lambda>st i. st[d + i := st ! (d + i) OR st ! (s + i)]) st [0..<n]
    = map (\<lambda>k. if d \<le> k \<and> k < d + n then st ! k OR st ! (s + (k - d)) else st ! k) [0..<length st]"
  using assms
proof (induction n)
  case 0 show ?case by (rule nth_equalityI) auto
next
  case (Suc n)
  let ?st = "map (\<lambda>k. if d \<le> k \<and> k < d + n then st ! k OR st ! (s + (k - d)) else st ! k) [0..<length st]"
  have ih: "foldl (\<lambda>st i. st[d + i := st ! (d + i) OR st ! (s + i)]) st [0..<n] = ?st"
    by (rule Suc.IH) (use Suc.prems in \<open>auto simp: less_Suc_eq\<close>)
  have "d + n < length st" "s + n < length st" using Suc.prems by simp_all
  moreover have "\<not> (d \<le> s + n \<and> s + n < d + n)" using Suc.prems(3) by auto
  ultimately have "?st[d + n := ?st ! (d + n) OR ?st ! (s + n)]
    = map (\<lambda>k. if d \<le> k \<and> k < d + Suc n then st ! k OR st ! (s + (k - d)) else st ! k) [0..<length st]"
    by (auto intro!: nth_equalityI simp: nth_list_update simp del: upt_Suc)
  then show ?case using ih by simp
qed

lemma Array_UnionRows_bits:
  assumes "array_ok a" "d < num_rows a" "s < num_rows a" "r < num_rows a"
  shows "row_bits (Array_UnionRows d s a) r = (if r = d then row_bits a d \<union> row_bits a s else row_bits a r)"
    "array_ok (Array_UnionRows d s a)"
proof -
  obtain w where w: "num_columns a = 32 * w" using assms(1) by (auto simp: array_ok_def)
  let ?st = "storage (bits_data a)"
  have le: "x * w + j < length ?st" if "x < num_rows a" "j < w" for x j
  proof -
    have "x * w + j < (x + 1) * w" using that by simp
    also have "\<dots> \<le> num_rows a * w" using that(1) by (intro mult_right_mono) auto
    also have "\<dots> \<le> length ?st" using assms(1) w by (simp add: array_ok_def)
    finally show ?thesis .
  qed
  have sep: "x * w = y * w \<or> x * w + w \<le> y * w \<or> y * w + w \<le> x * w" for x y
    by (metis add.commute mult_Suc mult_le_mono1 not_less_eq_eq le_antisym nat_le_linear)
  let ?new = "map (\<lambda>k. if d * w \<le> k \<and> k < d * w + w then ?st ! k OR ?st ! (s * w + (k - d * w)) else ?st ! k) [0..<length ?st]"
  have u: "Array_UnionRows d s a = a\<lparr>bits_data := (bits_data a)\<lparr>storage := ?new\<rparr>\<rparr>"
    using union_fold [of w "d * w" ?st "s * w"] le assms(2,3) sep
    by (simp add: Array_UnionRows_def Let_def w mult.left_commute [of _ 32])
  show "array_ok (Array_UnionRows d s a)" using assms(1) by (simp add: u array_ok_def bv_ok_def)
  have rb: "row_bits b r = {c. c < 32 * w \<and> bit (storage (bits_data b) ! (r * w + c div 32)) (c mod 32)}"
    if "num_columns b = 32 * w" "length (storage (bits_data b)) = length ?st" "r < num_rows a" for b r
  proof -
    have "(r * (32 * w) + c) div 32 = r * w + c div 32" "(r * (32 * w) + c) mod 32 = c mod 32" for c
      by (simp_all add: mult.left_commute [of _ 32])
    moreover have "c < 32 * w \<Longrightarrow> r * w + c div 32 < length ?st" for c using le that(3) by (simp add: div_less_iff_less_mult mult.commute)
    ultimately show ?thesis using that(1,2) by (auto simp: row_bits_def bits_def bits_st_def)
  qed
  have new: "?new ! (r * w + j) = (if r = d then ?st ! (d * w + j) OR ?st ! (s * w + j) else ?st ! (r * w + j))" if "j < w" for j
    using le [OF assms(4) that] that sep [of r d] by (auto simp del: upt_Suc)
  show "row_bits (Array_UnionRows d s a) r = (if r = d then row_bits a d \<union> row_bits a s else row_bits a r)"
    using assms(2-4) new by (auto simp: rb w u bit_or_iff div_less_iff_less_mult mult.commute simp del: nth_map)
qed


lemma Array_Resize_ok:
  assumes "bv_ok (bits_data a)" "expandable (bits_data a)" "0 < rows * cols" "cols \<le> 2 ^ 32" "rows * RoundUpColumns cols \<le> 2 ^ 31"
  obtains b where "Array_Resize rows cols clear a = Some b"
    "bits (bits_data b) = (if clear then {} else bits (bits_data a)) - {rows * RoundUpColumns cols - 1}"
    "array_ok b" "num_rows b = rows" "num_columns b = RoundUpColumns cols"
proof -
  let ?n = "rows * RoundUpColumns cols"
  let ?b = "if clear then ClearAllBits (bits_data a) else bits_data a"
  have n: "0 < ?n" using assms(3) RoundUpColumns_ok(2) [OF assms(4)] by (cases "cols = 0") auto
  have "nat ((int k - 1) mod 2 ^ 64) = k - 1" if "0 < k" "k \<le> 2 ^ 31" for k
    using that by (subst mod_pos_pos_trivial) auto
  from this [OF n assms(5)] have l: "wrap32 (nat ((int ?n - 1) mod 2 ^ 64)) = ?n - 1" using assms(5) by simp
  have ok: "bv_ok ?b" using assms(1) ClearAllBits_ok by simp
  have i: "index_ok (?n - 1)" using assms(5) n unfolding index_ok_def by linarith
  have "room ?b (?n - 1)" using assms(2) by (simp add: room_def ClearAllBits_def)
  then obtain b where b: "SetBit (?n - 1) ?b = Some b" using SetBit_None [OF ok i] by auto
  let ?r = "a\<lparr>num_columns := RoundUpColumns cols, num_rows := rows, bits_data := ClearBit (?n - 1) b\<rparr>"
  have r: "Array_Resize rows cols clear a = Some ?r"
    using l b assms(2) by (cases clear) (simp_all add: Array_Resize_def Array_Clear_def Let_def)
  note s = SetBit_ok [OF ok i b]
  note c = ClearBit_ok [OF s(2), of "?n - 1"]
  have "bits (bits_data ?r) = (if clear then {} else bits (bits_data a)) - {?n - 1}"
    using c(1) s(1) ClearAllBits_ok(1) by auto
  moreover have "?n \<le> ((?n - 1) div 32 + 1) * 32"
    using n by (simp add: dividend_less_div_times Suc_leI less_eq_Suc_le flip: Suc_le_eq)
  moreover have "\<dots> \<le> max (length (storage ?b)) ((?n - 1) div 32 + 1) * 32" by (intro mult_right_mono) auto
  ultimately show ?thesis
    using c(2,3) s(3) RoundUpColumns_ok(1) that [OF r] by (simp add: array_ok_def)
qed

lemma Array_Resize_fixed: "\<not> expandable (bits_data a) \<Longrightarrow> Array_Resize rows cols clear a = None"
  by (simp add: Array_Resize_def)

lemma index_split:
  fixes c n :: nat
  assumes "c < n" "c' < n"
  shows "r * n + c = r' * n + c' \<longleftrightarrow> r = r' \<and> c = c'"
  using assms by (metis add.commute div_mult_self1 div_less less_nat_zero_code mod_less mod_mult_self1 add_left_cancel)

lemma array_index_less:
  assumes "array_ok a" "r < num_rows a" "c < num_columns a"
  shows "r * num_columns a + c < length (storage (bits_data a)) * 32"
proof -
  have "r * num_columns a + c < (r + 1) * num_columns a" using assms(3) by simp
  also have "\<dots> \<le> num_rows a * num_columns a" using assms(2) by (intro mult_right_mono) auto
  finally show ?thesis using assms(1) by (simp add: array_ok_def)
qed

lemma array_index_wrap:
  assumes "array_ok a" "r < num_rows a" "c < num_columns a"
  shows "wrap32 (r * num_columns a + c) = r * num_columns a + c" "index_ok (r * num_columns a + c)"
    "room (bits_data a) (r * num_columns a + c)"
proof -
  have ok: "bv_ok (bits_data a)" using assms(1) by (simp add: array_ok_def)
  have l: "r * num_columns a + c < length (storage (bits_data a)) * 32" by (rule array_index_less [OF assms])
  moreover have "length (storage (bits_data a)) * 32 \<le> 2 ^ 31" using ok unfolding bv_ok_def .
  ultimately have "r * num_columns a + c < 2 ^ 31" by linarith
  then show "wrap32 (r * num_columns a + c) = r * num_columns a + c" "index_ok (r * num_columns a + c)"
    by (simp_all add: index_ok_def)
  show "room (bits_data a) (r * num_columns a + c)" using l BitSize_ok [OF ok] by (simp add: room_def)
qed

lemma Array_SetBit_ok:
  assumes "array_ok a" "r < num_rows a" "c < num_columns a"
  shows "\<exists>b. Array_SetBit r c a = Some b \<and> array_ok b \<and>
    (\<forall>r'. row_bits b r' = (if r' = r then insert c (row_bits a r) else row_bits a r'))"
proof -
  note w = array_index_wrap [OF assms]
  have ok: "bv_ok (bits_data a)" using assms(1) by (simp add: array_ok_def)
  obtain b where b: "SetBit (r * num_columns a + c) (bits_data a) = Some b" using SetBit_None [OF ok w(2)] w(3) by auto
  note s = SetBit_ok [OF ok w(2) b]
  let ?b = "a\<lparr>bits_data := b\<rparr>"
  have "row_bits ?b r' = (if r' = r then insert c (row_bits a r) else row_bits a r')" for r'
    using s(1) assms(3) index_split [OF _ assms(3)] by (auto simp: row_bits_def)
  moreover have "array_ok ?b" using s(2,3) assms(1) by (auto simp: array_ok_def max_def)
  ultimately show ?thesis using b w(1) by (simp add: Array_SetBit_def)
qed

lemma Array_bit_ok:
  assumes "array_ok a" "r < num_rows a" "c < num_columns a"
  shows "Array_IsBitSet a r c \<longleftrightarrow> c \<in> row_bits a r"
    "row_bits (Array_ClearBit r c a) r' = (if r' = r then row_bits a r - {c} else row_bits a r')"
    "array_ok (Array_ClearBit r c a)"
proof -
  note w = array_index_wrap [OF assms]
  have ok: "bv_ok (bits_data a)" using assms(1) by (simp add: array_ok_def)
  note cl = ClearBit_ok [OF ok, of "r * num_columns a + c"]
  show "Array_IsBitSet a r c \<longleftrightarrow> c \<in> row_bits a r"
    using assms(3) ok w(1) by (simp add: Array_IsBitSet_def IsBitSet_iff row_bits_def)
  show "row_bits (Array_ClearBit r c a) r' = (if r' = r then row_bits a r - {c} else row_bits a r')"
    using cl(1) assms(3) index_split [OF _ assms(3)] by (auto simp: row_bits_def Array_ClearBit_def w(1))
  show "array_ok (Array_ClearBit r c a)"
    using cl(2,3) assms(1) by (auto simp: array_ok_def Array_ClearBit_def w(1))
qed

subsection \<open>Correctness of the bit vector\<close>

text \<open>
  C4: A BitVector is a set of indices.  On vectors of at most 2147483648 bits, SetBit, ClearBit,
  ClearAllBits, SetInitialBits, Copy, the copy constructor, Intersect, Subtract, Union and UnionIfNotIn
  compute exactly the set operations, whatever the lengths of the two storages, keep that bound, and the
  two unions report a change exactly when the set grew.  An operation that has to grow the storage
  succeeds exactly when the vector is expandable or already reaches the largest index concerned, and
  otherwise stops at the assertion of EnsureSize; the copy constructor never does.\<close>

theorem BitVector_refines_sets:
  assumes "bv_ok bv" "bv_ok src" "index_ok idx"
  shows "yields_bits (SetBit idx bv) (room bv idx) (insert idx (bits bv)) \<and>
    (bits (ClearBit idx bv) = bits bv - {idx} \<and> bv_ok (ClearBit idx bv)) \<and>
    (bits (ClearAllBits bv) = {} \<and> bv_ok (ClearAllBits bv)) \<and>
    yields_bits (SetInitialBits (idx + 1) bv) (room bv idx) {0..idx} \<and>
    yields_bits (Copy src bv) (room_for bv (bits src)) (bits src) \<and>
    yields_bits (BitVector_copy src expand) True (bits src) \<and>
    (bits (Intersect src bv) = bits bv \<inter> bits src \<and> bv_ok (Intersect src bv)) \<and>
    (bits (Subtract src bv) = bits bv - bits src \<and> bv_ok (Subtract src bv)) \<and>
    yields_union (Union src bv) (room_for bv (bits src)) bv (bits src) \<and>
    yields_union (UnionIfNotIn src not_in bv) (room_for bv (bits src)) bv (bits src - bits not_in)"
  using SetBit_yields [OF assms(1,3)] ClearBit_ok(1,2) [OF assms(1)] ClearAllBits_ok(1) ClearAllBits_ok(2) [OF assms(1)]
    SetInitialBits_yields [OF assms(1,3)] Copy_yields [OF assms(1,2)] BitVector_copy_yields [OF assms(2)]
    Intersect_ok(1) Intersect_ok(2) [OF assms(1)] Subtract_ok(1) Subtract_ok(2) [OF assms(1)]
    Union_yields [OF assms(1,2)] UnionIfNotIn_yields [OF assms(1,2)]
  by presburger

text \<open>
  C28: The queries of a BitVector answer for the set: IsBitSet is membership (also past the end of the
  storage), NumSetBits the cardinality, the bounded count the number of members below the bound,
  GetHighestBitSet the maximum or -1, SameBitsSet set equality and IsSubsetOf inclusion, also between
  vectors of different lengths.\<close>

theorem BitVector_queries_exact:
  assumes "bv_ok bv" "bv_ok other" "e \<le> BitSize bv"
  shows "(IsBitSet bv idx \<longleftrightarrow> idx \<in> bits bv) \<and>
    NumSetBits bv = card (bits bv) \<and>
    NumSetBits_until bv e = card {i \<in> bits bv. i < e} \<and>
    GetHighestBitSet bv = (if bits bv = {} then - 1 else int (Max (bits bv))) \<and>
    (IsAnyBitSet bv \<longleftrightarrow> bits bv \<noteq> {}) \<and>
    (SameBitsSet bv other \<longleftrightarrow> bits bv = bits other) \<and>
    (IsSubsetOf bv other \<longleftrightarrow> bits bv \<subseteq> bits other)"
  using assms(3) by (simp only: IsBitSet_iff [OF assms(1)] NumSetBits_card [OF assms(1)] BitSize_ok [OF assms(1)]
      NumSetBits_until_card [OF assms(1)] GetHighestBitSet_Max [OF assms(1)] IsAnyBitSet_iff [OF assms(1)]
      SameBitsSet_iff [OF assms(1,2)] IsSubsetOf_iff [OF assms(1,2)] simp_thms)

text \<open>
  C29: A loop over Indexes() of a BitVector terminates and visits exactly the set bits, each once, in
  increasing order.\<close>

theorem BitVector_Indexes_terminates:
  assumes "bv_ok bv"
  shows "\<exists>is. Indexes_from bv (Indexes_begin bv) = Some is \<and> set is = bits bv \<and> sorted_wrt (<) is"
proof -
  have "from_list (bits bv) 0 = sorted_list_of_set (bits bv)" by (simp add: from_list_def)
  then show ?thesis
    using Indexes_from_list [OF assms, of 0] by (simp add: Indexes_begin_def strict_sorted_list_of_set)
qed

text \<open>
  C30: A bit vector array is a family of rows.  Resize of an expandable array to a non-empty size of at
  most 2147483648 bits succeeds, gives the requested rows and rounded columns, which fit the storage, and
  leaves every bit clear, or, without clearing, every bit but the last of the new size as it was; Resize
  of a fixed array stops at its assertion.  On rows and columns in range SetBit always succeeds; setting,
  clearing and testing a bit act on one column of one row, and UnionRows adds the bits of the other row
  to the destination row and leaves every other row alone.\<close>

theorem BitVectorArray_rows:
  assumes "bv_ok (bits_data a0)" "0 < rows * cols" "cols \<le> 2 ^ 32" "rows * RoundUpColumns cols \<le> 2 ^ 31"
    "array_ok a" "r < num_rows a" "s < num_rows a" "c < num_columns a" "r' < num_rows a"
  shows "(if expandable (bits_data a0)
      then \<exists>b. Array_Resize rows cols clear a0 = Some b \<and> array_ok b \<and>
        num_rows b = rows \<and> num_columns b = RoundUpColumns cols \<and>
        bits (bits_data b) = (if clear then {} else bits (bits_data a0) - {rows * RoundUpColumns cols - 1})
      else Array_Resize rows cols clear a0 = None) \<and>
    (Array_IsBitSet a r c \<longleftrightarrow> c \<in> row_bits a r) \<and>
    (\<exists>b. Array_SetBit r c a = Some b \<and> array_ok b \<and>
      row_bits b r' = (if r' = r then insert c (row_bits a r) else row_bits a r')) \<and>
    (row_bits (Array_ClearBit r c a) r' = (if r' = r then row_bits a r - {c} else row_bits a r') \<and>
      array_ok (Array_ClearBit r c a)) \<and>
    (row_bits (Array_UnionRows r s a) r' = (if r' = r then row_bits a r \<union> row_bits a s else row_bits a r') \<and>
      array_ok (Array_UnionRows r s a))"
proof -
  have "\<exists>b. Array_Resize rows cols clear a0 = Some b \<and> array_ok b \<and>
        num_rows b = rows \<and> num_columns b = RoundUpColumns cols \<and>
        bits (bits_data b) = (if clear then {} else bits (bits_data a0) - {rows * RoundUpColumns cols - 1})"
    if "expandable (bits_data a0)"
    by (rule Array_Resize_ok [OF assms(1) that assms(2-4), of clear]) auto
  moreover have "\<exists>b. Array_SetBit r c a = Some b \<and> array_ok b \<and>
      row_bits b r' = (if r' = r then insert c (row_bits a r) else row_bits a r')"
    using Array_SetBit_ok [OF assms(5,6,8)] by blast
  ultimately show ?thesis
    using Array_Resize_fixed [of a0 rows cols clear] Array_bit_ok [OF assms(5,6,8)] Array_UnionRows_bits [OF assms(5,6,7,9)]
    by presburger
qed

subsection \<open>Witnesses\<close>

definition example_bv :: bit_vector where
  "example_bv = \<lparr>storage = [8, 256], expandable = True\<rparr>"

definition example_array :: bit_array where
  "example_array = \<lparr>bits_data = \<lparr>storage = [0, 0, 0, 8, 0, 0], expandable = True\<rparr>, num_columns = 64, num_rows = 3\<rparr>"

lemma example_bv_ok: "bv_ok example_bv" "BitSize example_bv = 64"
  by (simp_all add: bv_ok_def example_bv_def BitSize_def wrap32_def)

lemma example_array_ok: "array_ok example_array" "bv_ok (bits_data example_array)"
    "num_rows example_array = 3" "num_columns example_array = 64"
  by (simp_all add: array_ok_def bv_ok_def example_array_def)

theorem BitVector_refines_sets_witness:
  "(\<exists>b. Union (bits_data example_array) example_bv = Some (b, True) \<and>
      bits b = bits example_bv \<union> bits (bits_data example_array)) \<and>
    SetBit 64 (example_bv\<lparr>expandable := False\<rparr>) = None"
proof -
  have n: "99 \<in> bits (bits_data example_array)" "99 \<notin> bits example_bv"
    by (simp_all add: bits_def bits_st_def example_array_def example_bv_def bit_numeral_rec)
  then have g: "\<not> bits (bits_data example_array) \<subseteq> bits example_bv" by blast
  have r: "room_for example_bv (bits (bits_data example_array))" by (simp add: room_for_def room_def example_bv_def)
  have "yields_union (Union (bits_data example_array) example_bv) True example_bv (bits (bits_data example_array))"
    using BitVector_refines_sets [OF example_bv_ok(1) example_array_ok(2), of 64 True example_bv] r
    by (simp only: index_ok_def simp_thms) simp
  then have "\<exists>b. Union (bits_data example_array) example_bv = Some (b, True) \<and>
      bits b = bits example_bv \<union> bits (bits_data example_array)"
    using g by (auto simp: yields_union_def)
  moreover have "bv_ok (example_bv\<lparr>expandable := False\<rparr>)" "\<not> room (example_bv\<lparr>expandable := False\<rparr>) 64"
    using example_bv_ok by (simp_all add: bv_ok_def room_def BitSize_def)
  then have "SetBit 64 (example_bv\<lparr>expandable := False\<rparr>) = None"
    using BitVector_refines_sets [OF _ example_array_ok(2), of "example_bv\<lparr>expandable := False\<rparr>" 64]
    by (simp add: index_ok_def yields_bits_def)
  ultimately show ?thesis ..
qed

theorem BitVector_queries_exact_witness: "NumSetBits_until example_bv 33 = card {i \<in> bits example_bv. i < 33}"
  using BitVector_queries_exact [OF example_bv_ok(1) example_bv_ok(1), of 33] by (simp add: example_bv_ok)

theorem BitVector_Indexes_terminates_witness:
  "\<exists>is. Indexes_from example_bv (Indexes_begin example_bv) = Some is \<and> set is = bits example_bv \<and> sorted_wrt (<) is"
  by (rule BitVector_Indexes_terminates) (rule example_bv_ok)

theorem BitVectorArray_rows_witness:
  "row_bits (Array_UnionRows 2 1 example_array) 2 = row_bits example_array 2 \<union> row_bits example_array 1 \<and>
    (\<exists>b. Array_Resize 3 40 True example_array = Some b \<and> num_columns b = 64 \<and> bits (bits_data b) = {})"
proof -
  have "expandable (bits_data example_array)" by (simp add: example_array_def)
  then show ?thesis
    using BitVectorArray_rows [of example_array 3 40 example_array 2 1 0 2 True]
    by (simp add: example_array_ok RoundUpColumns_def) blast
qed

end
