(* ===== verification/Dex_Instruction_List.thy ===== *)
theory Dex_Instruction_List
  imports Art_Prelude
begin

text \<open>
  The Dalvik instruction set as data: the enumerations of \<^verbatim>\<open>Instruction\<close> in
  \<^verbatim>\<open>libdexfile/dex/dex_instruction.h\<close> and the table of the 256 opcodes in
  \<^verbatim>\<open>libdexfile/dex/dex_instruction_list.h\<close>, from which the descriptors and names of
  \<^verbatim>\<open>dex_instruction.cc\<close> are generated.  An opcode (\<^verbatim>\<open>Instruction::Code\<close>) is a byte.
\<close>

unbundle bit_operations_syntax

named_theorems dex_flags

subsection \<open>Enumerations\<close>

datatype Format =
    k10x | k12x | k11n | k11x | k10t | k20t | k22x | k21t | k21s
  | k21h | k21c | k23x | k22b | k22t | k22s | k22c | k32x | k30t
  | k31t | k31i | k31c | k35c | k3rc | k45cc | k4rcc | k51l | kInvalidFormat

text \<open>The position of an enumerator, which the C++ comparisons of formats use.\<close>

primrec Format_index :: "Format \<Rightarrow> nat" where
  "Format_index k10x = 0"
| "Format_index k12x = 1"
| "Format_index k11n = 2"
| "Format_index k11x = 3"
| "Format_index k10t = 4"
| "Format_index k20t = 5"
| "Format_index k22x = 6"
| "Format_index k21t = 7"
| "Format_index k21s = 8"
| "Format_index k21h = 9"
| "Format_index k21c = 10"
| "Format_index k23x = 11"
| "Format_index k22b = 12"
| "Format_index k22t = 13"
| "Format_index k22s = 14"
| "Format_index k22c = 15"
| "Format_index k32x = 16"
| "Format_index k30t = 17"
| "Format_index k31t = 18"
| "Format_index k31i = 19"
| "Format_index k31c = 20"
| "Format_index k35c = 21"
| "Format_index k3rc = 22"
| "Format_index k45cc = 23"
| "Format_index k4rcc = 24"
| "Format_index k51l = 25"
| "Format_index kInvalidFormat = 26"

datatype IndexType =
    kIndexUnknown | kIndexNone | kIndexTypeRef | kIndexStringRef
  | kIndexMethodRef | kIndexFieldRef | kIndexFieldOffset | kIndexVtableOffset
  | kIndexMethodAndProtoRef | kIndexCallSiteRef | kIndexMethodHandleRef | kIndexProtoRef

text \<open>Signatures of the payloads that start with a \<^verbatim>\<open>NOP\<close> opcode.\<close>

definition kPackedSwitchSignature :: u16 where [dex_flags]: "kPackedSwitchSignature = 0x0100"
definition kSparseSwitchSignature :: u16 where [dex_flags]: "kSparseSwitchSignature = 0x0200"
definition kArrayDataSignature :: u16 where [dex_flags]: "kArrayDataSignature = 0x0300"

text \<open>Control-flow flags.\<close>

definition kBranch :: u8 where [dex_flags]: "kBranch = 0x01"
definition kContinue :: u8 where [dex_flags]: "kContinue = 0x02"
definition kSwitch :: u8 where [dex_flags]: "kSwitch = 0x04"
definition kThrow :: u8 where [dex_flags]: "kThrow = 0x08"
definition kReturn :: u8 where [dex_flags]: "kReturn = 0x10"
definition kInvoke :: u8 where [dex_flags]: "kInvoke = 0x20"
definition kUnconditional :: u8 where [dex_flags]: "kUnconditional = 0x40"
definition kExperimental :: u8 where [dex_flags]: "kExperimental = 0x80"

text \<open>Extended flags.\<close>

definition kAdd :: u32 where [dex_flags]: "kAdd = 0x0000080"
definition kSubtract :: u32 where [dex_flags]: "kSubtract = 0x0000100"
definition kMultiply :: u32 where [dex_flags]: "kMultiply = 0x0000200"
definition kDivide :: u32 where [dex_flags]: "kDivide = 0x0000400"
definition kRemainder :: u32 where [dex_flags]: "kRemainder = 0x0000800"
definition kAnd :: u32 where [dex_flags]: "kAnd = 0x0001000"
definition kOr :: u32 where [dex_flags]: "kOr = 0x0002000"
definition kXor :: u32 where [dex_flags]: "kXor = 0x0004000"
definition kShl :: u32 where [dex_flags]: "kShl = 0x0008000"
definition kShr :: u32 where [dex_flags]: "kShr = 0x0010000"
definition kUshr :: u32 where [dex_flags]: "kUshr = 0x0020000"
definition kCast :: u32 where [dex_flags]: "kCast = 0x0040000"
definition kStore :: u32 where [dex_flags]: "kStore = 0x0080000"
definition kLoad :: u32 where [dex_flags]: "kLoad = 0x0100000"
definition kClobber :: u32 where [dex_flags]: "kClobber = 0x0200000"
definition kRegCFieldOrConstant :: u32 where [dex_flags]: "kRegCFieldOrConstant = 0x0400000"
definition kRegBFieldOrConstant :: u32 where [dex_flags]: "kRegBFieldOrConstant = 0x0800000"

text \<open>Verifier flags.\<close>

definition kVerifyNothing :: u32 where [dex_flags]: "kVerifyNothing = 0x0000000"
definition kVerifyRegA :: u32 where [dex_flags]: "kVerifyRegA = 0x0000001"
definition kVerifyRegAWide :: u32 where [dex_flags]: "kVerifyRegAWide = 0x0000002"
definition kVerifyRegB :: u32 where [dex_flags]: "kVerifyRegB = 0x0000004"
definition kVerifyRegBField :: u32 where [dex_flags]: "kVerifyRegBField = 0x0000008"
definition kVerifyRegBMethod :: u32 where [dex_flags]: "kVerifyRegBMethod = 0x0000010"
definition kVerifyRegBNewInstance :: u32 where [dex_flags]: "kVerifyRegBNewInstance = 0x0000020"
definition kVerifyRegBString :: u32 where [dex_flags]: "kVerifyRegBString = 0x0000040"
definition kVerifyRegBType :: u32 where [dex_flags]: "kVerifyRegBType = 0x0000080"
definition kVerifyRegBWide :: u32 where [dex_flags]: "kVerifyRegBWide = 0x0000100"
definition kVerifyRegC :: u32 where [dex_flags]: "kVerifyRegC = 0x0000200"
definition kVerifyRegCField :: u32 where [dex_flags]: "kVerifyRegCField = 0x0000400"
definition kVerifyRegCNewArray :: u32 where [dex_flags]: "kVerifyRegCNewArray = 0x0000800"
definition kVerifyRegCType :: u32 where [dex_flags]: "kVerifyRegCType = 0x0001000"
definition kVerifyRegCWide :: u32 where [dex_flags]: "kVerifyRegCWide = 0x0002000"
definition kVerifyArrayData :: u32 where [dex_flags]: "kVerifyArrayData = 0x0004000"
definition kVerifyBranchTarget :: u32 where [dex_flags]: "kVerifyBranchTarget = 0x0008000"
definition kVerifySwitchTargets :: u32 where [dex_flags]: "kVerifySwitchTargets = 0x0010000"
definition kVerifyVarArg :: u32 where [dex_flags]: "kVerifyVarArg = 0x0020000"
definition kVerifyVarArgNonZero :: u32 where [dex_flags]: "kVerifyVarArgNonZero = 0x0040000"
definition kVerifyVarArgRange :: u32 where [dex_flags]: "kVerifyVarArgRange = 0x0080000"
definition kVerifyVarArgRangeNonZero :: u32 where [dex_flags]: "kVerifyVarArgRangeNonZero = 0x0100000"
definition kVerifyRuntimeOnly :: u32 where [dex_flags]: "kVerifyRuntimeOnly = 0x0200000"
definition kVerifyError :: u32 where [dex_flags]: "kVerifyError = 0x0400000"
definition kVerifyRegHPrototype :: u32 where [dex_flags]: "kVerifyRegHPrototype = 0x0800000"
definition kVerifyRegBCallSite :: u32 where [dex_flags]: "kVerifyRegBCallSite = 0x1000000"
definition kVerifyRegBMethodHandle :: u32 where [dex_flags]: "kVerifyRegBMethodHandle = 0x2000000"
definition kVerifyRegBPrototype :: u32 where [dex_flags]: "kVerifyRegBPrototype = 0x4000000"

subsection \<open>The opcode table\<close>

text \<open>One line of \<^verbatim>\<open>DEX_INSTRUCTION_LIST\<close>: opcode, enumerator, name, format, index type, flags, extended
  flags, verifier flags.\<close>

datatype dex_entry = V u8 string string Format IndexType u8 u32 u32

definition DEX_INSTRUCTION_LIST_low :: "dex_entry list" where
  "DEX_INSTRUCTION_LIST_low = [
    V 0x00 ''NOP'' ''nop'' k10x kIndexNone kContinue 0 kVerifyNothing,
    V 0x01 ''MOVE'' ''move'' k12x kIndexNone kContinue 0 (kVerifyRegA OR kVerifyRegB),
    V 0x02 ''MOVE_FROM16'' ''move/from16'' k22x kIndexNone kContinue 0 (kVerifyRegA OR kVerifyRegB),
    V 0x03 ''MOVE_16'' ''move/16'' k32x kIndexNone kContinue 0 (kVerifyRegA OR kVerifyRegB),
    V 0x04 ''MOVE_WIDE'' ''move-wide'' k12x kIndexNone kContinue 0 (kVerifyRegAWide OR kVerifyRegBWide),
    V 0x05 ''MOVE_WIDE_FROM16'' ''move-wide/from16'' k22x kIndexNone kContinue 0 (kVerifyRegAWide OR kVerifyRegBWide),
    V 0x06 ''MOVE_WIDE_16'' ''move-wide/16'' k32x kIndexNone kContinue 0 (kVerifyRegAWide OR kVerifyRegBWide),
    V 0x07 ''MOVE_OBJECT'' ''move-object'' k12x kIndexNone kContinue 0 (kVerifyRegA OR kVerifyRegB),
    V 0x08 ''MOVE_OBJECT_FROM16'' ''move-object/from16'' k22x kIndexNone kContinue 0 (kVerifyRegA OR kVerifyRegB),
    V 0x09 ''MOVE_OBJECT_16'' ''move-object/16'' k32x kIndexNone kContinue 0 (kVerifyRegA OR kVerifyRegB),
    V 0x0A ''MOVE_RESULT'' ''move-result'' k11x kIndexNone kContinue 0 kVerifyRegA,
    V 0x0B ''MOVE_RESULT_WIDE'' ''move-result-wide'' k11x kIndexNone kContinue 0 kVerifyRegAWide,
    V 0x0C ''MOVE_RESULT_OBJECT'' ''move-result-object'' k11x kIndexNone kContinue 0 kVerifyRegA,
    V 0x0D ''MOVE_EXCEPTION'' ''move-exception'' k11x kIndexNone kContinue 0 kVerifyRegA,
    V 0x0E ''RETURN_VOID'' ''return-void'' k10x kIndexNone kReturn 0 kVerifyNothing,
    V 0x0F ''RETURN'' ''return'' k11x kIndexNone kReturn 0 kVerifyRegA,
    V 0x10 ''RETURN_WIDE'' ''return-wide'' k11x kIndexNone kReturn 0 kVerifyRegAWide,
    V 0x11 ''RETURN_OBJECT'' ''return-object'' k11x kIndexNone kReturn 0 kVerifyRegA,
    V 0x12 ''CONST_4'' ''const/4'' k11n kIndexNone kContinue kRegBFieldOrConstant kVerifyRegA,
    V 0x13 ''CONST_16'' ''const/16'' k21s kIndexNone kContinue kRegBFieldOrConstant kVerifyRegA,
    V 0x14 ''CONST'' ''const'' k31i kIndexNone kContinue kRegBFieldOrConstant kVerifyRegA,
    V 0x15 ''CONST_HIGH16'' ''const/high16'' k21h kIndexNone kContinue kRegBFieldOrConstant kVerifyRegA,
    V 0x16 ''CONST_WIDE_16'' ''const-wide/16'' k21s kIndexNone kContinue kRegBFieldOrConstant kVerifyRegAWide,
    V 0x17 ''CONST_WIDE_32'' ''const-wide/32'' k31i kIndexNone kContinue kRegBFieldOrConstant kVerifyRegAWide,
    V 0x18 ''CONST_WIDE'' ''const-wide'' k51l kIndexNone kContinue kRegBFieldOrConstant kVerifyRegAWide,
    V 0x19 ''CONST_WIDE_HIGH16'' ''const-wide/high16'' k21h kIndexNone kContinue kRegBFieldOrConstant kVerifyRegAWide,
    V 0x1A ''CONST_STRING'' ''const-string'' k21c kIndexStringRef (kContinue OR kThrow) 0 (kVerifyRegA OR kVerifyRegBString),
    V 0x1B ''CONST_STRING_JUMBO'' ''const-string/jumbo'' k31c kIndexStringRef (kContinue OR kThrow) 0 (kVerifyRegA OR kVerifyRegBString),
    V 0x1C ''CONST_CLASS'' ''const-class'' k21c kIndexTypeRef (kContinue OR kThrow) 0 (kVerifyRegA OR kVerifyRegBType),
    V 0x1D ''MONITOR_ENTER'' ''monitor-enter'' k11x kIndexNone (kContinue OR kThrow) kClobber kVerifyRegA,
    V 0x1E ''MONITOR_EXIT'' ''monitor-exit'' k11x kIndexNone (kContinue OR kThrow) kClobber kVerifyRegA,
    V 0x1F ''CHECK_CAST'' ''check-cast'' k21c kIndexTypeRef (kContinue OR kThrow) 0 (kVerifyRegA OR kVerifyRegBType),
    V 0x20 ''INSTANCE_OF'' ''instance-of'' k22c kIndexTypeRef (kContinue OR kThrow) 0 (kVerifyRegA OR kVerifyRegB OR kVerifyRegCType),
    V 0x21 ''ARRAY_LENGTH'' ''array-length'' k12x kIndexNone (kContinue OR kThrow) 0 (kVerifyRegA OR kVerifyRegB),
    V 0x22 ''NEW_INSTANCE'' ''new-instance'' k21c kIndexTypeRef (kContinue OR kThrow) kClobber (kVerifyRegA OR kVerifyRegBNewInstance),
    V 0x23 ''NEW_ARRAY'' ''new-array'' k22c kIndexTypeRef (kContinue OR kThrow) kClobber (kVerifyRegA OR kVerifyRegB OR kVerifyRegCNewArray),
    V 0x24 ''FILLED_NEW_ARRAY'' ''filled-new-array'' k35c kIndexTypeRef (kContinue OR kThrow) kClobber (kVerifyRegBType OR kVerifyVarArg),
    V 0x25 ''FILLED_NEW_ARRAY_RANGE'' ''filled-new-array/range'' k3rc kIndexTypeRef (kContinue OR kThrow) kClobber (kVerifyRegBType OR kVerifyVarArgRange),
    V 0x26 ''FILL_ARRAY_DATA'' ''fill-array-data'' k31t kIndexNone (kContinue OR kThrow) kClobber (kVerifyRegA OR kVerifyArrayData),
    V 0x27 ''THROW'' ''throw'' k11x kIndexNone kThrow 0 kVerifyRegA,
    V 0x28 ''GOTO'' ''goto'' k10t kIndexNone (kBranch OR kUnconditional) 0 kVerifyBranchTarget,
    V 0x29 ''GOTO_16'' ''goto/16'' k20t kIndexNone (kBranch OR kUnconditional) 0 kVerifyBranchTarget,
    V 0x2A ''GOTO_32'' ''goto/32'' k30t kIndexNone (kBranch OR kUnconditional) 0 kVerifyBranchTarget,
    V 0x2B ''PACKED_SWITCH'' ''packed-switch'' k31t kIndexNone (kContinue OR kSwitch) 0 (kVerifyRegA OR kVerifySwitchTargets),
    V 0x2C ''SPARSE_SWITCH'' ''sparse-switch'' k31t kIndexNone (kContinue OR kSwitch) 0 (kVerifyRegA OR kVerifySwitchTargets),
    V 0x2D ''CMPL_FLOAT'' ''cmpl-float'' k23x kIndexNone kContinue 0 (kVerifyRegA OR kVerifyRegB OR kVerifyRegC),
    V 0x2E ''CMPG_FLOAT'' ''cmpg-float'' k23x kIndexNone kContinue 0 (kVerifyRegA OR kVerifyRegB OR kVerifyRegC),
    V 0x2F ''CMPL_DOUBLE'' ''cmpl-double'' k23x kIndexNone kContinue 0 (kVerifyRegA OR kVerifyRegBWide OR kVerifyRegCWide),
    V 0x30 ''CMPG_DOUBLE'' ''cmpg-double'' k23x kIndexNone kContinue 0 (kVerifyRegA OR kVerifyRegBWide OR kVerifyRegCWide),
    V 0x31 ''CMP_LONG'' ''cmp-long'' k23x kIndexNone kContinue 0 (kVerifyRegA OR kVerifyRegBWide OR kVerifyRegCWide),
    V 0x32 ''IF_EQ'' ''if-eq'' k22t kIndexNone (kContinue OR kBranch) 0 (kVerifyRegA OR kVerifyRegB OR kVerifyBranchTarget),
    V 0x33 ''IF_NE'' ''if-ne'' k22t kIndexNone (kContinue OR kBranch) 0 (kVerifyRegA OR kVerifyRegB OR kVerifyBranchTarget),
    V 0x34 ''IF_LT'' ''if-lt'' k22t kIndexNone (kContinue OR kBranch) 0 (kVerifyRegA OR kVerifyRegB OR kVerifyBranchTarget),
    V 0x35 ''IF_GE'' ''if-ge'' k22t kIndexNone (kContinue OR kBranch) 0 (kVerifyRegA OR kVerifyRegB OR kVerifyBranchTarget),
    V 0x36 ''IF_GT'' ''if-gt'' k22t kIndexNone (kContinue OR kBranch) 0 (kVerifyRegA OR kVerifyRegB OR kVerifyBranchTarget),
    V 0x37 ''IF_LE'' ''if-le'' k22t kIndexNone (kContinue OR kBranch) 0 (kVerifyRegA OR kVerifyRegB OR kVerifyBranchTarget),
    V 0x38 ''IF_EQZ'' ''if-eqz'' k21t kIndexNone (kContinue OR kBranch) 0 (kVerifyRegA OR kVerifyBranchTarget),
    V 0x39 ''IF_NEZ'' ''if-nez'' k21t kIndexNone (kContinue OR kBranch) 0 (kVerifyRegA OR kVerifyBranchTarget),
    V 0x3A ''IF_LTZ'' ''if-ltz'' k21t kIndexNone (kContinue OR kBranch) 0 (kVerifyRegA OR kVerifyBranchTarget),
    V 0x3B ''IF_GEZ'' ''if-gez'' k21t kIndexNone (kContinue OR kBranch) 0 (kVerifyRegA OR kVerifyBranchTarget),
    V 0x3C ''IF_GTZ'' ''if-gtz'' k21t kIndexNone (kContinue OR kBranch) 0 (kVerifyRegA OR kVerifyBranchTarget),
    V 0x3D ''IF_LEZ'' ''if-lez'' k21t kIndexNone (kContinue OR kBranch) 0 (kVerifyRegA OR kVerifyBranchTarget),
    V 0x3E ''UNUSED_3E'' ''unused-3e'' k10x kIndexUnknown 0 0 kVerifyError,
    V 0x3F ''UNUSED_3F'' ''unused-3f'' k10x kIndexUnknown 0 0 kVerifyError,
    V 0x40 ''UNUSED_40'' ''unused-40'' k10x kIndexUnknown 0 0 kVerifyError,
    V 0x41 ''UNUSED_41'' ''unused-41'' k10x kIndexUnknown 0 0 kVerifyError,
    V 0x42 ''UNUSED_42'' ''unused-42'' k10x kIndexUnknown 0 0 kVerifyError,
    V 0x43 ''UNUSED_43'' ''unused-43'' k10x kIndexUnknown 0 0 kVerifyError,
    V 0x44 ''AGET'' ''aget'' k23x kIndexNone (kContinue OR kThrow) kLoad (kVerifyRegA OR kVerifyRegB OR kVerifyRegC),
    V 0x45 ''AGET_WIDE'' ''aget-wide'' k23x kIndexNone (kContinue OR kThrow) kLoad (kVerifyRegAWide OR kVerifyRegB OR kVerifyRegC),
    V 0x46 ''AGET_OBJECT'' ''aget-object'' k23x kIndexNone (kContinue OR kThrow) kLoad (kVerifyRegA OR kVerifyRegB OR kVerifyRegC),
    V 0x47 ''AGET_BOOLEAN'' ''aget-boolean'' k23x kIndexNone (kContinue OR kThrow) kLoad (kVerifyRegA OR kVerifyRegB OR kVerifyRegC),
    V 0x48 ''AGET_BYTE'' ''aget-byte'' k23x kIndexNone (kContinue OR kThrow) kLoad (kVerifyRegA OR kVerifyRegB OR kVerifyRegC),
    V 0x49 ''AGET_CHAR'' ''aget-char'' k23x kIndexNone (kContinue OR kThrow) kLoad (kVerifyRegA OR kVerifyRegB OR kVerifyRegC),
    V 0x4A ''AGET_SHORT'' ''aget-short'' k23x kIndexNone (kContinue OR kThrow) kLoad (kVerifyRegA OR kVerifyRegB OR kVerifyRegC),
    V 0x4B ''APUT'' ''aput'' k23x kIndexNone (kContinue OR kThrow) kStore (kVerifyRegA OR kVerifyRegB OR kVerifyRegC),
    V 0x4C ''APUT_WIDE'' ''aput-wide'' k23x kIndexNone (kContinue OR kThrow) kStore (kVerifyRegAWide OR kVerifyRegB OR kVerifyRegC),
    V 0x4D ''APUT_OBJECT'' ''aput-object'' k23x kIndexNone (kContinue OR kThrow) kStore (kVerifyRegA OR kVerifyRegB OR kVerifyRegC),
    V 0x4E ''APUT_BOOLEAN'' ''aput-boolean'' k23x kIndexNone (kContinue OR kThrow) kStore (kVerifyRegA OR kVerifyRegB OR kVerifyRegC),
    V 0x4F ''APUT_BYTE'' ''aput-byte'' k23x kIndexNone (kContinue OR kThrow) kStore (kVerifyRegA OR kVerifyRegB OR kVerifyRegC),
    V 0x50 ''APUT_CHAR'' ''aput-char'' k23x kIndexNone (kContinue OR kThrow) kStore (kVerifyRegA OR kVerifyRegB OR kVerifyRegC),
    V 0x51 ''APUT_SHORT'' ''aput-short'' k23x kIndexNone (kContinue OR kThrow) kStore (kVerifyRegA OR kVerifyRegB OR kVerifyRegC),
    V 0x52 ''IGET'' ''iget'' k22c kIndexFieldRef (kContinue OR kThrow) (kLoad OR kRegCFieldOrConstant) (kVerifyRegA OR kVerifyRegB OR kVerifyRegCField),
    V 0x53 ''IGET_WIDE'' ''iget-wide'' k22c kIndexFieldRef (kContinue OR kThrow) (kLoad OR kRegCFieldOrConstant) (kVerifyRegAWide OR kVerifyRegB OR kVerifyRegCField),
    V 0x54 ''IGET_OBJECT'' ''iget-object'' k22c kIndexFieldRef (kContinue OR kThrow) (kLoad OR kRegCFieldOrConstant) (kVerifyRegA OR kVerifyRegB OR kVerifyRegCField),
    V 0x55 ''IGET_BOOLEAN'' ''iget-boolean'' k22c kIndexFieldRef (kContinue OR kThrow) (kLoad OR kRegCFieldOrConstant) (kVerifyRegA OR kVerifyRegB OR kVerifyRegCField),
    V 0x56 ''IGET_BYTE'' ''iget-byte'' k22c kIndexFieldRef (kContinue OR kThrow) (kLoad OR kRegCFieldOrConstant) (kVerifyRegA OR kVerifyRegB OR kVerifyRegCField),
    V 0x57 ''IGET_CHAR'' ''iget-char'' k22c kIndexFieldRef (kContinue OR kThrow) (kLoad OR kRegCFieldOrConstant) (kVerifyRegA OR kVerifyRegB OR kVerifyRegCField),
    V 0x58 ''IGET_SHORT'' ''iget-short'' k22c kIndexFieldRef (kContinue OR kThrow) (kLoad OR kRegCFieldOrConstant) (kVerifyRegA OR kVerifyRegB OR kVerifyRegCField),
    V 0x59 ''IPUT'' ''iput'' k22c kIndexFieldRef (kContinue OR kThrow) (kStore OR kRegCFieldOrConstant) (kVerifyRegA OR kVerifyRegB OR kVerifyRegCField),
    V 0x5A ''IPUT_WIDE'' ''iput-wide'' k22c kIndexFieldRef (kContinue OR kThrow) (kStore OR kRegCFieldOrConstant) (kVerifyRegAWide OR kVerifyRegB OR kVerifyRegCField),
    V 0x5B ''IPUT_OBJECT'' ''iput-object'' k22c kIndexFieldRef (kContinue OR kThrow) (kStore OR kRegCFieldOrConstant) (kVerifyRegA OR kVerifyRegB OR kVerifyRegCField),
    V 0x5C ''IPUT_BOOLEAN'' ''iput-boolean'' k22c kIndexFieldRef (kContinue OR kThrow) (kStore OR kRegCFieldOrConstant) (kVerifyRegA OR kVerifyRegB OR kVerifyRegCField),
    V 0x5D ''IPUT_BYTE'' ''iput-byte'' k22c kIndexFieldRef (kContinue OR kThrow) (kStore OR kRegCFieldOrConstant) (kVerifyRegA OR kVerifyRegB OR kVerifyRegCField),
    V 0x5E ''IPUT_CHAR'' ''iput-char'' k22c kIndexFieldRef (kContinue OR kThrow) (kStore OR kRegCFieldOrConstant) (kVerifyRegA OR kVerifyRegB OR kVerifyRegCField),
    V 0x5F ''IPUT_SHORT'' ''iput-short'' k22c kIndexFieldRef (kContinue OR kThrow) (kStore OR kRegCFieldOrConstant) (kVerifyRegA OR kVerifyRegB OR kVerifyRegCField),
    V 0x60 ''SGET'' ''sget'' k21c kIndexFieldRef (kContinue OR kThrow) (kLoad OR kRegBFieldOrConstant) (kVerifyRegA OR kVerifyRegBField),
    V 0x61 ''SGET_WIDE'' ''sget-wide'' k21c kIndexFieldRef (kContinue OR kThrow) (kLoad OR kRegBFieldOrConstant) (kVerifyRegAWide OR kVerifyRegBField),
    V 0x62 ''SGET_OBJECT'' ''sget-object'' k21c kIndexFieldRef (kContinue OR kThrow) (kLoad OR kRegBFieldOrConstant) (kVerifyRegA OR kVerifyRegBField),
    V 0x63 ''SGET_BOOLEAN'' ''sget-boolean'' k21c kIndexFieldRef (kContinue OR kThrow) (kLoad OR kRegBFieldOrConstant) (kVerifyRegA OR kVerifyRegBField),
    V 0x64 ''SGET_BYTE'' ''sget-byte'' k21c kIndexFieldRef (kContinue OR kThrow) (kLoad OR kRegBFieldOrConstant) (kVerifyRegA OR kVerifyRegBField),
    V 0x65 ''SGET_CHAR'' ''sget-char'' k21c kIndexFieldRef (kContinue OR kThrow) (kLoad OR kRegBFieldOrConstant) (kVerifyRegA OR kVerifyRegBField),
    V 0x66 ''SGET_SHORT'' ''sget-short'' k21c kIndexFieldRef (kContinue OR kThrow) (kLoad OR kRegBFieldOrConstant) (kVerifyRegA OR kVerifyRegBField),
    V 0x67 ''SPUT'' ''sput'' k21c kIndexFieldRef (kContinue OR kThrow) (kStore OR kRegBFieldOrConstant) (kVerifyRegA OR kVerifyRegBField),
    V 0x68 ''SPUT_WIDE'' ''sput-wide'' k21c kIndexFieldRef (kContinue OR kThrow) (kStore OR kRegBFieldOrConstant) (kVerifyRegAWide OR kVerifyRegBField),
    V 0x69 ''SPUT_OBJECT'' ''sput-object'' k21c kIndexFieldRef (kContinue OR kThrow) (kStore OR kRegBFieldOrConstant) (kVerifyRegA OR kVerifyRegBField),
    V 0x6A ''SPUT_BOOLEAN'' ''sput-boolean'' k21c kIndexFieldRef (kContinue OR kThrow) (kStore OR kRegBFieldOrConstant) (kVerifyRegA OR kVerifyRegBField),
    V 0x6B ''SPUT_BYTE'' ''sput-byte'' k21c kIndexFieldRef (kContinue OR kThrow) (kStore OR kRegBFieldOrConstant) (kVerifyRegA OR kVerifyRegBField),
    V 0x6C ''SPUT_CHAR'' ''sput-char'' k21c kIndexFieldRef (kContinue OR kThrow) (kStore OR kRegBFieldOrConstant) (kVerifyRegA OR kVerifyRegBField),
    V 0x6D ''SPUT_SHORT'' ''sput-short'' k21c kIndexFieldRef (kContinue OR kThrow) (kStore OR kRegBFieldOrConstant) (kVerifyRegA OR kVerifyRegBField),
    V 0x6E ''INVOKE_VIRTUAL'' ''invoke-virtual'' k35c kIndexMethodRef (kContinue OR kThrow OR kInvoke) 0 (kVerifyRegBMethod OR kVerifyVarArgNonZero),
    V 0x6F ''INVOKE_SUPER'' ''invoke-super'' k35c kIndexMethodRef (kContinue OR kThrow OR kInvoke) 0 (kVerifyRegBMethod OR kVerifyVarArgNonZero),
    V 0x70 ''INVOKE_DIRECT'' ''invoke-direct'' k35c kIndexMethodRef (kContinue OR kThrow OR kInvoke) 0 (kVerifyRegBMethod OR kVerifyVarArgNonZero),
    V 0x71 ''INVOKE_STATIC'' ''invoke-static'' k35c kIndexMethodRef (kContinue OR kThrow OR kInvoke) 0 (kVerifyRegBMethod OR kVerifyVarArg),
    V 0x72 ''INVOKE_INTERFACE'' ''invoke-interface'' k35c kIndexMethodRef (kContinue OR kThrow OR kInvoke) 0 (kVerifyRegBMethod OR kVerifyVarArgNonZero),
    V 0x73 ''UNUSED_73'' ''unused-73'' k10x kIndexUnknown 0 0 kVerifyError,
    V 0x74 ''INVOKE_VIRTUAL_RANGE'' ''invoke-virtual/range'' k3rc kIndexMethodRef (kContinue OR kThrow OR kInvoke) 0 (kVerifyRegBMethod OR kVerifyVarArgRangeNonZero),
    V 0x75 ''INVOKE_SUPER_RANGE'' ''invoke-super/range'' k3rc kIndexMethodRef (kContinue OR kThrow OR kInvoke) 0 (kVerifyRegBMethod OR kVerifyVarArgRangeNonZero),
    V 0x76 ''INVOKE_DIRECT_RANGE'' ''invoke-direct/range'' k3rc kIndexMethodRef (kContinue OR kThrow OR kInvoke) 0 (kVerifyRegBMethod OR kVerifyVarArgRangeNonZero),
    V 0x77 ''INVOKE_STATIC_RANGE'' ''invoke-static/range'' k3rc kIndexMethodRef (kContinue OR kThrow OR kInvoke) 0 (kVerifyRegBMethod OR kVerifyVarArgRange),
    V 0x78 ''INVOKE_INTERFACE_RANGE'' ''invoke-interface/range'' k3rc kIndexMethodRef (kContinue OR kThrow OR kInvoke) 0 (kVerifyRegBMethod OR kVerifyVarArgRangeNonZero),
    V 0x79 ''UNUSED_79'' ''unused-79'' k10x kIndexUnknown 0 0 kVerifyError,
    V 0x7A ''UNUSED_7A'' ''unused-7a'' k10x kIndexUnknown 0 0 kVerifyError,
    V 0x7B ''NEG_INT'' ''neg-int'' k12x kIndexNone kContinue 0 (kVerifyRegA OR kVerifyRegB),
    V 0x7C ''NOT_INT'' ''not-int'' k12x kIndexNone kContinue 0 (kVerifyRegA OR kVerifyRegB),
    V 0x7D ''NEG_LONG'' ''neg-long'' k12x kIndexNone kContinue 0 (kVerifyRegAWide OR kVerifyRegBWide),
    V 0x7E ''NOT_LONG'' ''not-long'' k12x kIndexNone kContinue 0 (kVerifyRegAWide OR kVerifyRegBWide),
    V 0x7F ''NEG_FLOAT'' ''neg-float'' k12x kIndexNone kContinue 0 (kVerifyRegA OR kVerifyRegB)]"

definition DEX_INSTRUCTION_LIST_high :: "dex_entry list" where
  "DEX_INSTRUCTION_LIST_high = [
    V 0x80 ''NEG_DOUBLE'' ''neg-double'' k12x kIndexNone kContinue 0 (kVerifyRegAWide OR kVerifyRegBWide),
    V 0x81 ''INT_TO_LONG'' ''int-to-long'' k12x kIndexNone kContinue kCast (kVerifyRegAWide OR kVerifyRegB),
    V 0x82 ''INT_TO_FLOAT'' ''int-to-float'' k12x kIndexNone kContinue kCast (kVerifyRegA OR kVerifyRegB),
    V 0x83 ''INT_TO_DOUBLE'' ''int-to-double'' k12x kIndexNone kContinue kCast (kVerifyRegAWide OR kVerifyRegB),
    V 0x84 ''LONG_TO_INT'' ''long-to-int'' k12x kIndexNone kContinue kCast (kVerifyRegA OR kVerifyRegBWide),
    V 0x85 ''LONG_TO_FLOAT'' ''long-to-float'' k12x kIndexNone kContinue kCast (kVerifyRegA OR kVerifyRegBWide),
    V 0x86 ''LONG_TO_DOUBLE'' ''long-to-double'' k12x kIndexNone kContinue kCast (kVerifyRegAWide OR kVerifyRegBWide),
    V 0x87 ''FLOAT_TO_INT'' ''float-to-int'' k12x kIndexNone kContinue kCast (kVerifyRegA OR kVerifyRegB),
    V 0x88 ''FLOAT_TO_LONG'' ''float-to-long'' k12x kIndexNone kContinue kCast (kVerifyRegAWide OR kVerifyRegB),
    V 0x89 ''FLOAT_TO_DOUBLE'' ''float-to-double'' k12x kIndexNone kContinue kCast (kVerifyRegAWide OR kVerifyRegB),
    V 0x8A ''DOUBLE_TO_INT'' ''double-to-int'' k12x kIndexNone kContinue kCast (kVerifyRegA OR kVerifyRegBWide),
    V 0x8B ''DOUBLE_TO_LONG'' ''double-to-long'' k12x kIndexNone kContinue kCast (kVerifyRegAWide OR kVerifyRegBWide),
    V 0x8C ''DOUBLE_TO_FLOAT'' ''double-to-float'' k12x kIndexNone kContinue kCast (kVerifyRegA OR kVerifyRegBWide),
    V 0x8D ''INT_TO_BYTE'' ''int-to-byte'' k12x kIndexNone kContinue kCast (kVerifyRegA OR kVerifyRegB),
    V 0x8E ''INT_TO_CHAR'' ''int-to-char'' k12x kIndexNone kContinue kCast (kVerifyRegA OR kVerifyRegB),
    V 0x8F ''INT_TO_SHORT'' ''int-to-short'' k12x kIndexNone kContinue kCast (kVerifyRegA OR kVerifyRegB),
    V 0x90 ''ADD_INT'' ''add-int'' k23x kIndexNone kContinue kAdd (kVerifyRegA OR kVerifyRegB OR kVerifyRegC),
    V 0x91 ''SUB_INT'' ''sub-int'' k23x kIndexNone kContinue kSubtract (kVerifyRegA OR kVerifyRegB OR kVerifyRegC),
    V 0x92 ''MUL_INT'' ''mul-int'' k23x kIndexNone kContinue kMultiply (kVerifyRegA OR kVerifyRegB OR kVerifyRegC),
    V 0x93 ''DIV_INT'' ''div-int'' k23x kIndexNone (kContinue OR kThrow) kDivide (kVerifyRegA OR kVerifyRegB OR kVerifyRegC),
    V 0x94 ''REM_INT'' ''rem-int'' k23x kIndexNone (kContinue OR kThrow) kRemainder (kVerifyRegA OR kVerifyRegB OR kVerifyRegC),
    V 0x95 ''AND_INT'' ''and-int'' k23x kIndexNone kContinue kAnd (kVerifyRegA OR kVerifyRegB OR kVerifyRegC),
    V 0x96 ''OR_INT'' ''or-int'' k23x kIndexNone kContinue kOr (kVerifyRegA OR kVerifyRegB OR kVerifyRegC),
    V 0x97 ''XOR_INT'' ''xor-int'' k23x kIndexNone kContinue kXor (kVerifyRegA OR kVerifyRegB OR kVerifyRegC),
    V 0x98 ''SHL_INT'' ''shl-int'' k23x kIndexNone kContinue kShl (kVerifyRegA OR kVerifyRegB OR kVerifyRegC),
    V 0x99 ''SHR_INT'' ''shr-int'' k23x kIndexNone kContinue kShr (kVerifyRegA OR kVerifyRegB OR kVerifyRegC),
    V 0x9A ''USHR_INT'' ''ushr-int'' k23x kIndexNone kContinue kUshr (kVerifyRegA OR kVerifyRegB OR kVerifyRegC),
    V 0x9B ''ADD_LONG'' ''add-long'' k23x kIndexNone kContinue kAdd (kVerifyRegAWide OR kVerifyRegBWide OR kVerifyRegCWide),
    V 0x9C ''SUB_LONG'' ''sub-long'' k23x kIndexNone kContinue kSubtract (kVerifyRegAWide OR kVerifyRegBWide OR kVerifyRegCWide),
    V 0x9D ''MUL_LONG'' ''mul-long'' k23x kIndexNone kContinue kMultiply (kVerifyRegAWide OR kVerifyRegBWide OR kVerifyRegCWide),
    V 0x9E ''DIV_LONG'' ''div-long'' k23x kIndexNone (kContinue OR kThrow) kDivide (kVerifyRegAWide OR kVerifyRegBWide OR kVerifyRegCWide),
    V 0x9F ''REM_LONG'' ''rem-long'' k23x kIndexNone (kContinue OR kThrow) kRemainder (kVerifyRegAWide OR kVerifyRegBWide OR kVerifyRegCWide),
    V 0xA0 ''AND_LONG'' ''and-long'' k23x kIndexNone kContinue kAnd (kVerifyRegAWide OR kVerifyRegBWide OR kVerifyRegCWide),
    V 0xA1 ''OR_LONG'' ''or-long'' k23x kIndexNone kContinue kOr (kVerifyRegAWide OR kVerifyRegBWide OR kVerifyRegCWide),
    V 0xA2 ''XOR_LONG'' ''xor-long'' k23x kIndexNone kContinue kXor (kVerifyRegAWide OR kVerifyRegBWide OR kVerifyRegCWide),
    V 0xA3 ''SHL_LONG'' ''shl-long'' k23x kIndexNone kContinue kShl (kVerifyRegAWide OR kVerifyRegBWide OR kVerifyRegC),
    V 0xA4 ''SHR_LONG'' ''shr-long'' k23x kIndexNone kContinue kShr (kVerifyRegAWide OR kVerifyRegBWide OR kVerifyRegC),
    V 0xA5 ''USHR_LONG'' ''ushr-long'' k23x kIndexNone kContinue kUshr (kVerifyRegAWide OR kVerifyRegBWide OR kVerifyRegC),
    V 0xA6 ''ADD_FLOAT'' ''add-float'' k23x kIndexNone kContinue kAdd (kVerifyRegA OR kVerifyRegB OR kVerifyRegC),
    V 0xA7 ''SUB_FLOAT'' ''sub-float'' k23x kIndexNone kContinue kSubtract (kVerifyRegA OR kVerifyRegB OR kVerifyRegC),
    V 0xA8 ''MUL_FLOAT'' ''mul-float'' k23x kIndexNone kContinue kMultiply (kVerifyRegA OR kVerifyRegB OR kVerifyRegC),
    V 0xA9 ''DIV_FLOAT'' ''div-float'' k23x kIndexNone kContinue kDivide (kVerifyRegA OR kVerifyRegB OR kVerifyRegC),
    V 0xAA ''REM_FLOAT'' ''rem-float'' k23x kIndexNone kContinue kRemainder (kVerifyRegA OR kVerifyRegB OR kVerifyRegC),
    V 0xAB ''ADD_DOUBLE'' ''add-double'' k23x kIndexNone kContinue kAdd (kVerifyRegAWide OR kVerifyRegBWide OR kVerifyRegCWide),
    V 0xAC ''SUB_DOUBLE'' ''sub-double'' k23x kIndexNone kContinue kSubtract (kVerifyRegAWide OR kVerifyRegBWide OR kVerifyRegCWide),
    V 0xAD ''MUL_DOUBLE'' ''mul-double'' k23x kIndexNone kContinue kMultiply (kVerifyRegAWide OR kVerifyRegBWide OR kVerifyRegCWide),
    V 0xAE ''DIV_DOUBLE'' ''div-double'' k23x kIndexNone kContinue kDivide (kVerifyRegAWide OR kVerifyRegBWide OR kVerifyRegCWide),
    V 0xAF ''REM_DOUBLE'' ''rem-double'' k23x kIndexNone kContinue kRemainder (kVerifyRegAWide OR kVerifyRegBWide OR kVerifyRegCWide),
    V 0xB0 ''ADD_INT_2ADDR'' ''add-int/2addr'' k12x kIndexNone kContinue kAdd (kVerifyRegA OR kVerifyRegB),
    V 0xB1 ''SUB_INT_2ADDR'' ''sub-int/2addr'' k12x kIndexNone kContinue kSubtract (kVerifyRegA OR kVerifyRegB),
    V 0xB2 ''MUL_INT_2ADDR'' ''mul-int/2addr'' k12x kIndexNone kContinue kMultiply (kVerifyRegA OR kVerifyRegB),
    V 0xB3 ''DIV_INT_2ADDR'' ''div-int/2addr'' k12x kIndexNone (kContinue OR kThrow) kDivide (kVerifyRegA OR kVerifyRegB),
    V 0xB4 ''REM_INT_2ADDR'' ''rem-int/2addr'' k12x kIndexNone (kContinue OR kThrow) kRemainder (kVerifyRegA OR kVerifyRegB),
    V 0xB5 ''AND_INT_2ADDR'' ''and-int/2addr'' k12x kIndexNone kContinue kAnd (kVerifyRegA OR kVerifyRegB),
    V 0xB6 ''OR_INT_2ADDR'' ''or-int/2addr'' k12x kIndexNone kContinue kOr (kVerifyRegA OR kVerifyRegB),
    V 0xB7 ''XOR_INT_2ADDR'' ''xor-int/2addr'' k12x kIndexNone kContinue kXor (kVerifyRegA OR kVerifyRegB),
    V 0xB8 ''SHL_INT_2ADDR'' ''shl-int/2addr'' k12x kIndexNone kContinue kShl (kVerifyRegA OR kVerifyRegB),
    V 0xB9 ''SHR_INT_2ADDR'' ''shr-int/2addr'' k12x kIndexNone kContinue kShr (kVerifyRegA OR kVerifyRegB),
    V 0xBA ''USHR_INT_2ADDR'' ''ushr-int/2addr'' k12x kIndexNone kContinue kUshr (kVerifyRegA OR kVerifyRegB),
    V 0xBB ''ADD_LONG_2ADDR'' ''add-long/2addr'' k12x kIndexNone kContinue kAdd (kVerifyRegAWide OR kVerifyRegBWide),
    V 0xBC ''SUB_LONG_2ADDR'' ''sub-long/2addr'' k12x kIndexNone kContinue kSubtract (kVerifyRegAWide OR kVerifyRegBWide),
    V 0xBD ''MUL_LONG_2ADDR'' ''mul-long/2addr'' k12x kIndexNone kContinue kMultiply (kVerifyRegAWide OR kVerifyRegBWide),
    V 0xBE ''DIV_LONG_2ADDR'' ''div-long/2addr'' k12x kIndexNone (kContinue OR kThrow) kDivide (kVerifyRegAWide OR kVerifyRegBWide),
    V 0xBF ''REM_LONG_2ADDR'' ''rem-long/2addr'' k12x kIndexNone (kContinue OR kThrow) kRemainder (kVerifyRegAWide OR kVerifyRegBWide),
    V 0xC0 ''AND_LONG_2ADDR'' ''and-long/2addr'' k12x kIndexNone kContinue kAnd (kVerifyRegAWide OR kVerifyRegBWide),
    V 0xC1 ''OR_LONG_2ADDR'' ''or-long/2addr'' k12x kIndexNone kContinue kOr (kVerifyRegAWide OR kVerifyRegBWide),
    V 0xC2 ''XOR_LONG_2ADDR'' ''xor-long/2addr'' k12x kIndexNone kContinue kXor (kVerifyRegAWide OR kVerifyRegBWide),
    V 0xC3 ''SHL_LONG_2ADDR'' ''shl-long/2addr'' k12x kIndexNone kContinue kShl (kVerifyRegAWide OR kVerifyRegB),
    V 0xC4 ''SHR_LONG_2ADDR'' ''shr-long/2addr'' k12x kIndexNone kContinue kShr (kVerifyRegAWide OR kVerifyRegB),
    V 0xC5 ''USHR_LONG_2ADDR'' ''ushr-long/2addr'' k12x kIndexNone kContinue kUshr (kVerifyRegAWide OR kVerifyRegB),
    V 0xC6 ''ADD_FLOAT_2ADDR'' ''add-float/2addr'' k12x kIndexNone kContinue kAdd (kVerifyRegA OR kVerifyRegB),
    V 0xC7 ''SUB_FLOAT_2ADDR'' ''sub-float/2addr'' k12x kIndexNone kContinue kSubtract (kVerifyRegA OR kVerifyRegB),
    V 0xC8 ''MUL_FLOAT_2ADDR'' ''mul-float/2addr'' k12x kIndexNone kContinue kMultiply (kVerifyRegA OR kVerifyRegB),
    V 0xC9 ''DIV_FLOAT_2ADDR'' ''div-float/2addr'' k12x kIndexNone kContinue kDivide (kVerifyRegA OR kVerifyRegB),
    V 0xCA ''REM_FLOAT_2ADDR'' ''rem-float/2addr'' k12x kIndexNone kContinue kRemainder (kVerifyRegA OR kVerifyRegB),
    V 0xCB ''ADD_DOUBLE_2ADDR'' ''add-double/2addr'' k12x kIndexNone kContinue kAdd (kVerifyRegAWide OR kVerifyRegBWide),
    V 0xCC ''SUB_DOUBLE_2ADDR'' ''sub-double/2addr'' k12x kIndexNone kContinue kSubtract (kVerifyRegAWide OR kVerifyRegBWide),
    V 0xCD ''MUL_DOUBLE_2ADDR'' ''mul-double/2addr'' k12x kIndexNone kContinue kMultiply (kVerifyRegAWide OR kVerifyRegBWide),
    V 0xCE ''DIV_DOUBLE_2ADDR'' ''div-double/2addr'' k12x kIndexNone kContinue kDivide (kVerifyRegAWide OR kVerifyRegBWide),
    V 0xCF ''REM_DOUBLE_2ADDR'' ''rem-double/2addr'' k12x kIndexNone kContinue kRemainder (kVerifyRegAWide OR kVerifyRegBWide),
    V 0xD0 ''ADD_INT_LIT16'' ''add-int/lit16'' k22s kIndexNone kContinue (kAdd OR kRegCFieldOrConstant) (kVerifyRegA OR kVerifyRegB),
    V 0xD1 ''RSUB_INT'' ''rsub-int'' k22s kIndexNone kContinue (kSubtract OR kRegCFieldOrConstant) (kVerifyRegA OR kVerifyRegB),
    V 0xD2 ''MUL_INT_LIT16'' ''mul-int/lit16'' k22s kIndexNone kContinue (kMultiply OR kRegCFieldOrConstant) (kVerifyRegA OR kVerifyRegB),
    V 0xD3 ''DIV_INT_LIT16'' ''div-int/lit16'' k22s kIndexNone (kContinue OR kThrow) (kDivide OR kRegCFieldOrConstant) (kVerifyRegA OR kVerifyRegB),
    V 0xD4 ''REM_INT_LIT16'' ''rem-int/lit16'' k22s kIndexNone (kContinue OR kThrow) (kRemainder OR kRegCFieldOrConstant) (kVerifyRegA OR kVerifyRegB),
    V 0xD5 ''AND_INT_LIT16'' ''and-int/lit16'' k22s kIndexNone kContinue (kAnd OR kRegCFieldOrConstant) (kVerifyRegA OR kVerifyRegB),
    V 0xD6 ''OR_INT_LIT16'' ''or-int/lit16'' k22s kIndexNone kContinue (kOr OR kRegCFieldOrConstant) (kVerifyRegA OR kVerifyRegB),
    V 0xD7 ''XOR_INT_LIT16'' ''xor-int/lit16'' k22s kIndexNone kContinue (kXor OR kRegCFieldOrConstant) (kVerifyRegA OR kVerifyRegB),
    V 0xD8 ''ADD_INT_LIT8'' ''add-int/lit8'' k22b kIndexNone kContinue (kAdd OR kRegCFieldOrConstant) (kVerifyRegA OR kVerifyRegB),
    V 0xD9 ''RSUB_INT_LIT8'' ''rsub-int/lit8'' k22b kIndexNone kContinue (kSubtract OR kRegCFieldOrConstant) (kVerifyRegA OR kVerifyRegB),
    V 0xDA ''MUL_INT_LIT8'' ''mul-int/lit8'' k22b kIndexNone kContinue (kMultiply OR kRegCFieldOrConstant) (kVerifyRegA OR kVerifyRegB),
    V 0xDB ''DIV_INT_LIT8'' ''div-int/lit8'' k22b kIndexNone (kContinue OR kThrow) (kDivide OR kRegCFieldOrConstant) (kVerifyRegA OR kVerifyRegB),
    V 0xDC ''REM_INT_LIT8'' ''rem-int/lit8'' k22b kIndexNone (kContinue OR kThrow) (kRemainder OR kRegCFieldOrConstant) (kVerifyRegA OR kVerifyRegB),
    V 0xDD ''AND_INT_LIT8'' ''and-int/lit8'' k22b kIndexNone kContinue (kAnd OR kRegCFieldOrConstant) (kVerifyRegA OR kVerifyRegB),
    V 0xDE ''OR_INT_LIT8'' ''or-int/lit8'' k22b kIndexNone kContinue (kOr OR kRegCFieldOrConstant) (kVerifyRegA OR kVerifyRegB),
    V 0xDF ''XOR_INT_LIT8'' ''xor-int/lit8'' k22b kIndexNone kContinue (kXor OR kRegCFieldOrConstant) (kVerifyRegA OR kVerifyRegB),
    V 0xE0 ''SHL_INT_LIT8'' ''shl-int/lit8'' k22b kIndexNone kContinue (kShl OR kRegCFieldOrConstant) (kVerifyRegA OR kVerifyRegB),
    V 0xE1 ''SHR_INT_LIT8'' ''shr-int/lit8'' k22b kIndexNone kContinue (kShr OR kRegCFieldOrConstant) (kVerifyRegA OR kVerifyRegB),
    V 0xE2 ''USHR_INT_LIT8'' ''ushr-int/lit8'' k22b kIndexNone kContinue (kUshr OR kRegCFieldOrConstant) (kVerifyRegA OR kVerifyRegB),
    V 0xE3 ''UNUSED_E3'' ''unused-e3'' k10x kIndexUnknown 0 0 kVerifyError,
    V 0xE4 ''UNUSED_E4'' ''unused-e4'' k10x kIndexUnknown 0 0 kVerifyError,
    V 0xE5 ''UNUSED_E5'' ''unused-e5'' k10x kIndexUnknown 0 0 kVerifyError,
    V 0xE6 ''UNUSED_E6'' ''unused-e6'' k10x kIndexUnknown 0 0 kVerifyError,
    V 0xE7 ''UNUSED_E7'' ''unused-e7'' k10x kIndexUnknown 0 0 kVerifyError,
    V 0xE8 ''UNUSED_E8'' ''unused-e8'' k10x kIndexUnknown 0 0 kVerifyError,
    V 0xE9 ''UNUSED_E9'' ''unused-e9'' k10x kIndexUnknown 0 0 kVerifyError,
    V 0xEA ''UNUSED_EA'' ''unused-ea'' k10x kIndexUnknown 0 0 kVerifyError,
    V 0xEB ''UNUSED_EB'' ''unused-eb'' k10x kIndexUnknown 0 0 kVerifyError,
    V 0xEC ''UNUSED_EC'' ''unused-ec'' k10x kIndexUnknown 0 0 kVerifyError,
    V 0xED ''UNUSED_ED'' ''unused-ed'' k10x kIndexUnknown 0 0 kVerifyError,
    V 0xEE ''UNUSED_EE'' ''unused-ee'' k10x kIndexUnknown 0 0 kVerifyError,
    V 0xEF ''UNUSED_EF'' ''unused-ef'' k10x kIndexUnknown 0 0 kVerifyError,
    V 0xF0 ''UNUSED_F0'' ''unused-f0'' k10x kIndexUnknown 0 0 kVerifyError,
    V 0xF1 ''UNUSED_F1'' ''unused-f1'' k10x kIndexUnknown 0 0 kVerifyError,
    V 0xF2 ''UNUSED_F2'' ''unused-f2'' k10x kIndexUnknown 0 0 kVerifyError,
    V 0xF3 ''UNUSED_F3'' ''unused-f3'' k10x kIndexUnknown 0 0 kVerifyError,
    V 0xF4 ''UNUSED_F4'' ''unused-f4'' k10x kIndexUnknown 0 0 kVerifyError,
    V 0xF5 ''UNUSED_F5'' ''unused-f5'' k10x kIndexUnknown 0 0 kVerifyError,
    V 0xF6 ''UNUSED_F6'' ''unused-f6'' k10x kIndexUnknown 0 0 kVerifyError,
    V 0xF7 ''UNUSED_F7'' ''unused-f7'' k10x kIndexUnknown 0 0 kVerifyError,
    V 0xF8 ''UNUSED_F8'' ''unused-f8'' k10x kIndexUnknown 0 0 kVerifyError,
    V 0xF9 ''UNUSED_F9'' ''unused-f9'' k10x kIndexUnknown 0 0 kVerifyError,
    V 0xFA ''INVOKE_POLYMORPHIC'' ''invoke-polymorphic'' k45cc kIndexMethodAndProtoRef (kContinue OR kThrow OR kInvoke) 0 (kVerifyRegBMethod OR kVerifyVarArgNonZero OR kVerifyRegHPrototype),
    V 0xFB ''INVOKE_POLYMORPHIC_RANGE'' ''invoke-polymorphic/range'' k4rcc kIndexMethodAndProtoRef (kContinue OR kThrow OR kInvoke) 0 (kVerifyRegBMethod OR kVerifyVarArgRangeNonZero OR kVerifyRegHPrototype),
    V 0xFC ''INVOKE_CUSTOM'' ''invoke-custom'' k35c kIndexCallSiteRef (kContinue OR kThrow) 0 (kVerifyRegBCallSite OR kVerifyVarArg),
    V 0xFD ''INVOKE_CUSTOM_RANGE'' ''invoke-custom/range'' k3rc kIndexCallSiteRef (kContinue OR kThrow) 0 (kVerifyRegBCallSite OR kVerifyVarArgRange),
    V 0xFE ''CONST_METHOD_HANDLE'' ''const-method-handle'' k21c kIndexMethodHandleRef (kContinue OR kThrow) 0 (kVerifyRegA OR kVerifyRegBMethodHandle),
    V 0xFF ''CONST_METHOD_TYPE'' ''const-method-type'' k21c kIndexProtoRef (kContinue OR kThrow) 0 (kVerifyRegA OR kVerifyRegBPrototype)]"

definition DEX_INSTRUCTION_LIST :: "dex_entry list" where
  "DEX_INSTRUCTION_LIST = DEX_INSTRUCTION_LIST_low @ DEX_INSTRUCTION_LIST_high"

subsection \<open>Descriptors and names\<close>

record InstructionDescriptor =
  verify_flags :: u32
  format :: Format
  index_type :: IndexType
  flags :: u8
  size_in_code_units :: int

definition NOP :: u8 where [dex_flags]: "NOP = 0x00"

definition InstructionSizeInCodeUnitsByOpcode :: "u8 \<Rightarrow> Format \<Rightarrow> int" where
  "InstructionSizeInCodeUnitsByOpcode opcode fmt =
     (if opcode = NOP then - 1
      else if Format_index fmt \<ge> Format_index k10x \<and> Format_index fmt \<le> Format_index k10t then 1
      else if Format_index fmt \<ge> Format_index k20t \<and> Format_index fmt \<le> Format_index k22c then 2
      else if Format_index fmt \<ge> Format_index k32x \<and> Format_index fmt \<le> Format_index k3rc then 3
      else if Format_index fmt \<ge> Format_index k45cc \<and> Format_index fmt \<le> Format_index k4rcc then 4
      else if fmt = k51l then 5
      else - 1)"

primrec INSTRUCTION_DESCR :: "dex_entry \<Rightarrow> InstructionDescriptor" where
  "INSTRUCTION_DESCR (V opcode c p fmt index fl eflags vflags) =
     \<lparr>verify_flags = vflags, format = fmt, index_type = index, flags = fl,
      size_in_code_units = InstructionSizeInCodeUnitsByOpcode opcode fmt\<rparr>"

primrec INSTRUCTION_NAME :: "dex_entry \<Rightarrow> string" where
  "INSTRUCTION_NAME (V opcode c pname fmt index fl eflags vflags) = pname"

primrec INSTRUCTION_ENUM :: "dex_entry \<Rightarrow> string \<times> u8" where
  "INSTRUCTION_ENUM (V opcode cname p fmt index fl eflags vflags) = (cname, opcode)"

definition kInstructionDescriptors :: "InstructionDescriptor list" where
  "kInstructionDescriptors = map INSTRUCTION_DESCR DEX_INSTRUCTION_LIST"

definition kInstructionNames :: "string list" where
  "kInstructionNames = map INSTRUCTION_NAME DEX_INSTRUCTION_LIST"

definition FormatOf :: "u8 \<Rightarrow> Format" where
  "FormatOf opcode = format (kInstructionDescriptors ! unat opcode)"

definition IndexTypeOf :: "u8 \<Rightarrow> IndexType" where
  "IndexTypeOf opcode = index_type (kInstructionDescriptors ! unat opcode)"

definition FlagsOf :: "u8 \<Rightarrow> u8" where
  "FlagsOf opcode = flags (kInstructionDescriptors ! unat opcode)"

definition VerifyFlagsOf :: "u8 \<Rightarrow> u32" where
  "VerifyFlagsOf opcode = verify_flags (kInstructionDescriptors ! unat opcode)"

definition Name :: "u8 \<Rightarrow> string" where
  "Name opcode = kInstructionNames ! unat opcode"

lemma length_list: "length DEX_INSTRUCTION_LIST_low = 128" "length DEX_INSTRUCTION_LIST_high = 128"
  by (simp_all add: DEX_INSTRUCTION_LIST_low_def DEX_INSTRUCTION_LIST_high_def)

lemma length_descriptors: "length kInstructionDescriptors = 256" "length kInstructionNames = 256"
  by (simp_all add: kInstructionDescriptors_def kInstructionNames_def DEX_INSTRUCTION_LIST_def length_list)

subsection \<open>Facts about all opcodes\<close>

lemma entry_opcodes: "map (snd \<circ> INSTRUCTION_ENUM) DEX_INSTRUCTION_LIST = map of_nat [0..<256]"
proof -
  have l: "map (snd \<circ> INSTRUCTION_ENUM) DEX_INSTRUCTION_LIST_low = map of_nat [0..<128]"
    by (simp add: DEX_INSTRUCTION_LIST_low_def upt_rec)
  have h: "map (snd \<circ> INSTRUCTION_ENUM) DEX_INSTRUCTION_LIST_high = map of_nat [128..<256]"
    by (simp add: DEX_INSTRUCTION_LIST_high_def upt_rec)
  have "[0..<256] = [0..<128] @ [128..<256]" using upt_add_eq_append [of 0 128 128] by simp
  then show ?thesis by (simp add: DEX_INSTRUCTION_LIST_def l h)
qed

text \<open>
  A fact about every entry of the list is a fact about the entry, and so about the descriptor and the
  name, of every opcode.
\<close>

lemma all_entries:
  assumes "list_all (\<lambda>e. P (snd (INSTRUCTION_ENUM e)) e) DEX_INSTRUCTION_LIST_low"
    "list_all (\<lambda>e. P (snd (INSTRUCTION_ENUM e)) e) DEX_INSTRUCTION_LIST_high"
  shows "P op (DEX_INSTRUCTION_LIST ! unat op)"
proof -
  have n: "unat op < length DEX_INSTRUCTION_LIST"
    using unsigned_less [of op, where ?'a = nat] by (simp add: DEX_INSTRUCTION_LIST_def length_list)
  have "list_all (\<lambda>e. P (snd (INSTRUCTION_ENUM e)) e) DEX_INSTRUCTION_LIST"
    using assms by (simp add: DEX_INSTRUCTION_LIST_def)
  then have p: "P (snd (INSTRUCTION_ENUM (DEX_INSTRUCTION_LIST ! unat op))) (DEX_INSTRUCTION_LIST ! unat op)"
    using n by (simp add: list_all_length)
  have "(snd \<circ> INSTRUCTION_ENUM) (DEX_INSTRUCTION_LIST ! unat op) = map of_nat [0..<256] ! unat op"
    using n by (simp flip: entry_opcodes)
  also have "\<dots> = op" using unsigned_less [of op, where ?'a = nat] by simp
  finally show ?thesis using p by simp
qed

lemma opcode_less: "unat (op :: u8) < length DEX_INSTRUCTION_LIST"
  using unsigned_less [of op, where ?'a = nat] by (simp add: DEX_INSTRUCTION_LIST_def length_list)

lemma all_opcodes:
  assumes "list_all (\<lambda>e. P (snd (INSTRUCTION_ENUM e)) (INSTRUCTION_DESCR e)) DEX_INSTRUCTION_LIST_low"
    "list_all (\<lambda>e. P (snd (INSTRUCTION_ENUM e)) (INSTRUCTION_DESCR e)) DEX_INSTRUCTION_LIST_high"
  shows "P op (kInstructionDescriptors ! unat op)"
  using all_entries [of "\<lambda>op e. P op (INSTRUCTION_DESCR e)", OF assms] opcode_less [of op]
  by (simp add: kInstructionDescriptors_def)

lemma all_names:
  assumes "list_all (\<lambda>e. P (snd (INSTRUCTION_ENUM e)) (INSTRUCTION_NAME e)) DEX_INSTRUCTION_LIST_low"
    "list_all (\<lambda>e. P (snd (INSTRUCTION_ENUM e)) (INSTRUCTION_NAME e)) DEX_INSTRUCTION_LIST_high"
  shows "P op (Name op)"
  using all_entries [of "\<lambda>op e. P op (INSTRUCTION_NAME e)", OF assms] opcode_less [of op]
  by (simp add: Name_def kInstructionNames_def)

end
