(* ===== verification/Dex_Instruction.thy ===== *)
theory Dex_Instruction
  imports Dex_Instruction_List "HOL-Library.Monad_Syntax"
begin

text \<open>
  Decoding of Dalvik instructions: the accessors of \<^verbatim>\<open>libdexfile/dex/dex_instruction.h\<close>,
  \<^verbatim>\<open>dex_instruction-inl.h\<close> and \<^verbatim>\<open>dex_instruction.cc\<close>, the opcode groups of
  \<^verbatim>\<open>dex_instruction_utils.h\<close> and the iterators of \<^verbatim>\<open>dex_instruction_iterator.h\<close>.
\<close>

unbundle bit_operations_syntax

subsection \<open>Opcodes by name\<close>

text \<open>The opcodes that the code refers to by name.\<close>

definition MOVE_RESULT :: u8 where [dex_flags]: "MOVE_RESULT = 0x0A"
definition MOVE_RESULT_WIDE :: u8 where [dex_flags]: "MOVE_RESULT_WIDE = 0x0B"
definition MOVE_RESULT_OBJECT :: u8 where [dex_flags]: "MOVE_RESULT_OBJECT = 0x0C"
definition MOVE_EXCEPTION :: u8 where [dex_flags]: "MOVE_EXCEPTION = 0x0D"
definition RETURN_VOID :: u8 where [dex_flags]: "RETURN_VOID = 0x0E"
definition RETURN_OBJECT :: u8 where [dex_flags]: "RETURN_OBJECT = 0x11"
definition CONST_4 :: u8 where [dex_flags]: "CONST_4 = 0x12"
definition CONST_WIDE_16 :: u8 where [dex_flags]: "CONST_WIDE_16 = 0x16"
definition CONST_WIDE_HIGH16 :: u8 where [dex_flags]: "CONST_WIDE_HIGH16 = 0x19"
definition CHECK_CAST :: u8 where [dex_flags]: "CHECK_CAST = 0x1F"
definition FILL_ARRAY_DATA :: u8 where [dex_flags]: "FILL_ARRAY_DATA = 0x26"
definition THROW :: u8 where [dex_flags]: "THROW = 0x27"
definition GOTO :: u8 where [dex_flags]: "GOTO = 0x28"
definition GOTO_16 :: u8 where [dex_flags]: "GOTO_16 = 0x29"
definition GOTO_32 :: u8 where [dex_flags]: "GOTO_32 = 0x2A"
definition PACKED_SWITCH :: u8 where [dex_flags]: "PACKED_SWITCH = 0x2B"
definition SPARSE_SWITCH :: u8 where [dex_flags]: "SPARSE_SWITCH = 0x2C"
definition IF_EQ :: u8 where [dex_flags]: "IF_EQ = 0x32"
definition IF_NE :: u8 where [dex_flags]: "IF_NE = 0x33"
definition IF_LT :: u8 where [dex_flags]: "IF_LT = 0x34"
definition IF_GE :: u8 where [dex_flags]: "IF_GE = 0x35"
definition IF_GT :: u8 where [dex_flags]: "IF_GT = 0x36"
definition IF_LE :: u8 where [dex_flags]: "IF_LE = 0x37"
definition IF_EQZ :: u8 where [dex_flags]: "IF_EQZ = 0x38"
definition IF_NEZ :: u8 where [dex_flags]: "IF_NEZ = 0x39"
definition IF_LTZ :: u8 where [dex_flags]: "IF_LTZ = 0x3A"
definition IF_GEZ :: u8 where [dex_flags]: "IF_GEZ = 0x3B"
definition IF_GTZ :: u8 where [dex_flags]: "IF_GTZ = 0x3C"
definition IF_LEZ :: u8 where [dex_flags]: "IF_LEZ = 0x3D"
definition AGET :: u8 where [dex_flags]: "AGET = 0x44"
definition AGET_SHORT :: u8 where [dex_flags]: "AGET_SHORT = 0x4A"
definition APUT :: u8 where [dex_flags]: "APUT = 0x4B"
definition APUT_SHORT :: u8 where [dex_flags]: "APUT_SHORT = 0x51"
definition IGET :: u8 where [dex_flags]: "IGET = 0x52"
definition IGET_SHORT :: u8 where [dex_flags]: "IGET_SHORT = 0x58"
definition IPUT :: u8 where [dex_flags]: "IPUT = 0x59"
definition IPUT_SHORT :: u8 where [dex_flags]: "IPUT_SHORT = 0x5F"
definition SGET :: u8 where [dex_flags]: "SGET = 0x60"
definition SGET_SHORT :: u8 where [dex_flags]: "SGET_SHORT = 0x66"
definition SPUT :: u8 where [dex_flags]: "SPUT = 0x67"
definition SPUT_SHORT :: u8 where [dex_flags]: "SPUT_SHORT = 0x6D"
definition INVOKE_VIRTUAL :: u8 where [dex_flags]: "INVOKE_VIRTUAL = 0x6E"
definition INVOKE_STATIC :: u8 where [dex_flags]: "INVOKE_STATIC = 0x71"
definition UNUSED_73 :: u8 where [dex_flags]: "UNUSED_73 = 0x73"
definition INVOKE_VIRTUAL_RANGE :: u8 where [dex_flags]: "INVOKE_VIRTUAL_RANGE = 0x74"
definition INVOKE_STATIC_RANGE :: u8 where [dex_flags]: "INVOKE_STATIC_RANGE = 0x77"
definition INVOKE_INTERFACE_RANGE :: u8 where [dex_flags]: "INVOKE_INTERFACE_RANGE = 0x78"
definition ADD_INT_2ADDR :: u8 where [dex_flags]: "ADD_INT_2ADDR = 0xB0"
definition REM_DOUBLE_2ADDR :: u8 where [dex_flags]: "REM_DOUBLE_2ADDR = 0xCF"
definition INVOKE_CUSTOM :: u8 where [dex_flags]: "INVOKE_CUSTOM = 0xFC"
definition CONST_METHOD_HANDLE :: u8 where [dex_flags]: "CONST_METHOD_HANDLE = 0xFE"
definition CONST_METHOD_TYPE :: u8 where [dex_flags]: "CONST_METHOD_TYPE = 0xFF"

definition opcode_constants :: "(string \<times> u8) list" where
  "opcode_constants = [
    (''NOP'', NOP),
    (''MOVE_RESULT'', MOVE_RESULT),
    (''MOVE_RESULT_WIDE'', MOVE_RESULT_WIDE),
    (''MOVE_RESULT_OBJECT'', MOVE_RESULT_OBJECT),
    (''MOVE_EXCEPTION'', MOVE_EXCEPTION),
    (''RETURN_VOID'', RETURN_VOID),
    (''RETURN_OBJECT'', RETURN_OBJECT),
    (''CONST_4'', CONST_4),
    (''CONST_WIDE_16'', CONST_WIDE_16),
    (''CONST_WIDE_HIGH16'', CONST_WIDE_HIGH16),
    (''CHECK_CAST'', CHECK_CAST),
    (''FILL_ARRAY_DATA'', FILL_ARRAY_DATA),
    (''THROW'', THROW),
    (''GOTO'', GOTO),
    (''GOTO_16'', GOTO_16),
    (''GOTO_32'', GOTO_32),
    (''PACKED_SWITCH'', PACKED_SWITCH),
    (''SPARSE_SWITCH'', SPARSE_SWITCH),
    (''IF_EQ'', IF_EQ),
    (''IF_NE'', IF_NE),
    (''IF_LT'', IF_LT),
    (''IF_GE'', IF_GE),
    (''IF_GT'', IF_GT),
    (''IF_LE'', IF_LE),
    (''IF_EQZ'', IF_EQZ),
    (''IF_NEZ'', IF_NEZ),
    (''IF_LTZ'', IF_LTZ),
    (''IF_GEZ'', IF_GEZ),
    (''IF_GTZ'', IF_GTZ),
    (''IF_LEZ'', IF_LEZ),
    (''AGET'', AGET),
    (''AGET_SHORT'', AGET_SHORT),
    (''APUT'', APUT),
    (''APUT_SHORT'', APUT_SHORT),
    (''IGET'', IGET),
    (''IGET_SHORT'', IGET_SHORT),
    (''IPUT'', IPUT),
    (''IPUT_SHORT'', IPUT_SHORT),
    (''SGET'', SGET),
    (''SGET_SHORT'', SGET_SHORT),
    (''SPUT'', SPUT),
    (''SPUT_SHORT'', SPUT_SHORT),
    (''INVOKE_VIRTUAL'', INVOKE_VIRTUAL),
    (''INVOKE_STATIC'', INVOKE_STATIC),
    (''UNUSED_73'', UNUSED_73),
    (''INVOKE_VIRTUAL_RANGE'', INVOKE_VIRTUAL_RANGE),
    (''INVOKE_STATIC_RANGE'', INVOKE_STATIC_RANGE),
    (''INVOKE_INTERFACE_RANGE'', INVOKE_INTERFACE_RANGE),
    (''ADD_INT_2ADDR'', ADD_INT_2ADDR),
    (''REM_DOUBLE_2ADDR'', REM_DOUBLE_2ADDR),
    (''INVOKE_CUSTOM'', INVOKE_CUSTOM),
    (''CONST_METHOD_HANDLE'', CONST_METHOD_HANDLE),
    (''CONST_METHOD_TYPE'', CONST_METHOD_TYPE)]"

subsection \<open>Code units\<close>

text \<open>
  An instruction pointer is the list of the code units from the instruction to the end of the code
  item.  Reading past that end is undefined behaviour and is \<^term>\<open>None\<close>, and so is an access that ends
  in \<^verbatim>\<open>LOG(FATAL)\<close>.  Members that only inspect the opcode of the instruction take the opcode.
\<close>

definition Fetch16 :: "u16 list \<Rightarrow> nat \<Rightarrow> u16 option" where
  "Fetch16 inst offset = (if offset < length inst then Some (inst ! offset) else None)"

definition Fetch32 :: "u16 list \<Rightarrow> nat \<Rightarrow> u32 option" where
  "Fetch32 inst offset =
     do { lo \<leftarrow> Fetch16 inst offset; hi \<leftarrow> Fetch16 inst (offset + 1); Some (ucast lo OR push_bit 16 (ucast hi)) }"

definition InstA :: "u16 \<Rightarrow> u8" where
  "InstA inst_data = ucast (drop_bit 8 inst_data AND 0x0f)"

definition InstB :: "u16 \<Rightarrow> u8" where
  "InstB inst_data = ucast (drop_bit 12 inst_data)"

definition InstAA :: "u16 \<Rightarrow> u8" where
  "InstAA inst_data = ucast (drop_bit 8 inst_data)"

definition Opcode :: "u16 \<Rightarrow> u8" where
  "Opcode inst_data = ucast (inst_data AND 0xFF)"

definition SetOpcode :: "u8 \<Rightarrow> u16 list \<Rightarrow> u16 list option" where
  "SetOpcode opcode insns =
     do { w \<leftarrow> Fetch16 insns 0; Some (insns[0 := (w AND 0xff00) OR ucast opcode]) }"

definition SetVRegA_10x :: "u8 \<Rightarrow> u16 list \<Rightarrow> u16 list option" where
  "SetVRegA_10x val insns =
     do { w \<leftarrow> Fetch16 insns 0; Some (insns[0 := push_bit 8 (ucast val) OR (w AND 0x00ff)]) }"

definition SetVRegB_3rc :: "u16 \<Rightarrow> u16 list \<Rightarrow> u16 list option" where
  "SetVRegB_3rc val insns = wr insns 1 val"

definition SetVRegB_35c :: "u16 \<Rightarrow> u16 list \<Rightarrow> u16 list option" where
  "SetVRegB_35c val insns = wr insns 1 val"

definition SetVRegC_22c :: "u16 \<Rightarrow> u16 list \<Rightarrow> u16 list option" where
  "SetVRegC_22c val insns = wr insns 1 val"

definition SetVRegA_21c :: "u8 \<Rightarrow> u16 list \<Rightarrow> u16 list option" where
  "SetVRegA_21c val insns =
     do { w \<leftarrow> Fetch16 insns 0; Some (insns[0 := push_bit 8 (ucast val) OR (w AND 0x00ff)]) }"

definition SetVRegB_21c :: "u16 \<Rightarrow> u16 list \<Rightarrow> u16 list option" where
  "SetVRegB_21c val insns = wr insns 1 val"

subsection \<open>Sizes\<close>

definition SizeInCodeUnits_format :: "Format \<Rightarrow> nat" where
  "SizeInCodeUnits_format fmt = (case fmt of
       k10x \<Rightarrow> 1 | k12x \<Rightarrow> 1 | k11n \<Rightarrow> 1 | k11x \<Rightarrow> 1 | k10t \<Rightarrow> 1
     | k20t \<Rightarrow> 2 | k22x \<Rightarrow> 2 | k21t \<Rightarrow> 2 | k21s \<Rightarrow> 2 | k21h \<Rightarrow> 2 | k21c \<Rightarrow> 2
     | k23x \<Rightarrow> 2 | k22b \<Rightarrow> 2 | k22t \<Rightarrow> 2 | k22s \<Rightarrow> 2 | k22c \<Rightarrow> 2
     | k32x \<Rightarrow> 3 | k30t \<Rightarrow> 3 | k31t \<Rightarrow> 3 | k31i \<Rightarrow> 3 | k31c \<Rightarrow> 3 | k35c \<Rightarrow> 3 | k3rc \<Rightarrow> 3
     | k45cc \<Rightarrow> 4 | k4rcc \<Rightarrow> 4
     | k51l \<Rightarrow> 5
     | kInvalidFormat \<Rightarrow> 0)"

text \<open>The size of a payload table; the product of the element size and count is a 32-bit product.\<close>

definition SizeInCodeUnitsComplexOpcode :: "u16 list \<Rightarrow> nat option" where
  "SizeInCodeUnitsComplexOpcode insns =
     do {
       ident \<leftarrow> Fetch16 insns 0;
       if ident = kPackedSwitchSignature then do { n \<leftarrow> Fetch16 insns 1; Some (4 + unat n * 2) }
       else if ident = kSparseSwitchSignature then do { n \<leftarrow> Fetch16 insns 1; Some (2 + unat n * 4) }
       else if ident = kArrayDataSignature then do {
         element_size \<leftarrow> Fetch16 insns 1;
         len \<leftarrow> Fetch32 insns 2;
         Some (unat (4 + (ucast element_size * len + 1) div 2 :: u32)) }
       else if ident AND 0xFF = 0 then Some 1
       else None }"

definition SizeInCodeUnits :: "u16 list \<Rightarrow> nat option" where
  "SizeInCodeUnits inst =
     do {
       inst_data \<leftarrow> Fetch16 inst 0;
       let result = size_in_code_units (kInstructionDescriptors ! unat (Opcode inst_data)) in
       if result < 0 then SizeInCodeUnitsComplexOpcode inst else Some (nat result) }"

definition CodeUnitsRequiredForSizeOfComplexOpcode :: "u16 list \<Rightarrow> nat option" where
  "CodeUnitsRequiredForSizeOfComplexOpcode insns =
     do {
       ident \<leftarrow> Fetch16 insns 0;
       if ident = kPackedSwitchSignature \<or> ident = kSparseSwitchSignature then Some 2
       else if ident = kArrayDataSignature then Some 4
       else if ident AND 0xFF = 0 then Some 1
       else None }"

definition CodeUnitsRequiredForSizeComputation :: "u16 list \<Rightarrow> nat option" where
  "CodeUnitsRequiredForSizeComputation inst =
     do {
       inst_data \<leftarrow> Fetch16 inst 0;
       let result = size_in_code_units (kInstructionDescriptors ! unat (Opcode inst_data)) in
       if result < 0 then CodeUnitsRequiredForSizeOfComplexOpcode inst else Some 1 }"

text \<open>Advancing the instruction pointer.\<close>

definition RelativeAt :: "nat \<Rightarrow> u16 list \<Rightarrow> u16 list" where
  "RelativeAt offset inst = drop offset inst"

definition Next :: "u16 list \<Rightarrow> u16 list option" where
  "Next inst = do { n \<leftarrow> SizeInCodeUnits inst; Some (RelativeAt n inst) }"

definition Next_1xx :: "u16 list \<Rightarrow> u16 list" where "Next_1xx inst = RelativeAt 1 inst"

definition Next_2xx :: "u16 list \<Rightarrow> u16 list" where "Next_2xx inst = RelativeAt 2 inst"

definition Next_3xx :: "u16 list \<Rightarrow> u16 list" where "Next_3xx inst = RelativeAt 3 inst"

definition Next_4xx :: "u16 list \<Rightarrow> u16 list" where "Next_4xx inst = RelativeAt 4 inst"

definition Next_51l :: "u16 list \<Rightarrow> u16 list" where "Next_51l inst = RelativeAt 5 inst"

subsection \<open>Operand vA\<close>

definition HasVRegA :: "u8 \<Rightarrow> bool" where
  "HasVRegA opcode = (case FormatOf opcode of
       k10t \<Rightarrow> True
     | k10x \<Rightarrow> True
     | k11n \<Rightarrow> True
     | k11x \<Rightarrow> True
     | k12x \<Rightarrow> True
     | k20t \<Rightarrow> True
     | k21c \<Rightarrow> True
     | k21h \<Rightarrow> True
     | k21s \<Rightarrow> True
     | k21t \<Rightarrow> True
     | k22b \<Rightarrow> True
     | k22c \<Rightarrow> True
     | k22s \<Rightarrow> True
     | k22t \<Rightarrow> True
     | k22x \<Rightarrow> True
     | k23x \<Rightarrow> True
     | k30t \<Rightarrow> True
     | k31c \<Rightarrow> True
     | k31i \<Rightarrow> True
     | k31t \<Rightarrow> True
     | k32x \<Rightarrow> True
     | k35c \<Rightarrow> True
     | k3rc \<Rightarrow> True
     | k45cc \<Rightarrow> True
     | k4rcc \<Rightarrow> True
     | k51l \<Rightarrow> True
     | _ \<Rightarrow> False)"

definition VRegA_10t :: "u16 \<Rightarrow> int" where
  "VRegA_10t inst_data = sint (InstAA inst_data)"

definition VRegA_10x :: "u16 \<Rightarrow> u8" where
  "VRegA_10x inst_data = InstAA inst_data"

definition VRegA_11n :: "u16 \<Rightarrow> u8" where
  "VRegA_11n inst_data = InstA inst_data"

definition VRegA_11x :: "u16 \<Rightarrow> u8" where
  "VRegA_11x inst_data = InstAA inst_data"

definition VRegA_12x :: "u16 \<Rightarrow> u8" where
  "VRegA_12x inst_data = InstA inst_data"

definition VRegA_20t :: "u16 list \<Rightarrow> int option" where
  "VRegA_20t inst = do { w \<leftarrow> Fetch16 inst 1; Some (sint w) }"

definition VRegA_21c :: "u16 \<Rightarrow> u8" where
  "VRegA_21c inst_data = InstAA inst_data"

definition VRegA_21h :: "u16 \<Rightarrow> u8" where
  "VRegA_21h inst_data = InstAA inst_data"

definition VRegA_21s :: "u16 \<Rightarrow> u8" where
  "VRegA_21s inst_data = InstAA inst_data"

definition VRegA_21t :: "u16 \<Rightarrow> u8" where
  "VRegA_21t inst_data = InstAA inst_data"

definition VRegA_22b :: "u16 \<Rightarrow> u8" where
  "VRegA_22b inst_data = InstAA inst_data"

definition VRegA_22c :: "u16 \<Rightarrow> u8" where
  "VRegA_22c inst_data = InstA inst_data"

definition VRegA_22s :: "u16 \<Rightarrow> u8" where
  "VRegA_22s inst_data = InstA inst_data"

definition VRegA_22t :: "u16 \<Rightarrow> u8" where
  "VRegA_22t inst_data = InstA inst_data"

definition VRegA_22x :: "u16 \<Rightarrow> u8" where
  "VRegA_22x inst_data = InstAA inst_data"

definition VRegA_23x :: "u16 \<Rightarrow> u8" where
  "VRegA_23x inst_data = InstAA inst_data"

definition VRegA_30t :: "u16 list \<Rightarrow> int option" where
  "VRegA_30t inst = do { w \<leftarrow> Fetch32 inst 1; Some (sint w) }"

definition VRegA_31c :: "u16 \<Rightarrow> u8" where
  "VRegA_31c inst_data = InstAA inst_data"

definition VRegA_31i :: "u16 \<Rightarrow> u8" where
  "VRegA_31i inst_data = InstAA inst_data"

definition VRegA_31t :: "u16 \<Rightarrow> u8" where
  "VRegA_31t inst_data = InstAA inst_data"

definition VRegA_32x :: "u16 list \<Rightarrow> u16 option" where
  "VRegA_32x inst = Fetch16 inst 1"

definition VRegA_35c :: "u16 \<Rightarrow> u8" where
  "VRegA_35c inst_data = InstB inst_data"

definition VRegA_3rc :: "u16 \<Rightarrow> u8" where
  "VRegA_3rc inst_data = InstAA inst_data"

definition VRegA_51l :: "u16 \<Rightarrow> u8" where
  "VRegA_51l inst_data = InstAA inst_data"

definition VRegA_45cc :: "u16 \<Rightarrow> u8" where
  "VRegA_45cc inst_data = InstB inst_data"

definition VRegA_4rcc :: "u16 \<Rightarrow> u8" where
  "VRegA_4rcc inst_data = InstAA inst_data"

definition VRegA_of :: "Format \<Rightarrow> u16 list \<Rightarrow> u16 \<Rightarrow> int option" where
  "VRegA_of fmt inst inst_data = (case fmt of
       k10t \<Rightarrow> Some (VRegA_10t inst_data)
     | k10x \<Rightarrow> Some (uint (VRegA_10x inst_data))
     | k11n \<Rightarrow> Some (uint (VRegA_11n inst_data))
     | k11x \<Rightarrow> Some (uint (VRegA_11x inst_data))
     | k12x \<Rightarrow> Some (uint (VRegA_12x inst_data))
     | k20t \<Rightarrow> VRegA_20t inst
     | k21c \<Rightarrow> Some (uint (VRegA_21c inst_data))
     | k21h \<Rightarrow> Some (uint (VRegA_21h inst_data))
     | k21s \<Rightarrow> Some (uint (VRegA_21s inst_data))
     | k21t \<Rightarrow> Some (uint (VRegA_21t inst_data))
     | k22b \<Rightarrow> Some (uint (VRegA_22b inst_data))
     | k22c \<Rightarrow> Some (uint (VRegA_22c inst_data))
     | k22s \<Rightarrow> Some (uint (VRegA_22s inst_data))
     | k22t \<Rightarrow> Some (uint (VRegA_22t inst_data))
     | k22x \<Rightarrow> Some (uint (VRegA_22x inst_data))
     | k23x \<Rightarrow> Some (uint (VRegA_23x inst_data))
     | k30t \<Rightarrow> VRegA_30t inst
     | k31c \<Rightarrow> Some (uint (VRegA_31c inst_data))
     | k31i \<Rightarrow> Some (uint (VRegA_31i inst_data))
     | k31t \<Rightarrow> Some (uint (VRegA_31t inst_data))
     | k32x \<Rightarrow> map_option uint (VRegA_32x inst)
     | k35c \<Rightarrow> Some (uint (VRegA_35c inst_data))
     | k3rc \<Rightarrow> Some (uint (VRegA_3rc inst_data))
     | k45cc \<Rightarrow> Some (uint (VRegA_45cc inst_data))
     | k4rcc \<Rightarrow> Some (uint (VRegA_4rcc inst_data))
     | k51l \<Rightarrow> Some (uint (VRegA_51l inst_data))
     | _ \<Rightarrow> None)"

definition VRegA :: "u16 list \<Rightarrow> int option" where
  "VRegA inst = do { inst_data \<leftarrow> Fetch16 inst 0; VRegA_of (FormatOf (Opcode inst_data)) inst inst_data }"

subsection \<open>Operand vB\<close>

definition HasVRegB :: "u8 \<Rightarrow> bool" where
  "HasVRegB opcode = (case FormatOf opcode of
       k11n \<Rightarrow> True
     | k12x \<Rightarrow> True
     | k21c \<Rightarrow> True
     | k21h \<Rightarrow> True
     | k21s \<Rightarrow> True
     | k21t \<Rightarrow> True
     | k22b \<Rightarrow> True
     | k22c \<Rightarrow> True
     | k22s \<Rightarrow> True
     | k22t \<Rightarrow> True
     | k22x \<Rightarrow> True
     | k23x \<Rightarrow> True
     | k31c \<Rightarrow> True
     | k31i \<Rightarrow> True
     | k31t \<Rightarrow> True
     | k32x \<Rightarrow> True
     | k35c \<Rightarrow> True
     | k3rc \<Rightarrow> True
     | k45cc \<Rightarrow> True
     | k4rcc \<Rightarrow> True
     | k51l \<Rightarrow> True
     | _ \<Rightarrow> False)"

definition HasWideVRegB :: "u8 \<Rightarrow> bool" where
  "HasWideVRegB opcode \<longleftrightarrow> FormatOf opcode = k51l"

definition VRegB_11n :: "u16 \<Rightarrow> int" where
  "VRegB_11n inst_data = sint (ucast (signed_drop_bit 28 (push_bit 28 (ucast (InstB inst_data)) :: u32)) :: u8)"

definition VRegB_12x :: "u16 \<Rightarrow> u8" where
  "VRegB_12x inst_data = InstB inst_data"

definition VRegB_21c :: "u16 list \<Rightarrow> u16 option" where
  "VRegB_21c inst = Fetch16 inst 1"

definition VRegB_21h :: "u16 list \<Rightarrow> u16 option" where
  "VRegB_21h inst = Fetch16 inst 1"

definition VRegB_21s :: "u16 list \<Rightarrow> int option" where
  "VRegB_21s inst = do { w \<leftarrow> Fetch16 inst 1; Some (sint w) }"

definition VRegB_21t :: "u16 list \<Rightarrow> int option" where
  "VRegB_21t inst = do { w \<leftarrow> Fetch16 inst 1; Some (sint w) }"

definition VRegB_22b :: "u16 list \<Rightarrow> u8 option" where
  "VRegB_22b inst = do { w \<leftarrow> Fetch16 inst 1; Some (ucast (w AND 0xff)) }"

definition VRegB_22c :: "u16 \<Rightarrow> u8" where
  "VRegB_22c inst_data = InstB inst_data"

definition VRegB_22s :: "u16 \<Rightarrow> u8" where
  "VRegB_22s inst_data = InstB inst_data"

definition VRegB_22t :: "u16 \<Rightarrow> u8" where
  "VRegB_22t inst_data = InstB inst_data"

definition VRegB_22x :: "u16 list \<Rightarrow> u16 option" where
  "VRegB_22x inst = Fetch16 inst 1"

definition VRegB_23x :: "u16 list \<Rightarrow> u8 option" where
  "VRegB_23x inst = do { w \<leftarrow> Fetch16 inst 1; Some (ucast (w AND 0xff)) }"

definition VRegB_31c :: "u16 list \<Rightarrow> u32 option" where
  "VRegB_31c inst = Fetch32 inst 1"

definition VRegB_31i :: "u16 list \<Rightarrow> int option" where
  "VRegB_31i inst = do { w \<leftarrow> Fetch32 inst 1; Some (sint w) }"

definition VRegB_31t :: "u16 list \<Rightarrow> int option" where
  "VRegB_31t inst = do { w \<leftarrow> Fetch32 inst 1; Some (sint w) }"

definition VRegB_32x :: "u16 list \<Rightarrow> u16 option" where
  "VRegB_32x inst = Fetch16 inst 2"

definition VRegB_35c :: "u16 list \<Rightarrow> u16 option" where
  "VRegB_35c inst = Fetch16 inst 1"

definition VRegB_3rc :: "u16 list \<Rightarrow> u16 option" where
  "VRegB_3rc inst = Fetch16 inst 1"

definition VRegB_45cc :: "u16 list \<Rightarrow> u16 option" where
  "VRegB_45cc inst = Fetch16 inst 1"

definition VRegB_4rcc :: "u16 list \<Rightarrow> u16 option" where
  "VRegB_4rcc inst = Fetch16 inst 1"

definition VRegB_51l :: "u16 list \<Rightarrow> u64 option" where
  "VRegB_51l inst = do { lo \<leftarrow> Fetch32 inst 1; hi \<leftarrow> Fetch32 inst 3; Some (ucast lo OR push_bit 32 (ucast hi)) }"

definition VRegB_of :: "Format \<Rightarrow> u16 list \<Rightarrow> u16 \<Rightarrow> int option" where
  "VRegB_of fmt inst inst_data = (case fmt of
       k11n \<Rightarrow> Some (VRegB_11n inst_data)
     | k12x \<Rightarrow> Some (uint (VRegB_12x inst_data))
     | k21c \<Rightarrow> map_option uint (VRegB_21c inst)
     | k21h \<Rightarrow> map_option uint (VRegB_21h inst)
     | k21s \<Rightarrow> VRegB_21s inst
     | k21t \<Rightarrow> VRegB_21t inst
     | k22b \<Rightarrow> map_option uint (VRegB_22b inst)
     | k22c \<Rightarrow> Some (uint (VRegB_22c inst_data))
     | k22s \<Rightarrow> Some (uint (VRegB_22s inst_data))
     | k22t \<Rightarrow> Some (uint (VRegB_22t inst_data))
     | k22x \<Rightarrow> map_option uint (VRegB_22x inst)
     | k23x \<Rightarrow> map_option uint (VRegB_23x inst)
     | k31c \<Rightarrow> map_option sint (VRegB_31c inst)
     | k31i \<Rightarrow> VRegB_31i inst
     | k31t \<Rightarrow> VRegB_31t inst
     | k32x \<Rightarrow> map_option uint (VRegB_32x inst)
     | k35c \<Rightarrow> map_option uint (VRegB_35c inst)
     | k3rc \<Rightarrow> map_option uint (VRegB_3rc inst)
     | k45cc \<Rightarrow> map_option uint (VRegB_45cc inst)
     | k4rcc \<Rightarrow> map_option uint (VRegB_4rcc inst)
     | k51l \<Rightarrow> map_option (\<lambda>v. sint (ucast v :: u32)) (VRegB_51l inst)
     | _ \<Rightarrow> None)"

definition VRegB :: "u16 list \<Rightarrow> int option" where
  "VRegB inst = do { inst_data \<leftarrow> Fetch16 inst 0; VRegB_of (FormatOf (Opcode inst_data)) inst inst_data }"

definition WideVRegB :: "u16 list \<Rightarrow> u64 option" where
  "WideVRegB inst = VRegB_51l inst"

subsection \<open>Operand vC\<close>

definition HasVRegC :: "u8 \<Rightarrow> bool" where
  "HasVRegC opcode = (case FormatOf opcode of
       k22b \<Rightarrow> True
     | k22c \<Rightarrow> True
     | k22s \<Rightarrow> True
     | k22t \<Rightarrow> True
     | k23x \<Rightarrow> True
     | k35c \<Rightarrow> True
     | k3rc \<Rightarrow> True
     | k45cc \<Rightarrow> True
     | k4rcc \<Rightarrow> True
     | _ \<Rightarrow> False)"

definition VRegC_22b :: "u16 list \<Rightarrow> int option" where
  "VRegC_22b inst = do { w \<leftarrow> Fetch16 inst 1; Some (sint (ucast (drop_bit 8 w) :: u8)) }"

definition VRegC_22c :: "u16 list \<Rightarrow> u16 option" where
  "VRegC_22c inst = Fetch16 inst 1"

definition VRegC_22s :: "u16 list \<Rightarrow> int option" where
  "VRegC_22s inst = do { w \<leftarrow> Fetch16 inst 1; Some (sint w) }"

definition VRegC_22t :: "u16 list \<Rightarrow> int option" where
  "VRegC_22t inst = do { w \<leftarrow> Fetch16 inst 1; Some (sint w) }"

definition VRegC_23x :: "u16 list \<Rightarrow> u8 option" where
  "VRegC_23x inst = do { w \<leftarrow> Fetch16 inst 1; Some (ucast (drop_bit 8 w)) }"

definition VRegC_35c :: "u16 list \<Rightarrow> u8 option" where
  "VRegC_35c inst = do { w \<leftarrow> Fetch16 inst 2; Some (ucast (w AND 0x0f)) }"

definition VRegC_3rc :: "u16 list \<Rightarrow> u16 option" where
  "VRegC_3rc inst = Fetch16 inst 2"

definition VRegC_45cc :: "u16 list \<Rightarrow> u8 option" where
  "VRegC_45cc inst = do { w \<leftarrow> Fetch16 inst 2; Some (ucast (w AND 0x0f)) }"

definition VRegC_4rcc :: "u16 list \<Rightarrow> u16 option" where
  "VRegC_4rcc inst = Fetch16 inst 2"

definition VRegC_of :: "Format \<Rightarrow> u16 list \<Rightarrow> int option" where
  "VRegC_of fmt inst = (case fmt of
       k22b \<Rightarrow> VRegC_22b inst
     | k22c \<Rightarrow> map_option uint (VRegC_22c inst)
     | k22s \<Rightarrow> VRegC_22s inst
     | k22t \<Rightarrow> VRegC_22t inst
     | k23x \<Rightarrow> map_option uint (VRegC_23x inst)
     | k35c \<Rightarrow> map_option uint (VRegC_35c inst)
     | k3rc \<Rightarrow> map_option uint (VRegC_3rc inst)
     | k45cc \<Rightarrow> map_option uint (VRegC_45cc inst)
     | k4rcc \<Rightarrow> map_option uint (VRegC_4rcc inst)
     | _ \<Rightarrow> None)"

definition VRegC :: "u16 list \<Rightarrow> int option" where
  "VRegC inst = do { inst_data \<leftarrow> Fetch16 inst 0; VRegC_of (FormatOf (Opcode inst_data)) inst }"

subsection \<open>Operand vH\<close>

definition HasVRegH :: "u8 \<Rightarrow> bool" where
  "HasVRegH opcode = (case FormatOf opcode of
       k45cc \<Rightarrow> True
     | k4rcc \<Rightarrow> True
     | _ \<Rightarrow> False)"

definition VRegH_45cc :: "u16 list \<Rightarrow> u16 option" where
  "VRegH_45cc inst = Fetch16 inst 3"

definition VRegH_4rcc :: "u16 list \<Rightarrow> u16 option" where
  "VRegH_4rcc inst = Fetch16 inst 3"

definition VRegH_of :: "Format \<Rightarrow> u16 list \<Rightarrow> int option" where
  "VRegH_of fmt inst = (case fmt of
       k45cc \<Rightarrow> map_option uint (VRegH_45cc inst)
     | k4rcc \<Rightarrow> map_option uint (VRegH_4rcc inst)
     | _ \<Rightarrow> None)"

definition VRegH :: "u16 list \<Rightarrow> int option" where
  "VRegH inst = do { inst_data \<leftarrow> Fetch16 inst 0; VRegH_of (FormatOf (Opcode inst_data)) inst }"

subsection \<open>Variable arguments and branch offsets\<close>

definition HasVarArgs :: "u8 \<Rightarrow> bool" where
  "HasVarArgs opcode \<longleftrightarrow> FormatOf opcode = k35c \<or> FormatOf opcode = k45cc"

text \<open>The caller's array of five registers is passed in and returned updated.\<close>

definition GetVarArgs :: "u16 list \<Rightarrow> u32 list \<Rightarrow> u16 \<Rightarrow> (nat \<times> u32 list) option" where
  "GetVarArgs inst arg inst_data =
     do {
       regList \<leftarrow> Fetch16 inst 2;
       let count = unat (InstB inst_data);
           arg = (if count = 5 then arg[4 := ucast (InstA inst_data)] else arg);
           arg = (if 4 \<le> count \<and> count \<le> 5 then arg[3 := ucast (drop_bit 12 regList AND 0x0f)] else arg);
           arg = (if 3 \<le> count \<and> count \<le> 5 then arg[2 := ucast (drop_bit 8 regList AND 0x0f)] else arg);
           arg = (if 2 \<le> count \<and> count \<le> 5 then arg[1 := ucast (drop_bit 4 regList AND 0x0f)] else arg);
           arg = (if 1 \<le> count \<and> count \<le> 5 then arg[0 := ucast (regList AND 0x0f)] else arg)
       in Some (count, arg) }"

definition GetTargetOffset :: "u16 list \<Rightarrow> int option" where
  "GetTargetOffset inst =
     do {
       inst_data \<leftarrow> Fetch16 inst 0;
       (case FormatOf (Opcode inst_data) of
          k22t \<Rightarrow> VRegC_22t inst
        | k21t \<Rightarrow> VRegB_21t inst
        | k10t \<Rightarrow> Some (VRegA_10t inst_data)
        | k20t \<Rightarrow> VRegA_20t inst
        | k30t \<Rightarrow> VRegA_30t inst
        | _ \<Rightarrow> None) }"

definition CanFlowThrough :: "u16 list \<Rightarrow> bool option" where
  "CanFlowThrough insns = do { insn \<leftarrow> Fetch16 insns 0; Some (FlagsOf (ucast (insn AND 0xFF)) AND kContinue \<noteq> 0) }"

subsection \<open>Predicates on opcodes\<close>

definition IsBranch :: "u8 \<Rightarrow> bool" where
  "IsBranch opcode \<longleftrightarrow> flags (kInstructionDescriptors ! unat opcode) AND kBranch \<noteq> 0"

definition IsUnconditional :: "u8 \<Rightarrow> bool" where
  "IsUnconditional opcode \<longleftrightarrow> flags (kInstructionDescriptors ! unat opcode) AND kUnconditional \<noteq> 0"

definition IsQuickened :: "u8 \<Rightarrow> bool" where
  "IsQuickened opcode \<longleftrightarrow> index_type (kInstructionDescriptors ! unat opcode) = kIndexFieldOffset \<or>
     index_type (kInstructionDescriptors ! unat opcode) = kIndexVtableOffset"

definition IsSwitch :: "u8 \<Rightarrow> bool" where
  "IsSwitch opcode \<longleftrightarrow> flags (kInstructionDescriptors ! unat opcode) AND kSwitch \<noteq> 0"

definition IsThrow :: "u8 \<Rightarrow> bool" where
  "IsThrow opcode \<longleftrightarrow> flags (kInstructionDescriptors ! unat opcode) AND kThrow \<noteq> 0"

definition IsReturn :: "u8 \<Rightarrow> bool" where
  "IsReturn opcode \<longleftrightarrow> flags (kInstructionDescriptors ! unat opcode) AND kReturn \<noteq> 0"

definition IsBasicBlockEnd :: "u8 \<Rightarrow> bool" where
  "IsBasicBlockEnd opcode \<longleftrightarrow> IsBranch opcode \<or> IsReturn opcode \<or> opcode = THROW"

definition IsInvoke :: "u8 \<Rightarrow> bool" where
  "IsInvoke opcode \<longleftrightarrow> flags (kInstructionDescriptors ! unat opcode) AND kInvoke \<noteq> 0"

definition IsExperimental :: "u8 \<Rightarrow> bool" where
  "IsExperimental opcode \<longleftrightarrow> flags (kInstructionDescriptors ! unat opcode) AND kExperimental \<noteq> 0"

definition GetVerifyTypeArgumentA :: "u8 \<Rightarrow> u32" where
  "GetVerifyTypeArgumentA opcode = verify_flags (kInstructionDescriptors ! unat opcode) AND (kVerifyRegA OR kVerifyRegAWide)"

definition GetVerifyTypeArgumentB :: "u8 \<Rightarrow> u32" where
  "GetVerifyTypeArgumentB opcode = verify_flags (kInstructionDescriptors ! unat opcode) AND
     (kVerifyRegB OR kVerifyRegBField OR kVerifyRegBMethod OR kVerifyRegBNewInstance OR kVerifyRegBString
      OR kVerifyRegBType OR kVerifyRegBWide)"

definition GetVerifyTypeArgumentC :: "u8 \<Rightarrow> u32" where
  "GetVerifyTypeArgumentC opcode = verify_flags (kInstructionDescriptors ! unat opcode) AND
     (kVerifyRegC OR kVerifyRegCField OR kVerifyRegCNewArray OR kVerifyRegCType OR kVerifyRegCWide)"

definition GetVerifyTypeArgumentH :: "u8 \<Rightarrow> u32" where
  "GetVerifyTypeArgumentH opcode = verify_flags (kInstructionDescriptors ! unat opcode) AND kVerifyRegHPrototype"

definition GetVerifyExtraFlags :: "u8 \<Rightarrow> u32" where
  "GetVerifyExtraFlags opcode = verify_flags (kInstructionDescriptors ! unat opcode) AND
     (kVerifyArrayData OR kVerifyBranchTarget OR kVerifySwitchTargets OR kVerifyVarArg OR kVerifyVarArgNonZero
      OR kVerifyVarArgRange OR kVerifyVarArgRangeNonZero OR kVerifyError)"

definition GetVerifyIsRuntimeOnly :: "u8 \<Rightarrow> bool" where
  "GetVerifyIsRuntimeOnly opcode \<longleftrightarrow> verify_flags (kInstructionDescriptors ! unat opcode) AND kVerifyRuntimeOnly \<noteq> 0"

subsection \<open>Operands of range and variable-argument forms\<close>

datatype InstructionOperands =
    RangeInstructionOperands u32 nat
  | VarArgsInstructionOperands "u32 list" nat
  | NoReceiverInstructionOperands InstructionOperands

primrec GetNumberOfOperands :: "InstructionOperands \<Rightarrow> nat" where
  "GetNumberOfOperands (RangeInstructionOperands first n) = n"
| "GetNumberOfOperands (VarArgsInstructionOperands operands n) = n"
| "GetNumberOfOperands (NoReceiverInstructionOperands inner) = GetNumberOfOperands inner - 1"

primrec GetOperand :: "InstructionOperands \<Rightarrow> nat \<Rightarrow> u32" where
  "GetOperand (RangeInstructionOperands first n) index = first + of_nat index"
| "GetOperand (VarArgsInstructionOperands operands n) index = operands ! index"
| "GetOperand (NoReceiverInstructionOperands inner) index = GetOperand inner (index + 1)"

subsection \<open>Groups of opcodes\<close>

definition IsInstructionDirectConst :: "u8 \<Rightarrow> bool" where
  "IsInstructionDirectConst opcode \<longleftrightarrow> CONST_4 \<le> opcode \<and> opcode \<le> CONST_WIDE_HIGH16"

definition IsInstructionConstWide :: "u8 \<Rightarrow> bool" where
  "IsInstructionConstWide opcode \<longleftrightarrow> CONST_WIDE_16 \<le> opcode \<and> opcode \<le> CONST_WIDE_HIGH16"

definition IsInstructionReturn :: "u8 \<Rightarrow> bool" where
  "IsInstructionReturn opcode \<longleftrightarrow> RETURN_VOID \<le> opcode \<and> opcode \<le> RETURN_OBJECT"

definition IsInstructionInvoke :: "u8 \<Rightarrow> bool" where
  "IsInstructionInvoke opcode \<longleftrightarrow> INVOKE_VIRTUAL \<le> opcode \<and> opcode \<le> INVOKE_INTERFACE_RANGE \<and> opcode \<noteq> UNUSED_73"

definition IsInstructionInvokeStatic :: "u8 \<Rightarrow> bool" where
  "IsInstructionInvokeStatic opcode \<longleftrightarrow> opcode = INVOKE_STATIC \<or> opcode = INVOKE_STATIC_RANGE"

definition IsInstructionGoto :: "u8 \<Rightarrow> bool" where
  "IsInstructionGoto opcode \<longleftrightarrow> GOTO \<le> opcode \<and> opcode \<le> GOTO_32"

definition IsInstructionIfCc :: "u8 \<Rightarrow> bool" where
  "IsInstructionIfCc opcode \<longleftrightarrow> IF_EQ \<le> opcode \<and> opcode \<le> IF_LE"

definition IsInstructionIfCcZ :: "u8 \<Rightarrow> bool" where
  "IsInstructionIfCcZ opcode \<longleftrightarrow> IF_EQZ \<le> opcode \<and> opcode \<le> IF_LEZ"

definition IsInstructionIGet :: "u8 \<Rightarrow> bool" where
  "IsInstructionIGet code \<longleftrightarrow> IGET \<le> code \<and> code \<le> IGET_SHORT"

definition IsInstructionIPut :: "u8 \<Rightarrow> bool" where
  "IsInstructionIPut code \<longleftrightarrow> IPUT \<le> code \<and> code \<le> IPUT_SHORT"

definition IsInstructionSGet :: "u8 \<Rightarrow> bool" where
  "IsInstructionSGet code \<longleftrightarrow> SGET \<le> code \<and> code \<le> SGET_SHORT"

definition IsInstructionSPut :: "u8 \<Rightarrow> bool" where
  "IsInstructionSPut code \<longleftrightarrow> SPUT \<le> code \<and> code \<le> SPUT_SHORT"

definition IsInstructionAGet :: "u8 \<Rightarrow> bool" where
  "IsInstructionAGet code \<longleftrightarrow> AGET \<le> code \<and> code \<le> AGET_SHORT"

definition IsInstructionAPut :: "u8 \<Rightarrow> bool" where
  "IsInstructionAPut code \<longleftrightarrow> APUT \<le> code \<and> code \<le> APUT_SHORT"

definition IsInstructionIGetOrIPut :: "u8 \<Rightarrow> bool" where
  "IsInstructionIGetOrIPut code \<longleftrightarrow> IGET \<le> code \<and> code \<le> IPUT_SHORT"

definition IsInstructionSGetOrSPut :: "u8 \<Rightarrow> bool" where
  "IsInstructionSGetOrSPut code \<longleftrightarrow> SGET \<le> code \<and> code \<le> SPUT_SHORT"

definition IsInstructionAGetOrAPut :: "u8 \<Rightarrow> bool" where
  "IsInstructionAGetOrAPut code \<longleftrightarrow> AGET \<le> code \<and> code \<le> APUT_SHORT"

definition IsInstructionBinOp2Addr :: "u8 \<Rightarrow> bool" where
  "IsInstructionBinOp2Addr code \<longleftrightarrow> ADD_INT_2ADDR \<le> code \<and> code \<le> REM_DOUBLE_2ADDR"

definition IsInvokeInstructionRange :: "u8 \<Rightarrow> bool" where
  "IsInvokeInstructionRange opcode \<longleftrightarrow> opcode \<ge> INVOKE_VIRTUAL_RANGE"

definition InvokeInstructionType :: "u8 \<Rightarrow> u8" where
  "InvokeInstructionType opcode = (if IsInvokeInstructionRange opcode then opcode - INVOKE_VIRTUAL_RANGE else opcode - INVOKE_VIRTUAL)"

definition IGetMemAccessType :: "u8 \<Rightarrow> u8" where
  "IGetMemAccessType code = (code - IGET)"

definition IPutMemAccessType :: "u8 \<Rightarrow> u8" where
  "IPutMemAccessType code = (code - IPUT)"

definition SGetMemAccessType :: "u8 \<Rightarrow> u8" where
  "SGetMemAccessType code = (code - SGET)"

definition SPutMemAccessType :: "u8 \<Rightarrow> u8" where
  "SPutMemAccessType code = (code - SPUT)"

definition AGetMemAccessType :: "u8 \<Rightarrow> u8" where
  "AGetMemAccessType code = (code - AGET)"

definition APutMemAccessType :: "u8 \<Rightarrow> u8" where
  "APutMemAccessType code = (code - APUT)"

definition IGetOrIPutMemAccessType :: "u8 \<Rightarrow> u8" where
  "IGetOrIPutMemAccessType code = (if code \<ge> IPUT then IPutMemAccessType code else IGetMemAccessType code)"

definition SGetOrSPutMemAccessType :: "u8 \<Rightarrow> u8" where
  "SGetOrSPutMemAccessType code = (if code \<ge> SPUT then SPutMemAccessType code else SGetMemAccessType code)"

definition AGetOrAPutMemAccessType :: "u8 \<Rightarrow> u8" where
  "AGetOrAPutMemAccessType code = (if code \<ge> APUT then APutMemAccessType code else AGetMemAccessType code)"

subsection \<open>Iterators\<close>

record dex_iterator =
  instructions :: "u16 list"
  dex_pc :: nat

definition Inst :: "'a dex_iterator_scheme \<Rightarrow> u16 list" where
  "Inst it = drop (dex_pc it) (instructions it)"

definition DexInstructionIterator_next :: "dex_iterator \<Rightarrow> dex_iterator option" where
  "DexInstructionIterator_next it =
     do { n \<leftarrow> SizeInCodeUnits (Inst it); Some (it\<lparr>dex_pc := (dex_pc it + n) mod 2 ^ 32\<rparr>) }"

record safe_dex_iterator = dex_iterator +
  num_code_units :: nat
  error_state :: bool

text \<open>The constructor passes the address of the current instruction of \<^verbatim>\<open>start\<close> as the base of the code.\<close>

definition SafeDexInstructionIterator :: "dex_iterator \<Rightarrow> dex_iterator \<Rightarrow> safe_dex_iterator" where
  "SafeDexInstructionIterator start end_it =
     \<lparr>instructions = Inst start, dex_pc = dex_pc start, num_code_units = dex_pc end_it, error_state = False\<rparr>"

definition SafeDexInstructionIterator_next :: "safe_dex_iterator \<Rightarrow> safe_dex_iterator option" where
  "SafeDexInstructionIterator_next it =
     do {
       size_code_units \<leftarrow> CodeUnitsRequiredForSizeComputation (Inst it);
       let available = nat ((int (num_code_units it) - int (dex_pc it)) mod 2 ^ 32) in
       if size_code_units > available then Some (it\<lparr>error_state := True\<rparr>)
       else do {
         instruction_code_units \<leftarrow> SizeInCodeUnits (Inst it);
         if instruction_code_units > available then Some (it\<lparr>error_state := True\<rparr>)
         else Some (it\<lparr>dex_pc := (dex_pc it + instruction_code_units) mod 2 ^ 32\<rparr>) } }"

end
