(* ===== verification/Dex_Instruction_Correct.thy ===== *)
theory Dex_Instruction_Correct
  imports Dex_Instruction
begin

text \<open>
  Correctness of the instruction decoder: the opcode table is consistent, decoding inverts the
  layout of the formats, accessors abort exactly for missing operands, the opcode groups agree
  with the table, and the safe iterator never leaves the code.
\<close>

unbundle bit_operations_syntax

subsection \<open>Consistency of the opcode table\<close>

text \<open>What every line of the table satisfies.\<close>

definition sizes_ok :: "u8 \<Rightarrow> InstructionDescriptor \<Rightarrow> bool" where
  "sizes_ok op d \<longleftrightarrow> format d \<noteq> kInvalidFormat \<and>
     size_in_code_units d = (if op = NOP then - 1 else int (SizeInCodeUnits_format (format d)))"



lemmas table_simps = DEX_INSTRUCTION_LIST_low_def DEX_INSTRUCTION_LIST_high_def dex_flags
  InstructionSizeInCodeUnitsByOpcode_def SizeInCodeUnits_format_def

lemma table_sizes: "sizes_ok op (kInstructionDescriptors ! unat op)"
  by (rule all_opcodes; simp add: table_simps sizes_ok_def)





definition cases_ok :: "InstructionDescriptor \<Rightarrow> bool" where
  "cases_ok d \<longleftrightarrow>
     verify_flags d AND (kVerifyRegA OR kVerifyRegAWide) \<in> set [0, kVerifyRegA, kVerifyRegAWide] \<and>
     verify_flags d AND (kVerifyRegB OR kVerifyRegBField OR kVerifyRegBMethod OR kVerifyRegBNewInstance
        OR kVerifyRegBString OR kVerifyRegBType OR kVerifyRegBWide)
       \<in> set [0, kVerifyRegB, kVerifyRegBField, kVerifyRegBMethod, kVerifyRegBNewInstance, kVerifyRegBString,
          kVerifyRegBType, kVerifyRegBWide] \<and>
     verify_flags d AND (kVerifyRegC OR kVerifyRegCField OR kVerifyRegCNewArray OR kVerifyRegCType OR kVerifyRegCWide)
       \<in> set [0, kVerifyRegC, kVerifyRegCField, kVerifyRegCNewArray, kVerifyRegCType, kVerifyRegCWide] \<and>
     verify_flags d AND (kVerifyArrayData OR kVerifyBranchTarget OR kVerifySwitchTargets OR kVerifyVarArg
        OR kVerifyVarArgNonZero OR kVerifyVarArgRange OR kVerifyVarArgRangeNonZero OR kVerifyError)
       \<in> set [0, kVerifyArrayData, kVerifyBranchTarget, kVerifySwitchTargets, kVerifyVarArg, kVerifyVarArgNonZero,
          kVerifyVarArgRange, kVerifyVarArgRangeNonZero, kVerifyError]"


lemma table_cases: "cases_ok (kInstructionDescriptors ! unat (op :: u8))"
  by (rule all_opcodes [where P = "\<lambda>_. cases_ok"]; code_simp)

lemma constants_in_table: "list_all (\<lambda>c. c \<in> set (map INSTRUCTION_ENUM DEX_INSTRUCTION_LIST)) opcode_constants"
  by (simp add: opcode_constants_def DEX_INSTRUCTION_LIST_def table_simps)

subsection \<open>Opcode groups\<close>

definition groups_ok :: "u8 \<Rightarrow> InstructionDescriptor \<Rightarrow> bool" where
  "groups_ok op d \<longleftrightarrow>
     (IsInstructionReturn op \<longleftrightarrow> flags d AND kReturn \<noteq> 0) \<and>
     (IsInstructionGoto op \<longleftrightarrow> flags d AND kUnconditional \<noteq> 0) \<and>
     (IsInstructionIfCc op \<longleftrightarrow> format d = k22t) \<and>
     (IsInstructionIfCcZ op \<longleftrightarrow> format d = k21t) \<and>
     (IsInstructionInvoke op \<longleftrightarrow> flags d AND kInvoke \<noteq> 0 \<and> index_type d = kIndexMethodRef) \<and>
     (IsInstructionInvoke op \<longrightarrow> (IsInvokeInstructionRange op \<longleftrightarrow> format d = k3rc)) \<and>
     (IsInstructionIGetOrIPut op \<longleftrightarrow> format d = k22c \<and> index_type d = kIndexFieldRef) \<and>
     (IsInstructionSGetOrSPut op \<longleftrightarrow> format d = k21c \<and> index_type d = kIndexFieldRef)"

definition accesses_ok :: "u8 \<Rightarrow> InstructionDescriptor \<Rightarrow> bool" where
  "accesses_ok op d \<longleftrightarrow>
     (IsInstructionIGetOrIPut op \<longleftrightarrow> IsInstructionIGet op \<or> IsInstructionIPut op) \<and>
     (IsInstructionSGetOrSPut op \<longleftrightarrow> IsInstructionSGet op \<or> IsInstructionSPut op) \<and>
     (IsInstructionAGetOrAPut op \<longleftrightarrow> IsInstructionAGet op \<or> IsInstructionAPut op) \<and>
     (IsInstructionIGetOrIPut op \<longrightarrow> IGetOrIPutMemAccessType op < 7 \<and>
        (IGetOrIPutMemAccessType op = 1 \<longleftrightarrow> verify_flags d AND kVerifyRegAWide \<noteq> 0)) \<and>
     (IsInstructionSGetOrSPut op \<longrightarrow> SGetOrSPutMemAccessType op < 7 \<and>
        (SGetOrSPutMemAccessType op = 1 \<longleftrightarrow> verify_flags d AND kVerifyRegAWide \<noteq> 0)) \<and>
     (IsInstructionAGetOrAPut op \<longrightarrow> AGetOrAPutMemAccessType op < 7 \<and>
        (AGetOrAPutMemAccessType op = 1 \<longleftrightarrow> verify_flags d AND kVerifyRegAWide \<noteq> 0)) \<and>
     (IsInstructionInvoke op \<longrightarrow> InvokeInstructionType op < 5 \<and>
        (InvokeInstructionType op = 3 \<longleftrightarrow> IsInstructionInvokeStatic op))"

lemma table_groups: "groups_ok op (kInstructionDescriptors ! unat op)"
  by (rule all_opcodes; code_simp)

lemma table_accesses: "accesses_ok op (kInstructionDescriptors ! unat op)"
  by (rule all_opcodes; code_simp)

text \<open>
  The same groups by the names of the instructions, in the order of the access and invoke types: the
  opcodes of a group are those whose name starts with its stem, and the type gives the rest of the name.
\<close>

definition mem_names :: "string \<Rightarrow> string list" where
  "mem_names stem = map (\<lambda>s. stem @ s) ['''', ''-wide'', ''-object'', ''-boolean'', ''-byte'', ''-char'', ''-short'']"

definition invoke_names :: "string \<Rightarrow> string list" where
  "invoke_names suffix = map (\<lambda>s. ''invoke-'' @ s @ suffix) [''virtual'', ''super'', ''direct'', ''static'', ''interface'']"

definition access_named :: "string \<Rightarrow> (u8 \<Rightarrow> bool) \<Rightarrow> (u8 \<Rightarrow> u8) \<Rightarrow> (u8 \<Rightarrow> u8) \<Rightarrow> u8 \<Rightarrow> string \<Rightarrow> bool" where
  "access_named stem is_access access_type either_type op name \<longleftrightarrow>
     (if is_access op
      then access_type op < 7 \<and> either_type op = access_type op \<and> name = mem_names stem ! unat (access_type op)
      else take (length stem) name \<noteq> stem)"

definition invoke_named :: "u8 \<Rightarrow> string \<Rightarrow> bool" where
  "invoke_named op name \<longleftrightarrow>
     (if IsInstructionInvoke op
      then name = invoke_names (if IsInvokeInstructionRange op then ''/range'' else '''') ! unat (InvokeInstructionType op)
      else \<not> IsInstructionInvokeStatic op)"

definition const_named :: "u8 \<Rightarrow> dex_entry \<Rightarrow> bool" where
  "const_named op e \<longleftrightarrow>
     (IsInstructionDirectConst op \<longleftrightarrow>
        (if index_type (INSTRUCTION_DESCR e) = kIndexNone then take 5 (INSTRUCTION_NAME e) = ''const'' else False)) \<and>
     (IsInstructionConstWide op \<longleftrightarrow> take 10 (INSTRUCTION_NAME e) = ''const-wide'')"

definition two_addr_named :: "u8 \<Rightarrow> string \<Rightarrow> bool" where
  "two_addr_named op name \<longleftrightarrow> (IsInstructionBinOp2Addr op \<longleftrightarrow> take 6 (rev name) = rev ''/2addr'')"

lemma table_field_names:
  "access_named ''iget'' IsInstructionIGet IGetMemAccessType IGetOrIPutMemAccessType op (Name op)"
  "access_named ''iput'' IsInstructionIPut IPutMemAccessType IGetOrIPutMemAccessType op (Name op)"
  "access_named ''sget'' IsInstructionSGet SGetMemAccessType SGetOrSPutMemAccessType op (Name op)"
  "access_named ''sput'' IsInstructionSPut SPutMemAccessType SGetOrSPutMemAccessType op (Name op)"
  by (rule all_names; code_simp)+

lemma table_array_names:
  "access_named ''aget'' IsInstructionAGet AGetMemAccessType AGetOrAPutMemAccessType op (Name op)"
  "access_named ''aput'' IsInstructionAPut APutMemAccessType AGetOrAPutMemAccessType op (Name op)"
  by (rule all_names; code_simp)+

lemma table_other_names: "invoke_named op (Name op)" "two_addr_named op (Name op)"
  by (rule all_names; code_simp)+

lemma table_const_names: "const_named op (DEX_INSTRUCTION_LIST ! unat op)"
  by (rule all_entries; code_simp)

lemma const_names:
  "IsInstructionDirectConst op \<longleftrightarrow> take 5 (Name op) = ''const'' \<and> IndexTypeOf op = kIndexNone"
  "IsInstructionConstWide op \<longleftrightarrow> take 10 (Name op) = ''const-wide''"
  using table_const_names [of op] opcode_less [of op]
  by (auto simp: const_named_def Name_def IndexTypeOf_def kInstructionNames_def kInstructionDescriptors_def)

subsection \<open>Encoding of the formats\<close>

text \<open>
  The operands of an instruction at their widths in the format, and the code units the format
  comment in \<^verbatim>\<open>dex_instruction.h\<close> describes.
\<close>

datatype operands =
    F10x u8
  | F12x "4 word" "4 word"
  | F11n "4 word" "4 word"
  | F11x u8
  | F10t u8
  | F20t u8 u16
  | F22x u8 u16
  | F21t u8 u16
  | F21s u8 u16
  | F21h u8 u16
  | F21c u8 u16
  | F23x u8 u8 u8
  | F22b u8 u8 u8
  | F22t "4 word" "4 word" u16
  | F22s "4 word" "4 word" u16
  | F22c "4 word" "4 word" u16
  | F32x u8 u16 u16
  | F30t u8 u32
  | F31t u8 u32
  | F31i u8 u32
  | F31c u8 u32
  | F35c "4 word" u16 "4 word" "4 word" "4 word" "4 word" "4 word"
  | F3rc u8 u16 u16
  | F45cc "4 word" u16 "4 word" "4 word" "4 word" "4 word" "4 word" u16
  | F4rcc u8 u16 u16 u16
  | F51l u8 u64

primrec format_of :: "operands \<Rightarrow> Format" where
  "format_of (F10x z) = k10x"
| "format_of (F12x a b) = k12x"
| "format_of (F11n a b) = k11n"
| "format_of (F11x a) = k11x"
| "format_of (F10t a) = k10t"
| "format_of (F20t z a) = k20t"
| "format_of (F22x a b) = k22x"
| "format_of (F21t a b) = k21t"
| "format_of (F21s a b) = k21s"
| "format_of (F21h a b) = k21h"
| "format_of (F21c a b) = k21c"
| "format_of (F23x a b c) = k23x"
| "format_of (F22b a b c) = k22b"
| "format_of (F22t a b c) = k22t"
| "format_of (F22s a b c) = k22s"
| "format_of (F22c a b c) = k22c"
| "format_of (F32x z a b) = k32x"
| "format_of (F30t z a) = k30t"
| "format_of (F31t a b) = k31t"
| "format_of (F31i a b) = k31i"
| "format_of (F31c a b) = k31c"
| "format_of (F35c n b c d e f g) = k35c"
| "format_of (F3rc a b c) = k3rc"
| "format_of (F45cc n b c d e f g h) = k45cc"
| "format_of (F4rcc a b c h) = k4rcc"
| "format_of (F51l a b) = k51l"

definition unit8 :: "u8 \<Rightarrow> u8 \<Rightarrow> u16" where
  "unit8 hi lo = push_bit 8 (ucast hi) OR ucast lo"

definition byte4 :: "4 word \<Rightarrow> 4 word \<Rightarrow> u8" where
  "byte4 hi lo = push_bit 4 (ucast hi) OR ucast lo"

definition low16 :: "u32 \<Rightarrow> u16" where "low16 v = ucast v"

definition high16 :: "u32 \<Rightarrow> u16" where "high16 v = ucast (drop_bit 16 v)"

primrec encode :: "u8 \<Rightarrow> operands \<Rightarrow> u16 list" where
  "encode op (F10x z) = [unit8 z op]"
| "encode op (F12x a b) = [unit8 (byte4 b a) op]"
| "encode op (F11n a b) = [unit8 (byte4 b a) op]"
| "encode op (F11x a) = [unit8 a op]"
| "encode op (F10t a) = [unit8 a op]"
| "encode op (F20t z a) = [unit8 z op, a]"
| "encode op (F22x a b) = [unit8 a op, b]"
| "encode op (F21t a b) = [unit8 a op, b]"
| "encode op (F21s a b) = [unit8 a op, b]"
| "encode op (F21h a b) = [unit8 a op, b]"
| "encode op (F21c a b) = [unit8 a op, b]"
| "encode op (F23x a b c) = [unit8 a op, unit8 c b]"
| "encode op (F22b a b c) = [unit8 a op, unit8 c b]"
| "encode op (F22t a b c) = [unit8 (byte4 b a) op, c]"
| "encode op (F22s a b c) = [unit8 (byte4 b a) op, c]"
| "encode op (F22c a b c) = [unit8 (byte4 b a) op, c]"
| "encode op (F32x z a b) = [unit8 z op, a, b]"
| "encode op (F30t z a) = [unit8 z op, low16 a, high16 a]"
| "encode op (F31t a b) = [unit8 a op, low16 b, high16 b]"
| "encode op (F31i a b) = [unit8 a op, low16 b, high16 b]"
| "encode op (F31c a b) = [unit8 a op, low16 b, high16 b]"
| "encode op (F35c n b c d e f g) = [unit8 (byte4 n g) op, b, unit8 (byte4 f e) (byte4 d c)]"
| "encode op (F3rc a b c) = [unit8 a op, b, c]"
| "encode op (F45cc n b c d e f g h) = [unit8 (byte4 n g) op, b, unit8 (byte4 f e) (byte4 d c), h]"
| "encode op (F4rcc a b c h) = [unit8 a op, b, c, h]"
| "encode op (F51l a b) = [unit8 a op, low16 (ucast b), high16 (ucast b), low16 (ucast (drop_bit 32 b)), high16 (ucast (drop_bit 32 b))]"

text \<open>The value of the operands, as the interpreter and the verifier read them.\<close>

primrec operand_A :: "operands \<Rightarrow> int" where
  "operand_A (F10x z) = uint z"
| "operand_A (F12x a b) = uint a"
| "operand_A (F11n a b) = uint a"
| "operand_A (F11x a) = uint a"
| "operand_A (F10t a) = sint a"
| "operand_A (F20t z a) = sint a"
| "operand_A (F22x a b) = uint a"
| "operand_A (F21t a b) = uint a"
| "operand_A (F21s a b) = uint a"
| "operand_A (F21h a b) = uint a"
| "operand_A (F21c a b) = uint a"
| "operand_A (F23x a b c) = uint a"
| "operand_A (F22b a b c) = uint a"
| "operand_A (F22t a b c) = uint a"
| "operand_A (F22s a b c) = uint a"
| "operand_A (F22c a b c) = uint a"
| "operand_A (F32x z a b) = uint a"
| "operand_A (F30t z a) = sint a"
| "operand_A (F31t a b) = uint a"
| "operand_A (F31i a b) = uint a"
| "operand_A (F31c a b) = uint a"
| "operand_A (F35c n b c d e f g) = uint n"
| "operand_A (F3rc a b c) = uint a"
| "operand_A (F45cc n b c d e f g h) = uint n"
| "operand_A (F4rcc a b c h) = uint a"
| "operand_A (F51l a b) = uint a"

fun operand_B :: "operands \<Rightarrow> int option" where
  "operand_B (F12x a b) = Some (uint b)"
| "operand_B (F11n a b) = Some (sint b)"
| "operand_B (F22x a b) = Some (uint b)"
| "operand_B (F21t a b) = Some (sint b)"
| "operand_B (F21s a b) = Some (sint b)"
| "operand_B (F21h a b) = Some (uint b)"
| "operand_B (F21c a b) = Some (uint b)"
| "operand_B (F23x a b c) = Some (uint b)"
| "operand_B (F22b a b c) = Some (uint b)"
| "operand_B (F22t a b c) = Some (uint b)"
| "operand_B (F22s a b c) = Some (uint b)"
| "operand_B (F22c a b c) = Some (uint b)"
| "operand_B (F32x z a b) = Some (uint b)"
| "operand_B (F31t a b) = Some (sint b)"
| "operand_B (F31i a b) = Some (sint b)"
| "operand_B (F31c a b) = Some (sint b)"
| "operand_B (F35c n b c d e f g) = Some (uint b)"
| "operand_B (F3rc a b c) = Some (uint b)"
| "operand_B (F45cc n b c d e f g h) = Some (uint b)"
| "operand_B (F4rcc a b c h) = Some (uint b)"
| "operand_B (F51l a b) = Some (sint (ucast b :: u32))"
| "operand_B _ = None"

fun operand_C :: "operands \<Rightarrow> int option" where
  "operand_C (F23x a b c) = Some (uint c)"
| "operand_C (F22b a b c) = Some (sint c)"
| "operand_C (F22t a b c) = Some (sint c)"
| "operand_C (F22s a b c) = Some (sint c)"
| "operand_C (F22c a b c) = Some (uint c)"
| "operand_C (F35c n b c d e f g) = Some (uint c)"
| "operand_C (F3rc a b c) = Some (uint c)"
| "operand_C (F45cc n b c d e f g h) = Some (uint c)"
| "operand_C (F4rcc a b c h) = Some (uint c)"
| "operand_C _ = None"

fun operand_H :: "operands \<Rightarrow> int option" where
  "operand_H (F45cc n b c d e f g h) = Some (uint h)"
| "operand_H (F4rcc a b c h) = Some (uint h)"
| "operand_H _ = None"

subsection \<open>Fields of code units\<close>

lemma unit8_fields [simp]: "Opcode (unit8 hi lo) = lo" "InstAA (unit8 hi lo) = hi"
  "ucast (unit8 hi lo AND 0xff) = lo" "ucast (drop_bit 8 (unit8 hi lo)) = hi"
  by (rule bit_word_eqI, auto simp: Opcode_def InstAA_def unit8_def mask_take_bit bit_simps dest: bit_imp_le_length)+

lemma byte4_fields [simp]: "InstA (unit8 (byte4 b a) lo) = ucast a" "InstB (unit8 (byte4 b a) lo) = ucast b"
  by (rule bit_word_eqI, auto simp: InstA_def InstB_def unit8_def byte4_def mask_take_bit bit_simps dest: bit_imp_le_length)+

lemma args_fields [simp]:
  "ucast (unit8 (byte4 f e) (byte4 d c) AND 0x0f) = (ucast c :: 'a :: len word)"
  "ucast (drop_bit 4 (unit8 (byte4 f e) (byte4 d c)) AND 0x0f) = (ucast d :: 'a word)"
  "ucast (drop_bit 8 (unit8 (byte4 f e) (byte4 d c)) AND 0x0f) = (ucast e :: 'a word)"
  "ucast (drop_bit 12 (unit8 (byte4 f e) (byte4 d c)) AND 0x0f) = (ucast f :: 'a word)"
  by (rule bit_word_eqI, auto simp: unit8_def byte4_def mask_take_bit bit_simps dest: bit_imp_le_length)+

lemma low16_high16 [simp]: "ucast (low16 v) OR push_bit 16 (ucast (high16 v)) = v"
  by (rule bit_word_eqI) (auto simp: low16_def high16_def bit_simps)

lemma low32_high32 [simp]: "ucast (ucast v :: u32) OR push_bit 32 (ucast (ucast (drop_bit 32 v) :: u32)) = (v :: u64)"
  by (rule bit_word_eqI) (auto simp: bit_simps)

lemma sign_extend_4: "sint (ucast (signed_drop_bit 28 (push_bit 28 (ucast (ucast b :: u8)) :: u32)) :: u8) = sint (b :: 4 word)"
proof -
  have "list_all (\<lambda>n. sint (ucast (signed_drop_bit 28 (push_bit 28 (ucast (ucast (of_nat n :: 4 word) :: u8)) :: u32)) :: u8)
      = sint (of_nat n :: 4 word)) [0..<16]" by code_simp
  moreover have "unat b \<in> set [0..<16]" using unsigned_less [of b, where ?'a = nat] by simp
  ultimately show ?thesis unfolding list_all_iff by (metis of_nat_unat ucast_id)
qed

subsection \<open>Decoding\<close>

lemmas reg_defs =
  VRegA_def VRegA_of_def VRegA_10t_def VRegA_10x_def VRegA_11n_def VRegA_11x_def VRegA_12x_def VRegA_20t_def VRegA_21c_def
  VRegA_21h_def VRegA_21s_def VRegA_21t_def VRegA_22b_def VRegA_22c_def VRegA_22s_def VRegA_22t_def VRegA_22x_def
  VRegA_23x_def VRegA_30t_def VRegA_31c_def VRegA_31i_def VRegA_31t_def VRegA_32x_def VRegA_35c_def VRegA_3rc_def
  VRegA_51l_def VRegA_45cc_def VRegA_4rcc_def
  VRegB_def VRegB_of_def VRegB_11n_def VRegB_12x_def VRegB_21c_def VRegB_21h_def VRegB_21s_def VRegB_21t_def VRegB_22b_def
  VRegB_22c_def VRegB_22s_def VRegB_22t_def VRegB_22x_def VRegB_23x_def VRegB_31c_def VRegB_31i_def VRegB_31t_def
  VRegB_32x_def VRegB_35c_def VRegB_3rc_def VRegB_45cc_def VRegB_4rcc_def VRegB_51l_def
  VRegC_def VRegC_of_def VRegC_22b_def VRegC_22c_def VRegC_22s_def VRegC_22t_def VRegC_23x_def VRegC_35c_def VRegC_3rc_def
  VRegC_45cc_def VRegC_4rcc_def VRegH_def VRegH_of_def VRegH_45cc_def VRegH_4rcc_def

lemmas fetch_defs = Fetch16_def Fetch32_def

lemma uint_ucast_4: "uint (ucast (a :: 4 word) :: u8) = uint a"
  using unsigned_less [of a, where ?'a = int] by (simp add: unsigned_ucast_eq take_bit_int_eq_self_iff)

lemma unat_ucast_4: "unat (ucast (a :: 4 word) :: u8) = unat a"
  using unsigned_less [of a, where ?'a = nat] by (simp add: unsigned_ucast_eq take_bit_nat_eq_self_iff)

lemma ucast_ucast_4: "ucast (ucast (a :: 4 word) :: u8) = (ucast a :: u32)"
  by (rule bit_word_eqI) (auto simp: bit_simps dest: bit_imp_le_length)

lemma decode_A: "FormatOf op = format_of x \<Longrightarrow> VRegA (encode op x) = Some (operand_A x)"
  by (cases x) (simp_all add: reg_defs fetch_defs uint_ucast_4)

lemma decode_B: "FormatOf op = format_of x \<Longrightarrow> VRegB (encode op x) = operand_B x"
  by (cases x) (simp_all add: reg_defs fetch_defs uint_ucast_4 sign_extend_4)

lemma decode_C: "FormatOf op = format_of x \<Longrightarrow> VRegC (encode op x) = operand_C x"
  by (cases x) (simp_all add: reg_defs fetch_defs uint_ucast_4)

lemma decode_H: "FormatOf op = format_of x \<Longrightarrow> VRegH (encode op x) = operand_H x"
  by (cases x) (simp_all add: reg_defs fetch_defs)

lemma size_of_op: "op \<noteq> NOP \<Longrightarrow> size_in_code_units (kInstructionDescriptors ! unat op) = int (SizeInCodeUnits_format (FormatOf op))"
  using table_sizes [of op] by (simp add: sizes_ok_def FormatOf_def)

lemma decode_size:
  assumes "FormatOf op = format_of x" "op \<noteq> NOP"
  shows "SizeInCodeUnits (encode op x) = Some (length (encode op x))"
  using assms(1) size_of_op [OF assms(2)] by (cases x) (simp_all add: SizeInCodeUnits_def SizeInCodeUnits_format_def fetch_defs)

lemma decode_wide: "WideVRegB (encode op (F51l a b)) = Some b"
  by (simp add: WideVRegB_def VRegB_51l_def fetch_defs)

text \<open>The arguments of a non-range invoke, for a legal argument count.\<close>

lemma decode_args:
  assumes "length arg = 5" "unat n \<le> 5" "x = F35c n b c d e f g \<or> x = F45cc n b c d e f g h"
  shows "\<exists>arg'. GetVarArgs (encode op x) arg (hd (encode op x)) = Some (unat n, arg') \<and> length arg' = 5 \<and>
    take (unat n) arg' = take (unat n) (map ucast [c, d, e, f, g])"
proof -
  obtain a0 a1 a2 a3 a4 where a: "arg = [a0, a1, a2, a3, a4]"
    using assms(1) by (auto simp: length_Suc_conv numeral_eq_Suc)
  consider "unat n = 0" | "unat n = 1" | "unat n = 2" | "unat n = 3" | "unat n = 4" | "unat n = 5" using assms(2) by linarith
  then show ?thesis using assms(3) by cases (auto simp: a GetVarArgs_def fetch_defs unat_ucast_4 ucast_ucast_4)
qed

subsection \<open>Operand access and its errors\<close>




definition conditional_ok :: "InstructionDescriptor \<Rightarrow> bool" where
  "conditional_ok d \<longleftrightarrow> (format d = k22t \<or> format d = k21t \<longleftrightarrow> flags d AND kBranch \<noteq> 0 \<and> flags d AND kUnconditional = 0)"

lemma table_conditional: "conditional_ok (kInstructionDescriptors ! unat (op :: u8))"
  by (rule all_opcodes [where P = "\<lambda>_. conditional_ok"]; code_simp)




subsection \<open>Sizes of instructions\<close>

lemma array_size_pos: "4 \<le> unat (4 + x div 2 :: u32)"
proof -
  have "unat x div 2 < 2 ^ 31" using unsigned_less [of x, where ?'a = nat] by (simp add: div_less_iff_less_mult)
  then have "unat (4 + x div 2) = 4 + unat x div 2" by (simp add: unat_word_ariths unat_div)
  then show ?thesis by simp
qed

lemma negative_size_NOP: "size_in_code_units (kInstructionDescriptors ! unat op) < 0 \<longleftrightarrow> op = NOP"
  using table_sizes [of op] by (auto simp: sizes_ok_def)

lemma Opcode_NOP: "Opcode w = NOP \<longleftrightarrow> w AND 0xFF = 0"
proof -
  have "Opcode w = NOP \<longleftrightarrow> unat (w AND 0xFF) mod 2 ^ 8 = 0"
    by (simp add: Opcode_def NOP_def word_unat_eq_iff unsigned_ucast_eq take_bit_eq_mod)
  moreover have "unat (w AND 0xFF) < 2 ^ 8" by (simp only: mask_take_bit unsigned_take_bit_eq take_bit_nat_less_exp)
  ultimately show ?thesis by (simp add: word_unat_eq_iff)
qed

lemma SizeInCodeUnits_pos: "SizeInCodeUnits inst = Some n \<Longrightarrow> 0 < n"
proof -
  assume s: "SizeInCodeUnits inst = Some n"
  then obtain w where w: "Fetch16 inst 0 = Some w" by (auto simp: SizeInCodeUnits_def split: bind_splits)
  show ?thesis
  proof (cases "Opcode w = NOP")
    case True
    then have "SizeInCodeUnitsComplexOpcode inst = Some n" using s w by (simp add: SizeInCodeUnits_def negative_size_NOP)
    then show ?thesis using array_size_pos by (auto simp: SizeInCodeUnitsComplexOpcode_def split: bind_splits if_splits) (metis less_le_trans zero_less_numeral)
  next
    case False
    then have "SizeInCodeUnits_format (FormatOf (Opcode w)) = n" using s w size_of_op [OF False] by (simp add: SizeInCodeUnits_def)
    moreover have "FormatOf (Opcode w) \<noteq> kInvalidFormat" using table_sizes [of "Opcode w"] by (simp add: sizes_ok_def FormatOf_def)
    ultimately show ?thesis by (auto simp: SizeInCodeUnits_format_def split: Format.splits)
  qed
qed

lemma required_defined: "inst \<noteq> [] \<Longrightarrow> \<exists>k. CodeUnitsRequiredForSizeComputation inst = Some k \<and> 0 < k"
  by (auto simp: CodeUnitsRequiredForSizeComputation_def CodeUnitsRequiredForSizeOfComplexOpcode_def fetch_defs
      negative_size_NOP Opcode_NOP Let_def)

lemma size_defined_iff:
  assumes "CodeUnitsRequiredForSizeComputation inst = Some k"
  shows "(\<exists>n. SizeInCodeUnits inst = Some n) \<longleftrightarrow> k \<le> length inst"
proof (cases inst)
  case Nil
  then show ?thesis using assms by (simp add: CodeUnitsRequiredForSizeComputation_def fetch_defs)
next
  case (Cons w ws)
  then show ?thesis using assms
    by (auto simp: CodeUnitsRequiredForSizeComputation_def CodeUnitsRequiredForSizeOfComplexOpcode_def
        SizeInCodeUnits_def SizeInCodeUnitsComplexOpcode_def fetch_defs Let_def Opcode_NOP negative_size_NOP dex_flags Suc_le_eq
        split: if_splits)
qed

subsection \<open>The safe iterator\<close>

definition it_ok :: "safe_dex_iterator \<Rightarrow> bool" where
  "it_ok it \<longleftrightarrow> num_code_units it = length (instructions it) \<and> length (instructions it) < 2 ^ 32 \<and>
     dex_pc it < length (instructions it) \<and> \<not> error_state it"

text \<open>The size of the instruction at a dex pc, when it lies inside the code.\<close>

definition insn_size :: "u16 list \<Rightarrow> nat \<Rightarrow> nat option" where
  "insn_size code pc = (case SizeInCodeUnits (drop pc code) of
     Some n \<Rightarrow> if pc + n \<le> length code then Some n else None | None \<Rightarrow> None)"

lemma insn_size_pos: "insn_size code pc = Some n \<Longrightarrow> 0 < n \<and> pc + n \<le> length code"
  by (auto simp: insn_size_def SizeInCodeUnits_pos split: option.splits if_splits)

lemma safe_next:
  assumes "it_ok it"
  shows "SafeDexInstructionIterator_next it = Some (case insn_size (instructions it) (dex_pc it) of
      Some n \<Rightarrow> it\<lparr>dex_pc := dex_pc it + n\<rparr> | None \<Rightarrow> it\<lparr>error_state := True\<rparr>)"
proof -
  let ?c = "instructions it" and ?pc = "dex_pc it"
  have "Inst it \<noteq> []" using assms by (simp add: Inst_def it_ok_def)
  then obtain k where k: "CodeUnitsRequiredForSizeComputation (Inst it) = Some k" using required_defined by blast
  have "nat ((int (length ?c) - int ?pc) mod 2 ^ 32) = length ?c - ?pc"
    using assms by (subst mod_pos_pos_trivial) (auto simp: it_ok_def)
  then have a: "nat ((int (num_code_units it) - int ?pc) mod 2 ^ 32) = length ?c - ?pc"
    using assms by (simp add: it_ok_def)
  have l: "length (Inst it) = length ?c - ?pc" by (simp add: Inst_def)
  show ?thesis
  proof (cases "k \<le> length ?c - ?pc")
    case True
    then obtain n where n: "SizeInCodeUnits (Inst it) = Some n" using size_defined_iff [OF k] l by auto
    have w: "n \<le> length ?c - ?pc \<Longrightarrow> (?pc + n) mod 2 ^ 32 = ?pc + n" using assms by (auto simp: it_ok_def)
    have "n \<le> length ?c - ?pc \<longleftrightarrow> ?pc + n \<le> length ?c" using assms by (auto simp: it_ok_def)
    then show ?thesis using True k n a w by (auto simp: SafeDexInstructionIterator_next_def insn_size_def Inst_def [symmetric])
  next
    case False
    then have "SizeInCodeUnits (Inst it) = None" using size_defined_iff [OF k] l by (cases "SizeInCodeUnits (Inst it)") auto
    then show ?thesis using False k a by (simp add: SafeDexInstructionIterator_next_def insn_size_def Inst_def [symmetric])
  qed
qed

lemma plain_next:
  assumes "insn_size (instructions it) (dex_pc it) = Some n" "length (instructions it) < 2 ^ 32"
  shows "DexInstructionIterator_next it = Some (it\<lparr>dex_pc := dex_pc it + n\<rparr>)"
  using assms insn_size_pos [OF assms(1)] by (auto simp: DexInstructionIterator_next_def insn_size_def Inst_def split: option.splits if_splits)

subsection \<open>Correctness of the decoder\<close>


text \<open>
  C3: The accessors read the operands that the formats lay out: for every format and every choice of
  operands of the format's widths, decoding the encoded code units gives back vA, vB, vC and vH (sign-
  or zero-extended as the format says), and the size of the instruction is the number of its code
  units.\<close>

theorem decode_encode:
  assumes "FormatOf op = format_of x"
  shows "VRegA (encode op x) = Some (operand_A x) \<and>
    VRegB (encode op x) = operand_B x \<and>
    VRegC (encode op x) = operand_C x \<and>
    VRegH (encode op x) = operand_H x \<and>
    (op \<noteq> NOP \<longrightarrow> SizeInCodeUnits (encode op x) = Some (length (encode op x))) \<and>
    (\<forall>a b. x = F51l a b \<longrightarrow> WideVRegB (encode op x) = Some b)"
  using decode_A [OF assms] decode_B [OF assms] decode_C [OF assms] decode_H [OF assms] decode_size [OF assms] decode_wide
  by blast


text \<open>
  C6: Incrementing a SafeDexInstructionIterator inside the code never reads outside the code.  It
  moves to the end of the current instruction, as the plain iterator does, when the instruction lies
  inside the code, strictly forward and at most to the end; otherwise it stays and sets the error
  state.\<close>

theorem SafeDexInstructionIterator_next_safe:
  assumes "num_code_units it = length (instructions it)" "length (instructions it) < 2 ^ 32"
    "dex_pc it < length (instructions it)" "\<not> error_state it"
  shows "\<exists>it'. SafeDexInstructionIterator_next it = Some it' \<and>
    (if error_state it' then it' = it\<lparr>error_state := True\<rparr> \<and>
       (\<forall>n. SizeInCodeUnits (Inst it) = Some n \<longrightarrow> length (instructions it) < dex_pc it + n)
     else dex_pc it < dex_pc it' \<and> dex_pc it' \<le> length (instructions it) \<and>
       DexInstructionIterator_next (dex_iterator.truncate it) = Some (dex_iterator.truncate it'))"
proof -
  have ok: "it_ok it" using assms by (simp add: it_ok_def)
  show ?thesis
  proof (cases "insn_size (instructions it) (dex_pc it)")
    case None
    then show ?thesis using safe_next [OF ok] by (auto simp: insn_size_def Inst_def split: option.splits if_splits)
  next
    case (Some n)
    then show ?thesis using safe_next [OF ok] insn_size_pos [OF Some] assms(2,4)
        plain_next [of "dex_iterator.truncate it" n] by (auto simp: dex_iterator.truncate_def)
  qed
qed

text \<open>
  C33: The opcode ranges of dex_instruction_utils.h are the instructions they are named after: returns,
  gotos, the two-register and the zero tests, invokes and field accesses are exactly the opcodes with the
  corresponding flags, formats and index types; each get, put, invoke, constant and two-address group is
  exactly the set of instructions with its names; the combined groups are the unions of their parts; and
  the memory access and invoke types number the instructions of a group in the order of the enumerations,
  an access being wide exactly when the table verifies a register pair.\<close>

theorem opcode_groups_agree:
  "(IsInstructionReturn op \<longleftrightarrow> IsReturn op) \<and>
   (IsInstructionGoto op \<longleftrightarrow> IsUnconditional op) \<and>
   (IsInstructionIfCc op \<longleftrightarrow> FormatOf op = k22t) \<and> (IsInstructionIfCcZ op \<longleftrightarrow> FormatOf op = k21t) \<and>
   (IsInstructionIfCc op \<or> IsInstructionIfCcZ op \<longleftrightarrow> IsBranch op \<and> \<not> IsUnconditional op) \<and>
   (IsInstructionInvoke op \<longleftrightarrow> IsInvoke op \<and> IndexTypeOf op = kIndexMethodRef) \<and>
   (IsInstructionInvoke op \<longrightarrow> (IsInvokeInstructionRange op \<longleftrightarrow> FormatOf op = k3rc) \<and>
      InvokeInstructionType op < 5 \<and> (InvokeInstructionType op = 3 \<longleftrightarrow> IsInstructionInvokeStatic op)) \<and>
   (IsInstructionIGetOrIPut op \<longleftrightarrow> FormatOf op = k22c \<and> IndexTypeOf op = kIndexFieldRef) \<and>
   (IsInstructionSGetOrSPut op \<longleftrightarrow> FormatOf op = k21c \<and> IndexTypeOf op = kIndexFieldRef) \<and>
   ((IsInstructionIGetOrIPut op \<longleftrightarrow> IsInstructionIGet op \<or> IsInstructionIPut op) \<and>
    (IsInstructionSGetOrSPut op \<longleftrightarrow> IsInstructionSGet op \<or> IsInstructionSPut op) \<and>
    (IsInstructionAGetOrAPut op \<longleftrightarrow> IsInstructionAGet op \<or> IsInstructionAPut op)) \<and>
   (IsInstructionIGetOrIPut op \<longrightarrow> IGetOrIPutMemAccessType op < 7 \<and>
      (IGetOrIPutMemAccessType op = 1 \<longleftrightarrow> VerifyFlagsOf op AND kVerifyRegAWide \<noteq> 0)) \<and>
   (IsInstructionSGetOrSPut op \<longrightarrow> SGetOrSPutMemAccessType op < 7 \<and>
      (SGetOrSPutMemAccessType op = 1 \<longleftrightarrow> VerifyFlagsOf op AND kVerifyRegAWide \<noteq> 0)) \<and>
   (IsInstructionAGetOrAPut op \<longrightarrow> AGetOrAPutMemAccessType op < 7 \<and>
      (AGetOrAPutMemAccessType op = 1 \<longleftrightarrow> VerifyFlagsOf op AND kVerifyRegAWide \<noteq> 0)) \<and>
   (access_named ''iget'' IsInstructionIGet IGetMemAccessType IGetOrIPutMemAccessType op (Name op) \<and>
    access_named ''iput'' IsInstructionIPut IPutMemAccessType IGetOrIPutMemAccessType op (Name op) \<and>
    access_named ''sget'' IsInstructionSGet SGetMemAccessType SGetOrSPutMemAccessType op (Name op) \<and>
    access_named ''sput'' IsInstructionSPut SPutMemAccessType SGetOrSPutMemAccessType op (Name op) \<and>
    access_named ''aget'' IsInstructionAGet AGetMemAccessType AGetOrAPutMemAccessType op (Name op) \<and>
    access_named ''aput'' IsInstructionAPut APutMemAccessType AGetOrAPutMemAccessType op (Name op)) \<and>
   invoke_named op (Name op) \<and>
   (IsInstructionDirectConst op \<longleftrightarrow> take 5 (Name op) = ''const'' \<and> IndexTypeOf op = kIndexNone) \<and>
   (IsInstructionConstWide op \<longleftrightarrow> take 10 (Name op) = ''const-wide'') \<and>
   two_addr_named op (Name op)"
proof (intro conjI)
  note defs = FormatOf_def VerifyFlagsOf_def IndexTypeOf_def IsReturn_def IsUnconditional_def IsInvoke_def IsBranch_def
  note g = table_groups [of op, unfolded groups_ok_def] and a = table_accesses [of op, unfolded accesses_ok_def]
  show "IsInstructionReturn op \<longleftrightarrow> IsReturn op" "IsInstructionGoto op \<longleftrightarrow> IsUnconditional op"
    "IsInstructionIfCc op \<longleftrightarrow> FormatOf op = k22t" "IsInstructionIfCcZ op \<longleftrightarrow> FormatOf op = k21t"
    "IsInstructionInvoke op \<longleftrightarrow> IsInvoke op \<and> IndexTypeOf op = kIndexMethodRef"
    "IsInstructionIGetOrIPut op \<longleftrightarrow> FormatOf op = k22c \<and> IndexTypeOf op = kIndexFieldRef"
    "IsInstructionSGetOrSPut op \<longleftrightarrow> FormatOf op = k21c \<and> IndexTypeOf op = kIndexFieldRef"
    unfolding defs using g by blast+
  show "IsInstructionIfCc op \<or> IsInstructionIfCcZ op \<longleftrightarrow> IsBranch op \<and> \<not> IsUnconditional op"
    unfolding defs using g table_conditional [of op, unfolded conditional_ok_def] by blast
  show "IsInstructionInvoke op \<longrightarrow> (IsInvokeInstructionRange op \<longleftrightarrow> FormatOf op = k3rc) \<and>
      InvokeInstructionType op < 5 \<and> (InvokeInstructionType op = 3 \<longleftrightarrow> IsInstructionInvokeStatic op)"
    unfolding defs using g a by simp
  show "IsInstructionIGetOrIPut op \<longleftrightarrow> IsInstructionIGet op \<or> IsInstructionIPut op"
    "IsInstructionSGetOrSPut op \<longleftrightarrow> IsInstructionSGet op \<or> IsInstructionSPut op"
    "IsInstructionAGetOrAPut op \<longleftrightarrow> IsInstructionAGet op \<or> IsInstructionAPut op"
    "IsInstructionIGetOrIPut op \<longrightarrow> IGetOrIPutMemAccessType op < 7 \<and>
      (IGetOrIPutMemAccessType op = 1 \<longleftrightarrow> VerifyFlagsOf op AND kVerifyRegAWide \<noteq> 0)"
    "IsInstructionSGetOrSPut op \<longrightarrow> SGetOrSPutMemAccessType op < 7 \<and>
      (SGetOrSPutMemAccessType op = 1 \<longleftrightarrow> VerifyFlagsOf op AND kVerifyRegAWide \<noteq> 0)"
    "IsInstructionAGetOrAPut op \<longrightarrow> AGetOrAPutMemAccessType op < 7 \<and>
      (AGetOrAPutMemAccessType op = 1 \<longleftrightarrow> VerifyFlagsOf op AND kVerifyRegAWide \<noteq> 0)"
    unfolding defs using a by blast+
qed (rule table_field_names table_array_names table_other_names const_names)+

subsection \<open>Witnesses\<close>

lemma FormatOf_examples: "FormatOf 0x12 = k11n" "FormatOf 0x6E = k35c" "FormatOf 0x28 = k10t" "FormatOf 0x0E = k10x"
  by (simp_all add: FormatOf_def kInstructionDescriptors_def DEX_INSTRUCTION_LIST_def DEX_INSTRUCTION_LIST_low_def)

lemma IGET_WIDE_group: "IsInstructionIGetOrIPut 0x53"
  by (simp add: IsInstructionIGetOrIPut_def dex_flags)


theorem decode_encode_witness: "VRegB (encode 0x12 (F11n 3 0xF)) = Some (- 1)"
proof -
  have "FormatOf 0x12 = format_of (F11n 3 0xF)" by (simp add: FormatOf_examples)
  from decode_encode [OF this] show ?thesis by simp
qed


theorem SafeDexInstructionIterator_next_safe_witness:
  "\<exists>it'. SafeDexInstructionIterator_next \<lparr>instructions = [0x0300, 2], dex_pc = 0, num_code_units = 2, error_state = False\<rparr> = Some it'"
  using SafeDexInstructionIterator_next_safe
    [of "\<lparr>instructions = [0x0300, 2], dex_pc = 0, num_code_units = 2, error_state = False\<rparr>"] by auto

theorem opcode_groups_agree_witness:
  "IGetOrIPutMemAccessType 0x53 < 7 \<and> (IGetOrIPutMemAccessType 0x53 = 1 \<longleftrightarrow> VerifyFlagsOf 0x53 AND kVerifyRegAWide \<noteq> 0) \<and>
    Name 0x53 = mem_names ''iget'' ! unat (IGetMemAccessType 0x53)"
proof -
  have i: "IsInstructionIGet 0x53" by (simp add: IsInstructionIGet_def dex_flags)
  have "access_named ''iget'' IsInstructionIGet IGetMemAccessType IGetOrIPutMemAccessType 0x53 (Name 0x53)"
    using opcode_groups_agree [of "0x53"] by (elim conjE) assumption
  then have n: "Name 0x53 = mem_names ''iget'' ! unat (IGetMemAccessType 0x53)"
    using i unfolding access_named_def by presburger
  have "IsInstructionIGetOrIPut 0x53 \<longrightarrow> IGetOrIPutMemAccessType 0x53 < 7 \<and>
      (IGetOrIPutMemAccessType 0x53 = 1 \<longleftrightarrow> VerifyFlagsOf 0x53 AND kVerifyRegAWide \<noteq> 0)"
    using opcode_groups_agree [of "0x53"] by (elim conjE) assumption
  then show ?thesis using IGET_WIDE_group n by blast
qed

end
