(* ===== verification/Static_Verifier.thy ===== *)
theory Static_Verifier
  imports Dex_Instruction Leb128
begin

text \<open>
  The static passes of the bytecode verifier, \<^verbatim>\<open>MethodVerifier\<close> in
  \<^verbatim>\<open>runtime/verifier/method_verifier.cc\<close>: the width pass, the scan of the exception tables and the
  verification of single instructions, with the instruction flags of
  \<^verbatim>\<open>runtime/verifier/instruction_flags.h\<close> and the handler iterator of
  \<^verbatim>\<open>libdexfile/dex/dex_file_exception_helpers.h\<close>.  Reads outside the code item or the flag array are
  \<^term>\<open>None\<close>.  \<^verbatim>\<open>Fail\<close> records the kind of the failure; its messages and the bookkeeping of runtime
  throws for the code-flow pass are left out, and so is the resolution of exception types, which
  does not change the state of the verifier.
\<close>

unbundle bit_operations_syntax

subsection \<open>Instruction flags\<close>

definition kOpcode_bit :: nat where "kOpcode_bit = 2"
definition kInTry_bit :: nat where "kInTry_bit = 3"
definition kBranchTarget_bit :: nat where "kBranchTarget_bit = 4"
definition kCompileTimeInfoPoint_bit :: nat where "kCompileTimeInfoPoint_bit = 5"
definition kReturn_bit :: nat where "kReturn_bit = 6"

definition SetIsOpcode :: "u8 \<Rightarrow> u8" where "SetIsOpcode f = f OR push_bit kOpcode_bit 1"

definition IsOpcode :: "u8 \<Rightarrow> bool" where "IsOpcode f \<longleftrightarrow> f AND push_bit kOpcode_bit 1 \<noteq> 0"

definition SetInTry :: "u8 \<Rightarrow> u8" where "SetInTry f = f OR push_bit kInTry_bit 1"

definition IsInTry :: "u8 \<Rightarrow> bool" where "IsInTry f \<longleftrightarrow> f AND push_bit kInTry_bit 1 \<noteq> 0"

definition SetBranchTarget :: "u8 \<Rightarrow> u8" where "SetBranchTarget f = f OR push_bit kBranchTarget_bit 1"

definition IsBranchTarget :: "u8 \<Rightarrow> bool" where "IsBranchTarget f \<longleftrightarrow> f AND push_bit kBranchTarget_bit 1 \<noteq> 0"

definition SetCompileTimeInfoPoint :: "u8 \<Rightarrow> u8" where
  "SetCompileTimeInfoPoint f = f OR push_bit kCompileTimeInfoPoint_bit 1"

definition SetReturn :: "u8 \<Rightarrow> u8" where "SetReturn f = f OR push_bit kReturn_bit 1"

subsection \<open>The method and the state of the verifier\<close>

record try_item =
  start_addr :: u32
  insn_count :: u16
  handler_off :: u16

record code_item =
  insns :: "u16 list"
  insns_addr :: nat
  registers_size :: nat
  tries :: "try_item list"
  catch_handler_data :: "u8 list"

text \<open>What the checks need of the dex file: the sizes of its tables and the descriptors of its types.\<close>

record dex_ids =
  type_ids_size :: nat
  field_ids_size :: nat
  method_ids_size :: nat
  proto_ids_size :: nat
  string_ids_size :: nat
  num_call_site_ids :: nat
  num_method_handles :: nat
  StringByTypeIdx :: "nat \<Rightarrow> string"

datatype VerifyError =
    VERIFY_ERROR_BAD_CLASS_HARD | VERIFY_ERROR_NO_CLASS | VERIFY_ERROR_UNRESOLVED_TYPE_CHECK
  | VERIFY_ERROR_NO_METHOD | VERIFY_ERROR_ACCESS_CLASS | VERIFY_ERROR_ACCESS_FIELD | VERIFY_ERROR_ACCESS_METHOD
  | VERIFY_ERROR_CLASS_CHANGE | VERIFY_ERROR_INSTANTIATION | VERIFY_ERROR_LOCKING | VERIFY_ERROR_RUNTIME_THROW

record verifier =
  insn_flags :: "u8 list"
  failures :: "VerifyError list"
  have_pending_hard_failure :: bool

type_synonym 'a ver = "verifier \<Rightarrow> ('a \<times> verifier) option"

definition Fail :: "VerifyError \<Rightarrow> verifier \<Rightarrow> verifier" where
  "Fail error v = v\<lparr>failures := failures v @ [error],
     have_pending_hard_failure := (have_pending_hard_failure v \<or> error = VERIFY_ERROR_BAD_CLASS_HARD)\<rparr>"

text \<open>A check that fails with a hard failure unless its condition holds.\<close>

definition require :: "bool \<Rightarrow> bool ver" where
  "require ok v = (if ok then Some (True, v) else Some (False, Fail VERIFY_ERROR_BAD_CLASS_HARD v))"

definition GetInstructionFlags :: "verifier \<Rightarrow> nat \<Rightarrow> u8 option" where
  "GetInstructionFlags v index = (if index < length (insn_flags v) then Some (insn_flags v ! index) else None)"

definition GetModifiableInstructionFlags :: "nat \<Rightarrow> (u8 \<Rightarrow> u8) \<Rightarrow> verifier \<Rightarrow> verifier option" where
  "GetModifiableInstructionFlags index set_flag v =
     do { f \<leftarrow> GetInstructionFlags v index; Some (v\<lparr>insn_flags := (insn_flags v)[index := set_flag f]\<rparr>) }"

subsection \<open>Index checks\<close>

definition CheckRegisterIndex :: "code_item \<Rightarrow> u32 \<Rightarrow> bool ver" where
  "CheckRegisterIndex ci idx = require (\<not> unat idx \<ge> registers_size ci)"

definition CheckWideRegisterIndex :: "code_item \<Rightarrow> u32 \<Rightarrow> bool ver" where
  "CheckWideRegisterIndex ci idx = require (\<not> unat (idx + 1) \<ge> registers_size ci)"

definition CheckCallSiteIndex :: "dex_ids \<Rightarrow> u32 \<Rightarrow> bool ver" where
  "CheckCallSiteIndex ids idx = require (\<not> unat idx \<ge> num_call_site_ids ids)"

definition CheckFieldIndex :: "dex_ids \<Rightarrow> u32 \<Rightarrow> bool ver" where
  "CheckFieldIndex ids idx = require (\<not> unat idx \<ge> field_ids_size ids)"

definition CheckMethodIndex :: "dex_ids \<Rightarrow> u32 \<Rightarrow> bool ver" where
  "CheckMethodIndex ids idx = require (\<not> unat idx \<ge> method_ids_size ids)"

definition CheckMethodHandleIndex :: "dex_ids \<Rightarrow> u32 \<Rightarrow> bool ver" where
  "CheckMethodHandleIndex ids idx = require (\<not> unat idx \<ge> num_method_handles ids)"

definition CheckPrototypeIndex :: "dex_ids \<Rightarrow> u32 \<Rightarrow> bool ver" where
  "CheckPrototypeIndex ids idx = require (\<not> unat idx \<ge> proto_ids_size ids)"

definition CheckStringIndex :: "dex_ids \<Rightarrow> u32 \<Rightarrow> bool ver" where
  "CheckStringIndex ids idx = require (\<not> unat idx \<ge> string_ids_size ids)"

definition CheckTypeIndex :: "dex_ids \<Rightarrow> u16 \<Rightarrow> bool ver" where
  "CheckTypeIndex ids idx = require (\<not> unat idx \<ge> type_ids_size ids)"

definition CheckNewInstance :: "dex_ids \<Rightarrow> u16 \<Rightarrow> bool ver" where
  "CheckNewInstance ids idx v =
     (if unat idx \<ge> type_ids_size ids then Some (False, Fail VERIFY_ERROR_BAD_CLASS_HARD v)
      else
        let descriptor = StringByTypeIdx ids (unat idx) in
        if descriptor = [] \<or> hd descriptor \<noteq> CHR ''L'' then Some (False, Fail VERIFY_ERROR_BAD_CLASS_HARD v)
        else if descriptor = ''Ljava/lang/Class;'' then Some (True, Fail VERIFY_ERROR_INSTANTIATION v)
        else Some (True, v))"

primrec bracket_loop :: "string \<Rightarrow> nat \<Rightarrow> nat" where
  "bracket_loop [] bracket_count = bracket_count"
| "bracket_loop (c # cp) bracket_count = (if c = CHR ''['' then bracket_loop cp (bracket_count + 1) else bracket_count)"

definition CheckNewArray :: "dex_ids \<Rightarrow> u16 \<Rightarrow> bool ver" where
  "CheckNewArray ids idx v =
     (if unat idx \<ge> type_ids_size ids then Some (False, Fail VERIFY_ERROR_BAD_CLASS_HARD v)
      else
        let bracket_count = bracket_loop (StringByTypeIdx ids (unat idx)) 0 in
        if bracket_count = 0 then Some (False, Fail VERIFY_ERROR_BAD_CLASS_HARD v)
        else if bracket_count > 255 then Some (False, Fail VERIFY_ERROR_BAD_CLASS_HARD v)
        else Some (True, v))"

primrec CheckVarArgRegs_loop :: "code_item \<Rightarrow> u32 list \<Rightarrow> nat list \<Rightarrow> bool ver" where
  "CheckVarArgRegs_loop ci arg [] v = Some (True, v)"
| "CheckVarArgRegs_loop ci arg (idx # is) v =
     (if unat (arg ! idx) \<ge> registers_size ci then Some (False, Fail VERIFY_ERROR_BAD_CLASS_HARD v)
      else CheckVarArgRegs_loop ci arg is v)"

definition CheckVarArgRegs :: "code_item \<Rightarrow> nat \<Rightarrow> u32 list \<Rightarrow> bool ver" where
  "CheckVarArgRegs ci vA arg = CheckVarArgRegs_loop ci arg [0..<vA]"

definition CheckVarArgRangeRegs :: "code_item \<Rightarrow> u32 \<Rightarrow> u32 \<Rightarrow> bool ver" where
  "CheckVarArgRangeRegs ci vA vC = require (\<not> unat (vA + vC) > registers_size ci)"

subsection \<open>Branch targets\<close>

text \<open>Two code units read as a signed 32-bit value.\<close>

definition int32_units :: "u16 \<Rightarrow> u16 \<Rightarrow> int" where
  "int32_units lo hi = sint (ucast lo OR push_bit 16 (ucast hi) :: u32)"

text \<open>The result is the offset and the flags for a conditional branch and for an allowed self-branch.\<close>

definition GetBranchOffset :: "code_item \<Rightarrow> nat \<Rightarrow> (int \<times> bool \<times> bool) option option" where
  "GetBranchOffset ci cur_offset =
     (let code = drop cur_offset (insns ci) in
      do {
        w \<leftarrow> Fetch16 code 0;
        let opcode = (ucast (w AND 0xff) :: u8) in
        if opcode = GOTO then Some (Some (drop_bit 8 (sint w), False, False))
        else if opcode = GOTO_32 then do { lo \<leftarrow> Fetch16 code 1; hi \<leftarrow> Fetch16 code 2; Some (Some (int32_units lo hi, False, True)) }
        else if opcode = GOTO_16 then do { o1 \<leftarrow> Fetch16 code 1; Some (Some (sint o1, False, False)) }
        else if opcode \<in> set [IF_EQ, IF_NE, IF_LT, IF_GE, IF_GT, IF_LE, IF_EQZ, IF_NEZ, IF_LTZ, IF_GEZ, IF_GTZ, IF_LEZ]
        then do { o1 \<leftarrow> Fetch16 code 1; Some (Some (sint o1, True, False)) }
        else Some None })"

text \<open>32-bit sums of the current offset with a signed offset, unsigned and signed.\<close>

definition add_u32 :: "nat \<Rightarrow> int \<Rightarrow> u32" where
  "add_u32 cur_offset offset = of_nat cur_offset + word_of_int offset"

definition CheckBranchTarget :: "code_item \<Rightarrow> nat \<Rightarrow> bool ver" where
  "CheckBranchTarget ci cur_offset v =
     do {
       b \<leftarrow> GetBranchOffset ci cur_offset;
       (case b of
          None \<Rightarrow> Some (False, v)
        | Some (offset, isConditional, selfOkay) \<Rightarrow>
            if \<not> selfOkay \<and> offset = 0 then Some (False, Fail VERIFY_ERROR_BAD_CLASS_HARD v)
            else if int cur_offset + offset \<noteq> uint (add_u32 cur_offset offset)
            then Some (False, Fail VERIFY_ERROR_BAD_CLASS_HARD v)
            else
              let abs_offset = sint (add_u32 cur_offset offset) in
              if abs_offset < 0 \<or> nat abs_offset \<ge> length (insns ci)
              then Some (False, Fail VERIFY_ERROR_BAD_CLASS_HARD v)
              else do {
                f \<leftarrow> GetInstructionFlags v (nat abs_offset);
                if \<not> IsOpcode f then Some (False, Fail VERIFY_ERROR_BAD_CLASS_HARD v)
                else do { v \<leftarrow> GetModifiableInstructionFlags (nat abs_offset) SetBranchTarget v; Some (True, v) } }) }"

subsection \<open>Payload tables\<close>

definition IsAligned4 :: "code_item \<Rightarrow> nat \<Rightarrow> bool" where
  "IsAligned4 ci unit_index \<longleftrightarrow> (insns_addr ci + 2 * unit_index) mod 4 = 0"

definition CheckArrayData :: "code_item \<Rightarrow> nat \<Rightarrow> bool ver" where
  "CheckArrayData ci cur_offset v =
     do {
       lo \<leftarrow> Fetch16 (insns ci) (cur_offset + 1);
       hi \<leftarrow> Fetch16 (insns ci) (cur_offset + 2);
       let array_data_offset = int32_units lo hi; start = add_u32 cur_offset array_data_offset in
       if sint start < 0 \<or> unat (start + 2) \<ge> length (insns ci)
       then Some (False, Fail VERIFY_ERROR_BAD_CLASS_HARD v)
       else if \<not> IsAligned4 ci (unat start) then Some (False, Fail VERIFY_ERROR_BAD_CLASS_HARD v)
       else do {
         f \<leftarrow> GetInstructionFlags v (unat start);
         if \<not> IsOpcode f then Some (False, Fail VERIFY_ERROR_BAD_CLASS_HARD v)
         else do {
           value_width \<leftarrow> Fetch16 (insns ci) (unat start + 1);
           value_count \<leftarrow> Fetch32 (insns ci) (unat start + 2);
           let table_size = 4 + (ucast value_width * value_count + 1) div 2 :: u32 in
           if unat (start + table_size) > length (insns ci) then Some (False, Fail VERIFY_ERROR_BAD_CLASS_HARD v)
           else Some (True, v) } } }"

text \<open>The keys of a sparse switch are checked to be ascending.\<close>

primrec SparseKeys_loop :: "code_item \<Rightarrow> nat \<Rightarrow> nat list \<Rightarrow> int \<Rightarrow> bool option" where
  "SparseKeys_loop ci switch_insns [] last_key = Some True"
| "SparseKeys_loop ci switch_insns (targ # ts) last_key =
     do {
       lo \<leftarrow> Fetch16 (insns ci) (switch_insns + 2 + targ * 2);
       hi \<leftarrow> Fetch16 (insns ci) (switch_insns + 2 + targ * 2 + 1);
       let key = int32_units lo hi in
       if key \<le> last_key then Some False else SparseKeys_loop ci switch_insns ts key }"

definition CheckSwitchKeys :: "code_item \<Rightarrow> nat \<Rightarrow> bool \<Rightarrow> nat \<Rightarrow> bool option" where
  "CheckSwitchKeys ci switch_insns is_packed_switch switch_count =
     (if switch_count > 1 then
        do {
          lo \<leftarrow> Fetch16 (insns ci) (switch_insns + 2);
          hi \<leftarrow> Fetch16 (insns ci) (switch_insns + 3);
          let first_key = int32_units lo hi in
          if is_packed_switch then
            let max_first_key = 2 ^ 31 - 1 - (int switch_count - 1) in Some (\<not> first_key > max_first_key)
          else SparseKeys_loop ci switch_insns [1..<switch_count] first_key }
      else Some True)"

primrec SwitchTargets_loop :: "code_item \<Rightarrow> nat \<Rightarrow> nat \<Rightarrow> nat list \<Rightarrow> bool ver" where
  "SwitchTargets_loop ci cur_offset targets [] v = Some (True, v)"
| "SwitchTargets_loop ci cur_offset targets (targ # ts) v =
     do {
       lo \<leftarrow> Fetch16 (insns ci) (targets + targ * 2);
       hi \<leftarrow> Fetch16 (insns ci) (targets + targ * 2 + 1);
       let abs_offset = sint (add_u32 cur_offset (int32_units lo hi)) in
       if abs_offset < 0 \<or> abs_offset \<ge> sint (of_nat (length (insns ci)) :: u32)
       then Some (False, Fail VERIFY_ERROR_BAD_CLASS_HARD v)
       else do {
         f \<leftarrow> GetInstructionFlags v (nat abs_offset);
         if \<not> IsOpcode f then Some (False, Fail VERIFY_ERROR_BAD_CLASS_HARD v)
         else do {
           v \<leftarrow> GetModifiableInstructionFlags (nat abs_offset) SetBranchTarget v;
           SwitchTargets_loop ci cur_offset targets ts v } } }"

definition CheckSwitchTargets :: "code_item \<Rightarrow> nat \<Rightarrow> bool ver" where
  "CheckSwitchTargets ci cur_offset v =
     do {
       w \<leftarrow> Fetch16 (insns ci) cur_offset;
       lo \<leftarrow> Fetch16 (insns ci) (cur_offset + 1);
       hi \<leftarrow> Fetch16 (insns ci) (cur_offset + 2);
       let switch_offset = int32_units lo hi; start = add_u32 cur_offset switch_offset in
       if sint start < 0 \<or> unat (start + 2) > length (insns ci)
       then Some (False, Fail VERIFY_ERROR_BAD_CLASS_HARD v)
       else if \<not> IsAligned4 ci (unat start) then Some (False, Fail VERIFY_ERROR_BAD_CLASS_HARD v)
       else do {
         f \<leftarrow> GetInstructionFlags v (unat start);
         if \<not> IsOpcode f then Some (False, Fail VERIFY_ERROR_BAD_CLASS_HARD v)
         else do {
           count \<leftarrow> Fetch16 (insns ci) (unat start + 1);
           signature \<leftarrow> Fetch16 (insns ci) (unat start);
           let is_packed_switch = ((ucast (w AND 0xff) :: u8) = PACKED_SWITCH);
               switch_count = unat count;
               targets_offset = (if is_packed_switch then 4 else 2 + 2 * switch_count);
               expected_signature = (if is_packed_switch then kPackedSwitchSignature else kSparseSwitchSignature);
               table_size = targets_offset + switch_count * 2
           in
           if signature \<noteq> expected_signature then Some (False, Fail VERIFY_ERROR_BAD_CLASS_HARD v)
           else if unat (start + of_nat table_size) > length (insns ci)
           then Some (False, Fail VERIFY_ERROR_BAD_CLASS_HARD v)
           else do {
             keys_ok \<leftarrow> CheckSwitchKeys ci (unat start) is_packed_switch switch_count;
             if \<not> keys_ok then Some (False, Fail VERIFY_ERROR_BAD_CLASS_HARD v)
             else SwitchTargets_loop ci cur_offset (unat start + targets_offset) [0..<switch_count] v } } } }"


subsection \<open>Single instructions\<close>

text \<open>\<^verbatim>\<open>result = result && check\<close>: the check only runs while the result is true.\<close>

definition and_check :: "bool \<times> verifier \<Rightarrow> bool ver \<Rightarrow> (bool \<times> verifier) option" where
  "and_check p check = (if fst p then check (snd p) else Some p)"

definition arg_u32 :: "int option \<Rightarrow> (u32 \<Rightarrow> bool ver) \<Rightarrow> bool ver" where
  "arg_u32 operand check v = do { x \<leftarrow> operand; check (word_of_int x) v }"

definition arg_u16 :: "int option \<Rightarrow> (u16 \<Rightarrow> bool ver) \<Rightarrow> bool ver" where
  "arg_u16 operand check v = do { x \<leftarrow> operand; check (word_of_int x) v }"

definition VerifyArgumentA :: "code_item \<Rightarrow> u8 \<Rightarrow> u16 list \<Rightarrow> bool ver" where
  "VerifyArgumentA ci op inst =
     (let a = GetVerifyTypeArgumentA op in
      if a = kVerifyRegA then arg_u32 (VRegA inst) (CheckRegisterIndex ci)
      else if a = kVerifyRegAWide then arg_u32 (VRegA inst) (CheckWideRegisterIndex ci)
      else require True)"

definition VerifyArgumentB :: "dex_ids \<Rightarrow> code_item \<Rightarrow> u8 \<Rightarrow> u16 list \<Rightarrow> bool ver" where
  "VerifyArgumentB ids ci op inst =
     (let b = GetVerifyTypeArgumentB op in
      if b = kVerifyRegB then arg_u32 (VRegB inst) (CheckRegisterIndex ci)
      else if b = kVerifyRegBField then arg_u32 (VRegB inst) (CheckFieldIndex ids)
      else if b = kVerifyRegBMethod then arg_u32 (VRegB inst) (CheckMethodIndex ids)
      else if b = kVerifyRegBNewInstance then arg_u16 (VRegB inst) (CheckNewInstance ids)
      else if b = kVerifyRegBString then arg_u32 (VRegB inst) (CheckStringIndex ids)
      else if b = kVerifyRegBType then arg_u16 (VRegB inst) (CheckTypeIndex ids)
      else if b = kVerifyRegBWide then arg_u32 (VRegB inst) (CheckWideRegisterIndex ci)
      else if b = kVerifyRegBCallSite then arg_u32 (VRegB inst) (CheckCallSiteIndex ids)
      else if b = kVerifyRegBMethodHandle then arg_u32 (VRegB inst) (CheckMethodHandleIndex ids)
      else if b = kVerifyRegBPrototype then arg_u32 (VRegB inst) (CheckPrototypeIndex ids)
      else require True)"

definition VerifyArgumentC :: "dex_ids \<Rightarrow> code_item \<Rightarrow> u8 \<Rightarrow> u16 list \<Rightarrow> bool ver" where
  "VerifyArgumentC ids ci op inst =
     (let c = GetVerifyTypeArgumentC op in
      if c = kVerifyRegC then arg_u32 (VRegC inst) (CheckRegisterIndex ci)
      else if c = kVerifyRegCField then arg_u32 (VRegC inst) (CheckFieldIndex ids)
      else if c = kVerifyRegCNewArray then arg_u16 (VRegC inst) (CheckNewArray ids)
      else if c = kVerifyRegCType then arg_u16 (VRegC inst) (CheckTypeIndex ids)
      else if c = kVerifyRegCWide then arg_u32 (VRegC inst) (CheckWideRegisterIndex ci)
      else require True)"

definition VerifyArgumentH :: "dex_ids \<Rightarrow> u8 \<Rightarrow> u16 list \<Rightarrow> bool ver" where
  "VerifyArgumentH ids op inst =
     (if GetVerifyTypeArgumentH op = kVerifyRegHPrototype then arg_u32 (VRegH inst) (CheckPrototypeIndex ids)
      else require True)"

text \<open>
  The switch over the extra flags.  The first component of the result tells that the function
  returns here; the array of arguments is uninitialised, and only the entries that
  \<^verbatim>\<open>GetVarArgs\<close> writes are read.
\<close>

definition VerifyExtraFlags :: "code_item \<Rightarrow> u8 \<Rightarrow> u16 list \<Rightarrow> nat \<Rightarrow> bool \<times> verifier \<Rightarrow> (bool \<times> bool \<times> verifier) option" where
  "VerifyExtraFlags ci op inst code_offset p =
     (let extra = GetVerifyExtraFlags op; continue = map_option (\<lambda>q. (False, q)) in
      if extra = kVerifyArrayData then continue (and_check p (CheckArrayData ci code_offset))
      else if extra = kVerifyBranchTarget then continue (and_check p (CheckBranchTarget ci code_offset))
      else if extra = kVerifySwitchTargets then continue (and_check p (CheckSwitchTargets ci code_offset))
      else if extra = kVerifyVarArgNonZero \<or> extra = kVerifyVarArg then
        do {
          a \<leftarrow> VRegA inst;
          let v_a = (word_of_int a :: u32) in
          if (extra = kVerifyVarArgNonZero \<and> v_a = 0) \<or> v_a > 5
          then Some (True, False, Fail VERIFY_ERROR_BAD_CLASS_HARD (snd p))
          else do {
            inst_data \<leftarrow> Fetch16 inst 0;
            (count, args) \<leftarrow> GetVarArgs inst (replicate 5 0) inst_data;
            continue (and_check p (CheckVarArgRegs ci (unat v_a) args)) } }
      else if extra = kVerifyVarArgRangeNonZero \<or> extra = kVerifyVarArgRange then
        do {
          a \<leftarrow> VRegA inst;
          if extra = kVerifyVarArgRangeNonZero \<and> a \<le> 0
          then Some (True, False, Fail VERIFY_ERROR_BAD_CLASS_HARD (snd p))
          else continue (and_check p (\<lambda>v. do { c \<leftarrow> VRegC inst; CheckVarArgRangeRegs ci (word_of_int a) (word_of_int c) v })) }
      else if extra = kVerifyError then Some (False, False, Fail VERIFY_ERROR_BAD_CLASS_HARD (snd p))
      else Some (False, p))"

definition VerifyInstruction :: "bool \<Rightarrow> dex_ids \<Rightarrow> code_item \<Rightarrow> u16 list \<Rightarrow> nat \<Rightarrow> bool ver" where
  "VerifyInstruction kAllowRuntimeOnlyInstructions ids ci inst code_offset v =
     do {
       inst_data \<leftarrow> Fetch16 inst 0;
       let op = Opcode inst_data in do {
       p \<leftarrow> VerifyArgumentA ci op inst v;
       p \<leftarrow> and_check p (VerifyArgumentB ids ci op inst);
       p \<leftarrow> and_check p (VerifyArgumentC ids ci op inst);
       p \<leftarrow> and_check p (VerifyArgumentH ids op inst);
       (returned, result, v) \<leftarrow> VerifyExtraFlags ci op inst code_offset p;
       if returned then Some (result, v)
       else if \<not> kAllowRuntimeOnlyInstructions \<and> GetVerifyIsRuntimeOnly op
       then Some (False, Fail VERIFY_ERROR_BAD_CLASS_HARD v)
       else Some (result, v) } }"

partial_function (option) VerifyInstructions_loop ::
  "bool \<Rightarrow> dex_ids \<Rightarrow> code_item \<Rightarrow> dex_iterator \<Rightarrow> verifier \<Rightarrow> (bool \<times> verifier) option" where
  "VerifyInstructions_loop allow ids ci it v =
     (if dex_pc it = length (insns ci) then Some (True, v)
      else do {
        (ok, v) \<leftarrow> VerifyInstruction allow ids ci (Inst it) (dex_pc it) v;
        if \<not> ok then Some (False, v)
        else do {
          inst_data \<leftarrow> Fetch16 (Inst it) 0;
          let op = Opcode inst_data in do {
          v \<leftarrow> (if IsReturn op then GetModifiableInstructionFlags (dex_pc it) SetReturn v
                else if op = CHECK_CAST then GetModifiableInstructionFlags (dex_pc it) SetCompileTimeInfoPoint v
                else Some v);
          it \<leftarrow> DexInstructionIterator_next it;
          VerifyInstructions_loop allow ids ci it v } } })"

definition VerifyInstructions :: "bool \<Rightarrow> dex_ids \<Rightarrow> code_item \<Rightarrow> bool ver" where
  "VerifyInstructions allow ids ci v =
     do {
       v \<leftarrow> GetModifiableInstructionFlags 0 SetBranchTarget v;
       VerifyInstructions_loop allow ids ci \<lparr>instructions = insns ci, dex_pc = 0\<rparr> v }"

subsection \<open>The width pass\<close>

partial_function (option) ComputeWidths_loop ::
  "nat \<Rightarrow> safe_dex_iterator \<Rightarrow> verifier \<Rightarrow> (safe_dex_iterator \<times> verifier) option" where
  "ComputeWidths_loop end_pc it v =
     (if \<not> error_state it \<and> dex_pc it < end_pc then
        do {
          next_it \<leftarrow> SafeDexInstructionIterator_next it;
          if error_state next_it then Some (it, v)
          else do {
            v \<leftarrow> GetModifiableInstructionFlags (dex_pc it) SetIsOpcode v;
            it \<leftarrow> SafeDexInstructionIterator_next it;
            ComputeWidths_loop end_pc it v } }
      else Some (it, v))"

definition ComputeWidthsAndCountOps :: "code_item \<Rightarrow> bool ver" where
  "ComputeWidthsAndCountOps ci v =
     (let end_pc = length (insns ci);
          it = SafeDexInstructionIterator \<lparr>instructions = insns ci, dex_pc = 0\<rparr> \<lparr>instructions = insns ci, dex_pc = end_pc\<rparr>
      in
      if dex_pc it = end_pc then Some (False, Fail VERIFY_ERROR_BAD_CLASS_HARD v)
      else do {
        (it, v) \<leftarrow> ComputeWidths_loop end_pc it v;
        if dex_pc it \<noteq> end_pc then Some (False, Fail VERIFY_ERROR_BAD_CLASS_HARD v)
        else Some (True, v) })"

subsection \<open>Exception handlers\<close>

record catch_handler_iterator =
  handler_type_idx :: u16
  handler_address :: u32
  current_data :: "u8 list"
  remaining_count :: u32
  catch_all :: bool

definition HasNext :: "catch_handler_iterator \<Rightarrow> bool" where
  "HasNext it \<longleftrightarrow> remaining_count it \<noteq> - 1 \<or> catch_all it"

definition CatchHandlerIterator_Next :: "catch_handler_iterator \<Rightarrow> catch_handler_iterator option" where
  "CatchHandlerIterator_Next it =
     (if sint (remaining_count it) > 0 then
        do {
          (type_idx, data) \<leftarrow> DecodeUnsignedLeb128 (current_data it);
          (address, data) \<leftarrow> DecodeUnsignedLeb128 data;
          Some (it\<lparr>handler_type_idx := ucast type_idx, handler_address := address, current_data := data,
                   remaining_count := remaining_count it - 1\<rparr>) }
      else if catch_all it then
        do {
          (address, data) \<leftarrow> DecodeUnsignedLeb128 (current_data it);
          Some (it\<lparr>handler_type_idx := 0xFFFF, handler_address := address, current_data := data, catch_all := False\<rparr>) }
      else Some (it\<lparr>remaining_count := - 1\<rparr>))"

definition CatchHandlerIterator_Init :: "u8 list \<Rightarrow> catch_handler_iterator option" where
  "CatchHandlerIterator_Init handler_data =
     do {
       (count, data) \<leftarrow> DecodeSignedLeb128 handler_data;
       CatchHandlerIterator_Next
         (if sint count \<le> 0
          then \<lparr>handler_type_idx = 0, handler_address = 0, current_data = data, remaining_count = - count, catch_all = True\<rparr>
          else \<lparr>handler_type_idx = 0, handler_address = 0, current_data = data, remaining_count = count, catch_all = False\<rparr>) }"

definition CheckNotMoveResult :: "code_item \<Rightarrow> nat \<Rightarrow> bool ver" where
  "CheckNotMoveResult ci insn_idx v =
     do {
       w \<leftarrow> Fetch16 (insns ci) insn_idx;
       let op = (ucast (w AND 0xff) :: u8) in
       require (\<not> (op \<ge> MOVE_RESULT \<and> op \<le> MOVE_RESULT_OBJECT)) v }"

partial_function (option) Handlers_loop :: "code_item \<Rightarrow> catch_handler_iterator \<Rightarrow> verifier \<Rightarrow> (bool \<times> u8 list \<times> verifier) option" where
  "Handlers_loop ci it v =
     (if HasNext it then
        do {
          f \<leftarrow> GetInstructionFlags v (unat (handler_address it));
          if \<not> IsOpcode f then Some (False, current_data it, Fail VERIFY_ERROR_BAD_CLASS_HARD v)
          else do {
            (ok, v) \<leftarrow> CheckNotMoveResult ci (unat (handler_address it)) v;
            if \<not> ok then Some (False, current_data it, Fail VERIFY_ERROR_BAD_CLASS_HARD v)
            else do {
              v \<leftarrow> GetModifiableInstructionFlags (unat (handler_address it)) SetBranchTarget v;
              it \<leftarrow> CatchHandlerIterator_Next it;
              Handlers_loop ci it v } } }
      else Some (True, current_data it, v))"

primrec HandlerLists_loop :: "code_item \<Rightarrow> nat \<Rightarrow> u8 list \<Rightarrow> bool ver" where
  "HandlerLists_loop ci 0 handlers_ptr v = Some (True, v)"
| "HandlerLists_loop ci (Suc n) handlers_ptr v =
     do {
       it \<leftarrow> CatchHandlerIterator_Init handlers_ptr;
       (ok, data, v) \<leftarrow> Handlers_loop ci it v;
       if \<not> ok then Some (False, v) else HandlerLists_loop ci n data v }"

partial_function (option) SetInTry_loop :: "nat \<Rightarrow> dex_iterator \<Rightarrow> verifier \<Rightarrow> verifier option" where
  "SetInTry_loop end_pc it v =
     (if dex_pc it < end_pc then
        do {
          v \<leftarrow> GetModifiableInstructionFlags (dex_pc it) SetInTry v;
          it \<leftarrow> DexInstructionIterator_next it;
          SetInTry_loop end_pc it v }
      else Some v)"

primrec TryItems_loop :: "code_item \<Rightarrow> try_item list \<Rightarrow> bool ver" where
  "TryItems_loop ci [] v = Some (True, v)"
| "TryItems_loop ci (t # ts) v =
     (let start = start_addr t; end_pc = start + ucast (insn_count t); insns_size = length (insns ci) in
      if start \<ge> end_pc \<or> unat start \<ge> insns_size \<or> unat end_pc > insns_size
      then Some (False, Fail VERIFY_ERROR_BAD_CLASS_HARD v)
      else do {
        f \<leftarrow> GetInstructionFlags v (unat start);
        if \<not> IsOpcode f then Some (False, Fail VERIFY_ERROR_BAD_CLASS_HARD v)
        else do {
          v \<leftarrow> SetInTry_loop (unat end_pc) \<lparr>instructions = insns ci, dex_pc = unat start\<rparr> v;
          TryItems_loop ci ts v } })"

definition ScanTryCatchBlocks :: "code_item \<Rightarrow> bool ver" where
  "ScanTryCatchBlocks ci v =
     (if tries ci = [] then Some (True, v)
      else do {
        (ok, v) \<leftarrow> TryItems_loop ci (tries ci) v;
        if \<not> ok then Some (False, v)
        else do {
          (handlers_size, handlers_ptr) \<leftarrow> DecodeUnsignedLeb128 (catch_handler_data ci);
          HandlerLists_loop ci (unat handlers_size) handlers_ptr v } })"

subsection \<open>The static passes in order\<close>

definition Verify_static :: "bool \<Rightarrow> dex_ids \<Rightarrow> code_item \<Rightarrow> (bool \<times> verifier) option" where
  "Verify_static allow_runtime_only_instructions ids ci =
     do {
       p \<leftarrow> ComputeWidthsAndCountOps ci
         \<lparr>insn_flags = replicate (length (insns ci)) 0, failures = [], have_pending_hard_failure = False\<rparr>;
       p \<leftarrow> and_check p (ScanTryCatchBlocks ci);
       and_check p (VerifyInstructions allow_runtime_only_instructions ids ci) }"

end
