(* ===== verification/Spec2Isabelle.thy ===== *)
theory Spec2Isabelle
  imports Leb128 Utf Hash_Set_Correct Bit_Vector_Correct Dex_Instruction_Correct Static_Verifier
begin

text \<open>
  A verification library for the Android Runtime sources under \<^verbatim>\<open>src/\<close>.
\<close>

end
